(* ===== verification/Go_Prelude.thy ===== *)
theory Go_Prelude
  imports Main "HOL-Library.Word" "HOL-Library.Sublist" "HOL-Library.List_Lexorder"
begin

text \<open>
  The part of Go that every component of the client uses.

  \<^item> A Go string and the contents of a byte slice are lists of bytes (\<open>bytes\<close>); a slice
    is \<open>None\<close> when it is nil and \<open>Some bs\<close> otherwise, since the code tests
    \<open>ret.end != nil\<close> and a non-nil empty slice is not nil.
  \<^item> \<open>int64\<close>, \<open>uint64\<close> and \<open>uint\<close> are 64-bit words.
  \<^item> A call that may panic returns \<open>'a go\<close>: \<open>Ret\<close> of its result, or \<open>Panic\<close> of the
    message. A stateful call takes the outside state last and returns it.
\<close>

unbundle bit_operations_syntax

type_synonym byte = "8 word"
type_synonym bytes = "byte list"
type_synonym slice = "bytes option"
type_synonym int64 = "64 word"
type_synonym uint64 = "64 word"
type_synonym int32 = "32 word"

named_theorems go_simps "defining equations of the small helpers of the model"
named_theorems frame_simps "fields that an operation leaves as they were"

section \<open>Panics as values\<close>

datatype 'a go = Ret 'a | Panic string

fun go_bind :: "'a go \<Rightarrow> ('a \<Rightarrow> 'b go) \<Rightarrow> 'b go" where
  "go_bind (Ret a) f = f a"
| "go_bind (Panic m) f = Panic m"

fun go_map :: "('a \<Rightarrow> 'b go) \<Rightarrow> 'a list \<Rightarrow> 'b list go" where
  "go_map f [] = Ret []"
| "go_map f (x # xs) = go_bind (f x) (\<lambda>y. go_bind (go_map f xs) (\<lambda>ys. Ret (y # ys)))"

definition nil_deref :: string where
  "nil_deref = ''runtime error: invalid memory address or nil pointer dereference''"

definition go_deref :: "'a option \<Rightarrow> 'a go" where
  "go_deref p = (case p of None \<Rightarrow> Panic nil_deref | Some a \<Rightarrow> Ret a)"

lemma go_deref_simps [simp]:
  "go_deref None = Panic nil_deref" "go_deref (Some a) = Ret a"
  by (simp_all add: go_deref_def)

lemma go_bind_Ret_iff [simp]:
  "go_bind x f = Ret b \<longleftrightarrow> (\<exists>a. x = Ret a \<and> f a = Ret b)"
  by (cases x) auto

lemma go_bind_Panic_iff:
  "go_bind x f = Panic m \<longleftrightarrow> x = Panic m \<or> (\<exists>a. x = Ret a \<and> f a = Panic m)"
  by (cases x) auto

lemma go_map_Ret_iff: "go_map f xs = Ret ys \<longleftrightarrow> list_all2 (\<lambda>x y. f x = Ret y) xs ys"
  by (induction xs arbitrary: ys) (auto simp: list_all2_Cons1)

lemma go_map_Ret_all: "(\<And>x. x \<in> set xs \<Longrightarrow> f x = Ret (g x)) \<Longrightarrow> go_map f xs = Ret (map g xs)"
  by (induction xs) auto

lemma go_map_total_iff: "(\<exists>ys. go_map f xs = Ret ys) \<longleftrightarrow> (\<forall>x\<in>set xs. \<exists>y. f x = Ret y)"
  by (induction xs) auto

section \<open>Slices\<close>

fun slice_bytes :: "slice \<Rightarrow> bytes" where
  "slice_bytes None = []"
| "slice_bytes (Some bs) = bs"

definition slice_len :: "slice \<Rightarrow> nat" where
  "slice_len s = length (slice_bytes s)"

lemma slice_len_simps [simp]: "slice_len None = 0" "slice_len (Some bs) = length bs"
  by (simp_all add: slice_len_def)

text \<open>A slice as it comes back from the wire: an empty one was not sent, and stays nil.\<close>

definition wire_slice :: "slice \<Rightarrow> slice" where
  "wire_slice s = (if slice_len s = 0 then None else s)"

lemma wire_slice_simps [simp]:
  "wire_slice None = None" "wire_slice (Some []) = None"
  "wire_slice (Some (b # bs)) = Some (b # bs)"
  by (simp_all add: wire_slice_def)

lemma slice_bytes_wire [simp]: "slice_bytes (wire_slice s) = slice_bytes s"
  by (cases s rule: slice_bytes.cases) (auto simp: wire_slice_def)

section \<open>Byte strings in lexicographic order\<close>

lemma prefix_le: "prefix p k \<Longrightarrow> p \<le> (k :: bytes)"
  by (induction p arbitrary: k) (auto simp: prefix_def)

lemma append_less_mono: "(a :: bytes) < b \<Longrightarrow> p @ a < p @ b"
  by (induction p) auto

lemma less_append_cancel: "p @ a < p @ (b :: bytes) \<longleftrightarrow> a < b"
  by (induction p) auto

lemma le_append_cancel: "p @ a \<le> p @ (b :: bytes) \<longleftrightarrow> a \<le> b"
  by (induction p) auto

text \<open>
  The strings between \<open>p @ a\<close> and \<open>p @ b\<close> all start with \<open>p\<close>, when \<open>b\<close> is a proper
  continuation: the step that lets a common prefix be stripped from a range.
\<close>

lemma between_has_prefix:
  "p \<le> k \<Longrightarrow> k < p @ b \<Longrightarrow> prefix p (k :: bytes)"
proof (induction p arbitrary: k)
  case Nil
  then show ?case by simp
next
  case (Cons x p)
  from Cons.prems obtain y k' where k: "k = y # k'" by (cases k) auto
  from Cons.prems have "x \<le> y" "y \<le> x" by (auto simp: k)
  then have xy: "y = x" by simp
  with Cons.prems have "p \<le> k'" "k' < p @ b" by (auto simp: k)
  then have "prefix p k'" by (rule Cons.IH)
  then show ?case by (simp add: k xy)
qed

section \<open>Words used as counters\<close>

lemma unat_Suc_less: "(a :: 64 word) < m \<Longrightarrow> unat (a + 1) = Suc (unat a)"
proof -
  assume "a < m"
  then have "unat a < unat m" by (simp add: word_less_nat_alt)
  moreover have "unat m < 2 ^ 64" using unsigned_less [of m, where ?'a = nat] by simp
  ultimately show ?thesis by (simp add: unat_word_ariths)
qed

lemma word_less_Suc_measure:
  "(a :: 64 word) < m \<Longrightarrow> unat m - unat (a + 1) < unat m - unat a"
  by (simp add: unat_Suc_less word_less_nat_alt)

end
