(* ===== verification/Proto_Types.thy ===== *)
theory Proto_Types
  imports Go_Prelude
begin

text \<open>
  The protobuf messages of \<open>internal/proto/regatta.pb.go\<close> and \<open>internal/proto/mvcc.pb.go\<close>
  that the client sends and receives, one record per struct with the struct's exported fields
  in their order and \<open>unknownFields\<close> last (the struct's \<open>state\<close> and \<open>sizeCache\<close> are
  bookkeeping of the protobuf runtime and have no counterpart). A pointer to a message is an
  option, \<open>None\<close> being nil; a repeated field is a list, nil and empty being the same to
  every reader of it; a oneof is a datatype whose absent value is \<open>None\<close>.
\<close>

section \<open>Shared messages\<close>

record KeyValue =
  kv_Key :: slice
  kv_CreateRevision :: int64
  kv_ModRevision :: int64
  kv_Value :: slice
  kv_unknownFields :: bytes

record ResponseHeader =
  rh_ShardId :: uint64
  rh_ReplicaId :: uint64
  rh_Revision :: uint64
  rh_RaftTerm :: uint64
  rh_RaftLeaderId :: uint64
  rh_unknownFields :: bytes

section \<open>Range\<close>

record RangeRequest =
  rr_Table :: slice
  rr_Key :: slice
  rr_RangeEnd :: slice
  rr_Limit :: int64
  rr_Linearizable :: bool
  rr_KeysOnly :: bool
  rr_CountOnly :: bool
  rr_MinModRevision :: int64
  rr_MaxModRevision :: int64
  rr_MinCreateRevision :: int64
  rr_MaxCreateRevision :: int64
  rr_unknownFields :: bytes

record RangeResponse =
  rs_Header :: "ResponseHeader option"
  rs_Kvs :: "KeyValue option list"
  rs_More :: bool
  rs_Count :: int64
  rs_unknownFields :: bytes

section \<open>Put\<close>

record PutRequest =
  pr_Table :: slice
  pr_Key :: slice
  pr_Value :: slice
  pr_PrevKv :: bool
  pr_unknownFields :: bytes

record PbPutResponse =
  ps_Header :: "ResponseHeader option"
  ps_PrevKv :: "KeyValue option"
  ps_unknownFields :: bytes

section \<open>DeleteRange\<close>

record DeleteRangeRequest =
  dr_Table :: slice
  dr_Key :: slice
  dr_RangeEnd :: slice
  dr_PrevKv :: bool
  dr_Count :: bool
  dr_unknownFields :: bytes

record DeleteRangeResponse =
  ds_Header :: "ResponseHeader option"
  ds_Deleted :: int64
  ds_PrevKvs :: "KeyValue option list"
  ds_unknownFields :: bytes

section \<open>Txn: the operations of a transaction and their responses\<close>

record RequestOp_Range =
  qr_Key :: slice
  qr_RangeEnd :: slice
  qr_Limit :: int64
  qr_KeysOnly :: bool
  qr_CountOnly :: bool
  qr_unknownFields :: bytes

record RequestOp_Put =
  qp_Key :: slice
  qp_Value :: slice
  qp_PrevKv :: bool
  qp_unknownFields :: bytes

record RequestOp_DeleteRange =
  qd_Key :: slice
  qd_RangeEnd :: slice
  qd_PrevKv :: bool
  qd_Count :: bool
  qd_unknownFields :: bytes

datatype RequestOp_Request =
    RequestOp_RequestRange RequestOp_Range
  | RequestOp_RequestPut RequestOp_Put
  | RequestOp_RequestDeleteRange RequestOp_DeleteRange

record RequestOp =
  ro_Request :: "RequestOp_Request option"
  ro_unknownFields :: bytes

record ResponseOp_Range =
  sr_Kvs :: "KeyValue option list"
  sr_More :: bool
  sr_Count :: int64
  sr_unknownFields :: bytes

record ResponseOp_Put =
  sp_PrevKv :: "KeyValue option"
  sp_unknownFields :: bytes

record ResponseOp_DeleteRange =
  sd_Deleted :: int64
  sd_PrevKvs :: "KeyValue option list"
  sd_unknownFields :: bytes

datatype ResponseOp_Response =
    ResponseOp_ResponseRange ResponseOp_Range
  | ResponseOp_ResponsePut ResponseOp_Put
  | ResponseOp_ResponseDeleteRange ResponseOp_DeleteRange

record PbResponseOp =
  so_Response :: "ResponseOp_Response option"
  so_unknownFields :: bytes

text \<open>
  The enumerations of a comparison are int32 in the generated code, and any int32 can arrive
  from the wire.
\<close>

abbreviation (input) Compare_EQUAL :: int32 where "Compare_EQUAL \<equiv> 0"
abbreviation (input) Compare_GREATER :: int32 where "Compare_GREATER \<equiv> 1"
abbreviation (input) Compare_LESS :: int32 where "Compare_LESS \<equiv> 2"
abbreviation (input) Compare_NOT_EQUAL :: int32 where "Compare_NOT_EQUAL \<equiv> 3"
abbreviation (input) Compare_VALUE :: int32 where "Compare_VALUE \<equiv> 0"

datatype Compare_TargetUnion = Compare_Value (cmp_value: slice)

record PbCompare =
  pc_Result :: int32
  pc_Target :: int32
  pc_Key :: slice
  pc_TargetUnion :: "Compare_TargetUnion option"
  pc_RangeEnd :: slice
  pc_unknownFields :: bytes

text \<open>
  A pointer to a comparison: \<open>None\<close> is nil, \<open>Some a\<close> the cell \<open>a\<close> of the store of
  theory \<open>Client_Cmp\<close>. Transactions carry these pointers, not the comparisons.
\<close>

type_synonym cmp_ptr = "nat option"

record TxnRequest =
  tr_Table :: slice
  tr_Compare :: "cmp_ptr list"
  tr_Success :: "RequestOp list"
  tr_Failure :: "RequestOp list"
  tr_unknownFields :: bytes

record PbTxnResponse =
  ts_Header :: "ResponseHeader option"
  ts_Succeeded :: bool
  ts_Responses :: "PbResponseOp list"
  ts_unknownFields :: bytes

section \<open>Cluster and tables\<close>

record Member =
  mb_Id :: string
  mb_Name :: string
  mb_PeerURLs :: "string list"
  mb_ClientURLs :: "string list"

record MemberListResponse =
  ml_Cluster :: string
  ml_Members :: "Member list"

record TableStatus =
  tb_LogSize :: int64
  tb_DbSize :: int64
  tb_Leader :: string
  tb_RaftIndex :: uint64
  tb_RaftTerm :: uint64
  tb_RaftAppliedIndex :: uint64

text \<open>The structured configuration values are opaque (\<open>google.golang.org/protobuf\<close>): \<open>'s\<close>.\<close>

record 's PbStatusResponse =
  st_Id :: string
  st_Version :: string
  st_Info :: string
  st_Tables :: "string \<rightharpoonup> TableStatus option"
  st_Config :: 's
  st_Errors :: "string list"

record 's PbTableInfo =
  ti_Name :: string
  ti_Id :: string
  ti_Config :: 's

section \<open>The range a request denotes\<close>

text \<open>
  The comment on \<open>RangeRequest.RangeEnd\<close> states which keys a request selects: only \<open>key\<close>
  when no end is given, every key from \<open>key\<close> on when the end is the single byte 0, and
  the keys of \<open>[key, range_end)\<close> otherwise. Bytes compare lexicographically.
\<close>

definition in_range :: "bytes \<Rightarrow> bytes \<Rightarrow> bytes \<Rightarrow> bool" where
  "in_range key range_end k =
     (if range_end = [] then k = key
      else if range_end = [0] then key \<le> k
      else key \<le> k \<and> k < range_end)"

end
