(* ===== verification/Client_Op.thy ===== *)
theory Client_Op
  imports Proto_Types
begin

text \<open>
  \<open>op.go\<close>: the operation value \<open>Op\<close>, its options, its constructors with their checks, and
  its translation to requests. The scalar fields of the Go struct are the record
  \<open>op_fields\<close>; \<open>Op\<close> adds the parts of a transaction, which hold operations again. An
  option is a function on operations, as in Go, and the options of the package are also
  listed as the datatype \<open>Opt\<close>, so that properties can speak of any list of them.
\<close>

section \<open>Operations\<close>

text \<open>\<open>type opType int\<close>, with the invalid zero value first and \<open>iota + 1\<close> after it.\<close>

datatype opType = tInvalid | tRange | tIterateRange | tPut | tDeleteRange | tTxn

fun opType_code :: "opType \<Rightarrow> nat" where
  "opType_code tInvalid = 0"
| "opType_code tRange = 1"
| "opType_code tIterateRange = 2"
| "opType_code tPut = 3"
| "opType_code tDeleteRange = 4"
| "opType_code tTxn = 5"

text \<open>The order of the integer codes, so that the library's order facts apply to them.\<close>

instantiation opType :: linorder
begin

definition less_eq_opType :: "opType \<Rightarrow> opType \<Rightarrow> bool" where
  "less_eq_opType a b = (opType_code a \<le> opType_code b)"

definition less_opType :: "opType \<Rightarrow> opType \<Rightarrow> bool" where
  "less_opType a b = (opType_code a < opType_code b)"

instance
proof
  fix a b :: opType
  assume "a \<le> b" and "b \<le> a"
  then show "a = b"
    by (cases a; cases b) (simp_all add: less_eq_opType_def)
qed (auto simp: less_eq_opType_def less_opType_def)

end

record op_fields =
  op_t :: opType
  op_key :: slice
  op_end :: slice
  op_limit :: int64
  op_serializable :: bool
  op_keysOnly :: bool
  op_countOnly :: bool
  op_minModRev :: int64
  op_maxModRev :: int64
  op_minCreateRev :: int64
  op_maxCreateRev :: int64
  op_rev :: int64
  op_prevKV :: bool
  op_val :: slice
  op_count :: bool
  op_isOptsWithFromKey :: bool
  op_isOptsWithPrefix :: bool

definition zero_fields :: op_fields where
  "zero_fields = \<lparr>op_t = tInvalid, op_key = None, op_end = None, op_limit = 0,
     op_serializable = False, op_keysOnly = False, op_countOnly = False,
     op_minModRev = 0, op_maxModRev = 0, op_minCreateRev = 0, op_maxCreateRev = 0,
     op_rev = 0, op_prevKV = False, op_val = None, op_count = False,
     op_isOptsWithFromKey = False, op_isOptsWithPrefix = False\<rparr>"

datatype Op = Op (op_f: op_fields) (op_cmps: "cmp_ptr list")
  (op_thenOps: "Op list") (op_elseOps: "Op list")

text \<open>An operation literal \<open>Op{...}\<close> with no transaction part.\<close>

abbreviation mkOp :: "op_fields \<Rightarrow> Op" where
  "mkOp f \<equiv> Op f [] [] []"

fun op_upd :: "(op_fields \<Rightarrow> op_fields) \<Rightarrow> Op \<Rightarrow> Op" where
  "op_upd u (Op f cs ts es) = Op (u f) cs ts es"

lemma op_upd_sel [simp]:
  "op_f (op_upd u x) = u (op_f x)" "op_cmps (op_upd u x) = op_cmps x"
  "op_thenOps (op_upd u x) = op_thenOps x" "op_elseOps (op_upd u x) = op_elseOps x"
  by (cases x; simp)+

lemma op_upd_upd [simp]: "op_upd u (op_upd v x) = op_upd (u \<circ> v) x"
  by (cases x) simp

subsection \<open>Accessors and mutators\<close>

definition IsTxn :: "Op \<Rightarrow> bool" where "IsTxn x = (op_t (op_f x) = tTxn)"

definition op_Txn :: "Op \<Rightarrow> cmp_ptr list \<times> Op list \<times> Op list" where
  "op_Txn x = (op_cmps x, op_thenOps x, op_elseOps x)"

definition op_KeyBytes :: "Op \<Rightarrow> slice" where "op_KeyBytes x = op_key (op_f x)"
definition op_WithKeyBytes :: "slice \<Rightarrow> Op \<Rightarrow> Op" where
  "op_WithKeyBytes k = op_upd (\<lambda>f. f\<lparr>op_key := k\<rparr>)"
definition op_RangeBytes :: "Op \<Rightarrow> slice" where "op_RangeBytes x = op_end (op_f x)"
definition op_Rev :: "Op \<Rightarrow> int64" where "op_Rev x = op_rev (op_f x)"
definition IsPut :: "Op \<Rightarrow> bool" where "IsPut x = (op_t (op_f x) = tPut)"
definition IsGet :: "Op \<Rightarrow> bool" where "IsGet x = (op_t (op_f x) = tRange)"
definition IsIterate :: "Op \<Rightarrow> bool" where "IsIterate x = (op_t (op_f x) = tIterateRange)"
definition IsDelete :: "Op \<Rightarrow> bool" where "IsDelete x = (op_t (op_f x) = tDeleteRange)"
definition IsSerializable :: "Op \<Rightarrow> bool" where "IsSerializable x = op_serializable (op_f x)"
definition IsKeysOnly :: "Op \<Rightarrow> bool" where "IsKeysOnly x = op_keysOnly (op_f x)"
definition IsCountOnly :: "Op \<Rightarrow> bool" where "IsCountOnly x = op_countOnly (op_f x)"
definition op_WithRangeBytes :: "slice \<Rightarrow> Op \<Rightarrow> Op" where
  "op_WithRangeBytes e = op_upd (\<lambda>f. f\<lparr>op_end := e\<rparr>)"
definition op_ValueBytes :: "Op \<Rightarrow> slice" where "op_ValueBytes x = op_val (op_f x)"
definition op_WithValueBytes :: "slice \<Rightarrow> Op \<Rightarrow> Op" where
  "op_WithValueBytes v = op_upd (\<lambda>f. f\<lparr>op_val := v\<rparr>)"

lemmas op_accessors [go_simps] =
  IsTxn_def op_KeyBytes_def op_WithKeyBytes_def op_RangeBytes_def op_Rev_def IsPut_def
  IsGet_def IsIterate_def IsDelete_def IsSerializable_def IsKeysOnly_def IsCountOnly_def
  op_WithRangeBytes_def op_ValueBytes_def op_WithValueBytes_def op_Txn_def

text \<open>The loops over both branches stop at the first write.\<close>

fun op_isWrite :: "Op \<Rightarrow> bool" where
  "op_isWrite (Op f cs ts es) =
     (if op_t f = tTxn then
        (if list_ex op_isWrite ts then True
         else if list_ex op_isWrite es then True else False)
      else op_t f \<noteq> tRange)"

section \<open>Requests\<close>

definition toRangeRequest :: "Op \<Rightarrow> bytes \<Rightarrow> RangeRequest go" where
  "toRangeRequest x table =
     (let f = op_f x in
      if op_t f \<noteq> tRange \<and> op_t f \<noteq> tIterateRange
      then Panic ''op.t != tRange|tIterateRange''
      else Ret \<lparr>rr_Table = Some table, rr_Key = op_key f, rr_RangeEnd = op_end f,
        rr_Limit = op_limit f, rr_Linearizable = (\<not> op_serializable f),
        rr_KeysOnly = op_keysOnly f, rr_CountOnly = op_countOnly f,
        rr_MinModRevision = op_minModRev f, rr_MaxModRevision = op_maxModRev f,
        rr_MinCreateRevision = op_minCreateRev f, rr_MaxCreateRevision = op_maxCreateRev f,
        rr_unknownFields = []\<rparr>)"

text \<open>\<open>fmt.Sprintf("... %d", op.t)\<close>: the code is one digit.\<close>

definition opType_digits :: "opType \<Rightarrow> string" where
  "opType_digits t = [char_of (48 + opType_code t)]"

fun toRequestOp :: "Op \<Rightarrow> RequestOp go" where
  "toRequestOp (Op f cs ts es) =
     (case op_t f of
        tRange \<Rightarrow> Ret \<lparr>ro_Request = Some (RequestOp_RequestRange
          \<lparr>qr_Key = op_key f, qr_RangeEnd = op_end f, qr_Limit = op_limit f,
           qr_KeysOnly = op_keysOnly f, qr_CountOnly = op_countOnly f,
           qr_unknownFields = []\<rparr>), ro_unknownFields = []\<rparr>
      | tPut \<Rightarrow> Ret \<lparr>ro_Request = Some (RequestOp_RequestPut
          \<lparr>qp_Key = op_key f, qp_Value = op_val f, qp_PrevKv = op_prevKV f,
           qp_unknownFields = []\<rparr>), ro_unknownFields = []\<rparr>
      | tDeleteRange \<Rightarrow> Ret \<lparr>ro_Request = Some (RequestOp_RequestDeleteRange
          \<lparr>qd_Key = op_key f, qd_RangeEnd = op_end f, qd_PrevKv = op_prevKV f,
           qd_Count = op_count f, qd_unknownFields = []\<rparr>), ro_unknownFields = []\<rparr>
      | _ \<Rightarrow> Panic (''unsupported transaction op type '' @ opType_digits (op_t f)))"

definition toTxnRequest :: "Op \<Rightarrow> bytes \<Rightarrow> TxnRequest go" where
  "toTxnRequest x table =
     go_bind (go_map toRequestOp (op_thenOps x)) (\<lambda>thenOps.
     go_bind (go_map toRequestOp (op_elseOps x)) (\<lambda>elseOps.
     Ret \<lparr>tr_Table = Some table, tr_Compare = op_cmps x, tr_Success = thenOps,
       tr_Failure = elseOps, tr_unknownFields = []\<rparr>))"

section \<open>Prefix ranges\<close>

definition noPrefixEnd :: bytes where
  "noPrefixEnd = [0]"

text \<open>
  The loop of \<open>getPrefix\<close> over the copied key, its index counted as the number of bytes
  still to look at: \<open>Suc i\<close> stands for the index \<open>i\<close>, and \<open>0\<close> for the end of the loop.
\<close>

fun getPrefix_loop :: "bytes \<Rightarrow> nat \<Rightarrow> bytes" where
  "getPrefix_loop e 0 = noPrefixEnd"
| "getPrefix_loop e (Suc i) =
     (if e ! i < 0xff then take (i + 1) (e[i := e ! i + 1]) else getPrefix_loop e i)"

definition getPrefix :: "slice \<Rightarrow> bytes" where
  "getPrefix key = (let e = slice_bytes key in getPrefix_loop e (length e))"

definition GetPrefixRangeEnd :: "bytes \<Rightarrow> bytes" where
  "GetPrefixRangeEnd p = getPrefix (Some p)"

section \<open>Options\<close>

type_synonym OpOption = "Op \<Rightarrow> Op"

definition WithLimit :: "int64 \<Rightarrow> OpOption" where
  "WithLimit n = op_upd (\<lambda>f. f\<lparr>op_limit := n\<rparr>)"

definition WithRev :: "int64 \<Rightarrow> OpOption" where
  "WithRev n = op_upd (\<lambda>f. f\<lparr>op_rev := n\<rparr>)"

definition WithPrefix :: OpOption where
  "WithPrefix = op_upd (\<lambda>f.
     let f = f\<lparr>op_isOptsWithPrefix := True\<rparr> in
     if slice_len (op_key f) = 0 then f\<lparr>op_key := Some [0], op_end := Some [0]\<rparr>
     else f\<lparr>op_end := Some (getPrefix (op_key f))\<rparr>)"

definition WithRange :: "bytes \<Rightarrow> OpOption" where
  "WithRange endKey = op_upd (\<lambda>f. f\<lparr>op_end := Some endKey\<rparr>)"

definition WithFromKey :: OpOption where
  "WithFromKey = op_upd (\<lambda>f.
     let f = (if slice_len (op_key f) = 0 then f\<lparr>op_key := Some [0]\<rparr> else f)
     in f\<lparr>op_end := Some [0], op_isOptsWithFromKey := True\<rparr>)"

definition WithSerializable :: OpOption where
  "WithSerializable = op_upd (\<lambda>f. f\<lparr>op_serializable := True\<rparr>)"

definition WithKeysOnly :: OpOption where
  "WithKeysOnly = op_upd (\<lambda>f. f\<lparr>op_keysOnly := True\<rparr>)"

definition WithCountOnly :: OpOption where
  "WithCountOnly = op_upd (\<lambda>f. f\<lparr>op_countOnly := True\<rparr>)"

definition WithPrevKV :: OpOption where
  "WithPrevKV = op_upd (\<lambda>f. f\<lparr>op_prevKV := True\<rparr>)"

definition WithCount :: OpOption where
  "WithCount = op_upd (\<lambda>f. f\<lparr>op_count := True\<rparr>)"

definition NewOp :: Op where
  "NewOp = mkOp (zero_fields\<lparr>op_key := Some []\<rparr>)"

fun applyOpts :: "OpOption list \<Rightarrow> Op \<Rightarrow> Op" where
  "applyOpts [] x = x"
| "applyOpts (opt # opts) x = applyOpts opts (opt x)"

definition IsOptsWithPrefix :: "OpOption list \<Rightarrow> bool" where
  "IsOptsWithPrefix opts = op_isOptsWithPrefix (op_f (applyOpts opts NewOp))"

definition IsOptsWithFromKey :: "OpOption list \<Rightarrow> bool" where
  "IsOptsWithFromKey opts = op_isOptsWithFromKey (op_f (applyOpts opts NewOp))"

section \<open>Constructors\<close>

definition prefix_and_fromkey_msg :: string where
  "prefix_and_fromkey_msg =
     ''`WithPrefix` and `WithFromKey` cannot be set at the same time, choose one''"

definition OpGet :: "bytes \<Rightarrow> OpOption list \<Rightarrow> Op go" where
  "OpGet key opts =
     (if IsOptsWithPrefix opts \<and> IsOptsWithFromKey opts then Panic prefix_and_fromkey_msg
      else
        let ret = applyOpts opts (mkOp (zero_fields\<lparr>op_t := tRange, op_key := Some key\<rparr>));
            f = op_f ret
        in if op_count f then Panic ''unexpected count in range, you probably meant countOnly''
           else if op_prevKV f then Panic ''unexpected prevKv in range''
           else Ret ret)"

definition OpIterate :: "bytes \<Rightarrow> OpOption list \<Rightarrow> Op go" where
  "OpIterate key opts =
     (if IsOptsWithPrefix opts \<and> IsOptsWithFromKey opts then Panic prefix_and_fromkey_msg
      else
        let ret = applyOpts opts
              (mkOp (zero_fields\<lparr>op_t := tIterateRange, op_key := Some key\<rparr>));
            f = op_f ret
        in if op_count f
           then Panic ''unexpected count in iterateRange, you probably meant countOnly''
           else if op_prevKV f then Panic ''unexpected prevKv in iterateRange''
           else Ret ret)"

definition OpDelete :: "bytes \<Rightarrow> OpOption list \<Rightarrow> Op go" where
  "OpDelete key opts =
     (if IsOptsWithPrefix opts \<and> IsOptsWithFromKey opts then Panic prefix_and_fromkey_msg
      else
        let ret = applyOpts opts (mkOp (zero_fields\<lparr>op_t := tDeleteRange, op_key := Some key\<rparr>));
            f = op_f ret
        in if op_limit f \<noteq> 0 then Panic ''unexpected limit in delete''
           else if op_rev f \<noteq> 0 then Panic ''unexpected revision in delete''
           else if op_serializable f then Panic ''unexpected serializable in delete''
           else if op_countOnly f then Panic ''unexpected countOnly in delete''
           else if op_minModRev f \<noteq> 0 \<or> op_maxModRev f \<noteq> 0
             then Panic ''unexpected mod revision filter in delete''
           else if op_minCreateRev f \<noteq> 0 \<or> op_maxCreateRev f \<noteq> 0
             then Panic ''unexpected create revision filter in delete''
           else Ret ret)"

definition OpPut :: "bytes \<Rightarrow> bytes \<Rightarrow> OpOption list \<Rightarrow> Op go" where
  "OpPut key val opts =
     (let ret = applyOpts opts
            (mkOp (zero_fields\<lparr>op_t := tPut, op_key := Some key, op_val := Some val\<rparr>));
          f = op_f ret
      in if op_end f \<noteq> None then Panic ''unexpected range in put''
         else if op_limit f \<noteq> 0 then Panic ''unexpected limit in put''
         else if op_rev f \<noteq> 0 then Panic ''unexpected revision in put''
         else if op_serializable f then Panic ''unexpected serializable in put''
         else if op_countOnly f then Panic ''unexpected countOnly in put''
         else if op_minModRev f \<noteq> 0 \<or> op_maxModRev f \<noteq> 0
           then Panic ''unexpected mod revision filter in put''
         else if op_minCreateRev f \<noteq> 0 \<or> op_maxCreateRev f \<noteq> 0
           then Panic ''unexpected create revision filter in put''
         else Ret ret)"

definition OpTxn :: "cmp_ptr list \<Rightarrow> Op list \<Rightarrow> Op list \<Rightarrow> Op" where
  "OpTxn cmps thenOps elseOps = Op (zero_fields\<lparr>op_t := tTxn\<rparr>) cmps thenOps elseOps"

section \<open>The package's options as data\<close>

datatype Opt = OLimit int64 | ORev int64 | OPrefix | ORange bytes | OFromKey
  | OSerializable | OKeysOnly | OCountOnly | OPrevKV | OCount

fun opt_fun :: "Opt \<Rightarrow> OpOption" where
  "opt_fun (OLimit n) = WithLimit n"
| "opt_fun (ORev n) = WithRev n"
| "opt_fun OPrefix = WithPrefix"
| "opt_fun (ORange e) = WithRange e"
| "opt_fun OFromKey = WithFromKey"
| "opt_fun OSerializable = WithSerializable"
| "opt_fun OKeysOnly = WithKeysOnly"
| "opt_fun OCountOnly = WithCountOnly"
| "opt_fun OPrevKV = WithPrevKV"
| "opt_fun OCount = WithCount"

abbreviation opts_of :: "Opt list \<Rightarrow> OpOption list" where
  "opts_of os \<equiv> map opt_fun os"

lemmas opt_defs = WithLimit_def WithRev_def WithPrefix_def WithRange_def WithFromKey_def
  WithSerializable_def WithKeysOnly_def WithCountOnly_def WithPrevKV_def WithCount_def

section \<open>Facts about prefixes\<close>

text \<open>
  A reference definition of the range end, by recursion from the left: the end of the tail
  where it exists, else the head plus one, else none.
\<close>

fun prefix_end :: "bytes \<Rightarrow> bytes option" where
  "prefix_end [] = None"
| "prefix_end (x # xs) =
     (case prefix_end xs of Some e \<Rightarrow> Some (x # e)
      | None \<Rightarrow> if x < 0xff then Some [x + 1] else None)"

lemma prefix_end_snoc:
  "prefix_end (xs @ [b]) = (if b < 0xff then Some (xs @ [b + 1]) else prefix_end xs)"
  by (induction xs) auto

lemma getPrefix_loop_eq:
  "i \<le> length e \<Longrightarrow>
     getPrefix_loop e i = (case prefix_end (take i e) of None \<Rightarrow> noPrefixEnd | Some p \<Rightarrow> p)"
proof (induction i)
  case 0
  then show ?case by simp
next
  case (Suc i)
  then have "take (Suc i) e = take i e @ [e ! i]" by (simp add: take_Suc_conv_app_nth)
  moreover from Suc.prems have "take (i + 1) (e[i := e ! i + 1]) = take i e @ [e ! i + 1]"
    by (simp add: take_Suc_conv_app_nth)
  ultimately show ?case using Suc by (simp add: prefix_end_snoc)
qed

lemma getPrefix_eq:
  "getPrefix key = (case prefix_end (slice_bytes key) of None \<Rightarrow> noPrefixEnd | Some p \<Rightarrow> p)"
  by (simp add: getPrefix_def Let_def getPrefix_loop_eq)

lemma unat_byte_less: "unat (x :: byte) < 256"
  using unsigned_less [of x, where ?'a = nat] by simp

lemma byte_ff_max: "\<not> (x :: byte) < 0xff \<longleftrightarrow> x = 0xff"
  using unat_byte_less [of x] by (auto simp: word_less_nat_alt word_unat_eq_iff)

lemma byte_le_ff: "(x :: byte) \<le> 0xff"
  using unat_byte_less [of x] by (simp add: word_le_nat_alt)

lemma unat_byte_Suc: "(x :: byte) < 0xff \<Longrightarrow> unat (x + 1) = Suc (unat x)"
  by (simp add: word_less_nat_alt unat_word_ariths)

lemma byte_less_Suc: "(x :: byte) < 0xff \<Longrightarrow> y < x + 1 \<longleftrightarrow> y \<le> x"
  by (simp add: word_less_nat_alt [of y] word_le_nat_alt unat_byte_Suc less_Suc_eq_le)

lemma byte_Suc_neq_0: "(x :: byte) < 0xff \<Longrightarrow> x + 1 \<noteq> 0"
  by (metis nat.distinct(1) unat_0 unat_byte_Suc)

lemma prefix_end_None:
  "prefix_end p = None \<Longrightarrow> p \<le> k \<longleftrightarrow> prefix p (k :: bytes)"
proof (induction p arbitrary: k)
  case Nil
  then show ?case by simp
next
  case (Cons x xs)
  then have "xs \<le> k' \<longleftrightarrow> prefix xs k'" and "x = 0xff" for k'
    using byte_ff_max [of x] by (auto split: option.splits if_splits)
  then show ?case
    using byte_le_ff by (cases k) (auto simp: less_le_not_le)
qed

lemma prefix_end_Some:
  "prefix_end p = Some e \<Longrightarrow> p \<le> k \<and> k < e \<longleftrightarrow> prefix p (k :: bytes)"
proof (induction p arbitrary: k e)
  case Nil
  then show ?case by simp
next
  case (Cons x xs)
  show ?case
  proof (cases k)
    case Nil
    then show ?thesis by simp
  next
    case k: (Cons y k')
    show ?thesis
    proof (cases "prefix_end xs")
      case None
      with Cons.prems have "x < 0xff" "e = [x + 1]" by (auto split: if_splits)
      then show ?thesis using prefix_end_None [OF None, of k']
        by (auto simp: k byte_less_Suc)
    next
      case (Some e')
      with Cons.prems have "e = x # e'" by simp
      with Cons.IH [OF Some, of k'] show ?thesis by (auto simp: k)
    qed
  qed
qed

lemma prefix_end_proper: "prefix_end p = Some e \<Longrightarrow> e \<noteq> [] \<and> e \<noteq> [0]"
proof (induction p arbitrary: e)
  case Nil
  then show ?case by simp
next
  case (Cons x xs)
  from Cons.prems show ?case
    using byte_Suc_neq_0 [of x] Cons.IH by (auto split: option.splits if_splits)
qed

text \<open>The range computed for a prefix holds exactly the keys that start with it.\<close>

lemma getPrefix_range:
  "in_range (slice_bytes key) (getPrefix key) k \<longleftrightarrow> prefix (slice_bytes key) k"
proof (cases "prefix_end (slice_bytes key)")
  case None
  then show ?thesis
    by (simp add: getPrefix_eq in_range_def noPrefixEnd_def prefix_end_None)
next
  case (Some e)
  then show ?thesis using prefix_end_proper [OF Some]
    by (simp add: getPrefix_eq in_range_def prefix_end_Some)
qed

lemma nonempty_ge_0: "k \<noteq> [] \<Longrightarrow> [0] \<le> (k :: bytes)"
  by (cases k) (auto simp: word_gt_0)

section \<open>Facts about options\<close>

lemma applyOpts_append [simp]: "applyOpts (os @ os') x = applyOpts os' (applyOpts os x)"
  by (induction os arbitrary: x) auto

lemma opt_fun_frame [frame_simps]:
  "op_t (op_f (opt_fun opt x)) = op_t (op_f x)"
  "op_val (op_f (opt_fun opt x)) = op_val (op_f x)"
  "op_minModRev (op_f (opt_fun opt x)) = op_minModRev (op_f x)"
  "op_maxModRev (op_f (opt_fun opt x)) = op_maxModRev (op_f x)"
  "op_minCreateRev (op_f (opt_fun opt x)) = op_minCreateRev (op_f x)"
  "op_maxCreateRev (op_f (opt_fun opt x)) = op_maxCreateRev (op_f x)"
  "op_cmps (opt_fun opt x) = op_cmps x"
  "op_thenOps (opt_fun opt x) = op_thenOps x"
  "op_elseOps (opt_fun opt x) = op_elseOps x"
  by (cases opt; simp add: opt_defs Let_def)+

lemma applyOpts_frame [frame_simps]:
  "op_t (op_f (applyOpts (opts_of os) x)) = op_t (op_f x)"
  "op_val (op_f (applyOpts (opts_of os) x)) = op_val (op_f x)"
  "op_minModRev (op_f (applyOpts (opts_of os) x)) = op_minModRev (op_f x)"
  "op_maxModRev (op_f (applyOpts (opts_of os) x)) = op_maxModRev (op_f x)"
  "op_minCreateRev (op_f (applyOpts (opts_of os) x)) = op_minCreateRev (op_f x)"
  "op_maxCreateRev (op_f (applyOpts (opts_of os) x)) = op_maxCreateRev (op_f x)"
  "op_cmps (applyOpts (opts_of os) x) = op_cmps x"
  "op_thenOps (applyOpts (opts_of os) x) = op_thenOps x"
  "op_elseOps (applyOpts (opts_of os) x) = op_elseOps x"
  by (induction os arbitrary: x; simp add: frame_simps)+

lemma opt_fun_flags:
  "op_count (op_f (opt_fun opt x)) = (opt = OCount \<or> op_count (op_f x))"
  "op_prevKV (op_f (opt_fun opt x)) = (opt = OPrevKV \<or> op_prevKV (op_f x))"
  "op_serializable (op_f (opt_fun opt x)) = (opt = OSerializable \<or> op_serializable (op_f x))"
  "op_keysOnly (op_f (opt_fun opt x)) = (opt = OKeysOnly \<or> op_keysOnly (op_f x))"
  "op_countOnly (op_f (opt_fun opt x)) = (opt = OCountOnly \<or> op_countOnly (op_f x))"
  "op_isOptsWithPrefix (op_f (opt_fun opt x)) = (opt = OPrefix \<or> op_isOptsWithPrefix (op_f x))"
  "op_isOptsWithFromKey (op_f (opt_fun opt x)) = (opt = OFromKey \<or> op_isOptsWithFromKey (op_f x))"
  by (cases opt; simp add: opt_defs Let_def)+

lemma applyOpts_flags:
  "op_count (op_f (applyOpts (opts_of os) x)) = (OCount \<in> set os \<or> op_count (op_f x))"
  "op_prevKV (op_f (applyOpts (opts_of os) x)) = (OPrevKV \<in> set os \<or> op_prevKV (op_f x))"
  "op_serializable (op_f (applyOpts (opts_of os) x)) =
     (OSerializable \<in> set os \<or> op_serializable (op_f x))"
  "op_keysOnly (op_f (applyOpts (opts_of os) x)) = (OKeysOnly \<in> set os \<or> op_keysOnly (op_f x))"
  "op_countOnly (op_f (applyOpts (opts_of os) x)) = (OCountOnly \<in> set os \<or> op_countOnly (op_f x))"
  "op_isOptsWithPrefix (op_f (applyOpts (opts_of os) x)) =
     (OPrefix \<in> set os \<or> op_isOptsWithPrefix (op_f x))"
  "op_isOptsWithFromKey (op_f (applyOpts (opts_of os) x)) =
     (OFromKey \<in> set os \<or> op_isOptsWithFromKey (op_f x))"
  by (induction os arbitrary: x; auto simp: opt_fun_flags)+

text \<open>The value an option list leaves in \<open>limit\<close> and \<open>rev\<close>: the last one wins.\<close>

fun last_limit :: "Opt list \<Rightarrow> int64 \<Rightarrow> int64" where
  "last_limit [] acc = acc"
| "last_limit (OLimit n # os) acc = last_limit os n"
| "last_limit (_ # os) acc = last_limit os acc"

fun last_rev :: "Opt list \<Rightarrow> int64 \<Rightarrow> int64" where
  "last_rev [] acc = acc"
| "last_rev (ORev n # os) acc = last_rev os n"
| "last_rev (_ # os) acc = last_rev os acc"

lemma applyOpts_limit:
  "op_limit (op_f (applyOpts (opts_of os) x)) = last_limit os (op_limit (op_f x))"
proof (induction os arbitrary: x)
  case (Cons opt os)
  then show ?case by (cases opt) (simp_all add: opt_defs Let_def)
qed simp

lemma applyOpts_rev:
  "op_rev (op_f (applyOpts (opts_of os) x)) = last_rev os (op_rev (op_f x))"
proof (induction os arbitrary: x)
  case (Cons opt os)
  then show ?case by (cases opt) (simp_all add: opt_defs Let_def)
qed simp

fun sets_range :: "Opt \<Rightarrow> bool" where
  "sets_range OPrefix = True"
| "sets_range (ORange e) = True"
| "sets_range OFromKey = True"
| "sets_range _ = False"

lemma opt_fun_end_None:
  "op_end (op_f (opt_fun opt x)) = None \<longleftrightarrow> \<not> sets_range opt \<and> op_end (op_f x) = None"
  by (cases opt) (simp_all add: opt_defs Let_def)

lemma applyOpts_end_None:
  "op_end (op_f (applyOpts (opts_of os) x)) = None \<longleftrightarrow>
     \<not> list_ex sets_range os \<and> op_end (op_f x) = None"
  by (induction os arbitrary: x) (auto simp: opt_fun_end_None)

lemma opt_fun_key: "\<not> sets_range opt \<Longrightarrow> op_key (op_f (opt_fun opt x)) = op_key (op_f x)"
  by (cases opt) (simp_all add: opt_defs Let_def)

lemma applyOpts_key:
  "\<not> list_ex sets_range os \<Longrightarrow> op_key (op_f (applyOpts (opts_of os) x)) = op_key (op_f x)"
  by (induction os arbitrary: x) (auto simp: opt_fun_key)

lemma IsOptsWithPrefix_iff [simp]: "IsOptsWithPrefix (opts_of os) \<longleftrightarrow> OPrefix \<in> set os"
  by (simp add: IsOptsWithPrefix_def applyOpts_flags NewOp_def zero_fields_def)

lemma IsOptsWithFromKey_iff [simp]: "IsOptsWithFromKey (opts_of os) \<longleftrightarrow> OFromKey \<in> set os"
  by (simp add: IsOptsWithFromKey_def applyOpts_flags NewOp_def zero_fields_def)

lemmas applyOpts_simps = applyOpts_flags applyOpts_limit applyOpts_rev applyOpts_end_None
  frame_simps

section \<open>What the constructors return\<close>

lemma OpGet_eq:
  "OpGet key (opts_of os) =
     (if OPrefix \<in> set os \<and> OFromKey \<in> set os then Panic prefix_and_fromkey_msg
      else if OCount \<in> set os
        then Panic ''unexpected count in range, you probably meant countOnly''
      else if OPrevKV \<in> set os then Panic ''unexpected prevKv in range''
      else Ret (applyOpts (opts_of os) (mkOp (zero_fields\<lparr>op_t := tRange, op_key := Some key\<rparr>))))"
  by (simp add: OpGet_def applyOpts_simps Let_def zero_fields_def)

lemma OpIterate_eq:
  "OpIterate key (opts_of os) =
     (if OPrefix \<in> set os \<and> OFromKey \<in> set os then Panic prefix_and_fromkey_msg
      else if OCount \<in> set os
        then Panic ''unexpected count in iterateRange, you probably meant countOnly''
      else if OPrevKV \<in> set os then Panic ''unexpected prevKv in iterateRange''
      else Ret (applyOpts (opts_of os) (mkOp (zero_fields\<lparr>op_t := tIterateRange, op_key := Some key\<rparr>))))"
  by (simp add: OpIterate_def applyOpts_simps Let_def zero_fields_def)

text \<open>The operation \<open>OpPut\<close> returns: the key, the value and the flags it does not check.\<close>

definition put_fields :: "bytes \<Rightarrow> bytes \<Rightarrow> Opt list \<Rightarrow> op_fields" where
  "put_fields key val os = zero_fields\<lparr>op_t := tPut, op_key := Some key, op_val := Some val,
     op_keysOnly := OKeysOnly \<in> set os, op_prevKV := OPrevKV \<in> set os,
     op_count := OCount \<in> set os\<rparr>"

lemma list_ex_sets_range: "opt \<in> set os \<Longrightarrow> sets_range opt \<Longrightarrow> list_ex sets_range os"
  by (auto simp: list_ex_iff)

lemma applyOpts_put_fields:
  assumes "\<not> list_ex sets_range os" "last_limit os 0 = 0" "last_rev os 0 = 0"
    "OSerializable \<notin> set os" "OCountOnly \<notin> set os"
  shows "op_f (applyOpts (opts_of os)
     (mkOp (zero_fields\<lparr>op_t := tPut, op_key := Some key, op_val := Some val\<rparr>))) =
     put_fields key val os"
  using assms list_ex_sets_range [of OPrefix os] list_ex_sets_range [of OFromKey os]
  by (intro op_fields.equality)
    (auto simp: put_fields_def zero_fields_def applyOpts_simps applyOpts_key)

lemma OpPut_eq:
  "OpPut key val (opts_of os) =
     (if list_ex sets_range os then Panic ''unexpected range in put''
      else if last_limit os 0 \<noteq> 0 then Panic ''unexpected limit in put''
      else if last_rev os 0 \<noteq> 0 then Panic ''unexpected revision in put''
      else if OSerializable \<in> set os then Panic ''unexpected serializable in put''
      else if OCountOnly \<in> set os then Panic ''unexpected countOnly in put''
      else Ret (mkOp (put_fields key val os)))"
proof -
  let ?x = "applyOpts (opts_of os)
    (mkOp (zero_fields\<lparr>op_t := tPut, op_key := Some key, op_val := Some val\<rparr>))"
  have "?x = Op (op_f ?x) (op_cmps ?x) (op_thenOps ?x) (op_elseOps ?x)" by simp
  then have x: "?x = mkOp (op_f ?x)" by (simp only: frame_simps Op.sel)
  have "OpPut key val (opts_of os) =
     (if list_ex sets_range os then Panic ''unexpected range in put''
      else if last_limit os 0 \<noteq> 0 then Panic ''unexpected limit in put''
      else if last_rev os 0 \<noteq> 0 then Panic ''unexpected revision in put''
      else if OSerializable \<in> set os then Panic ''unexpected serializable in put''
      else if OCountOnly \<in> set os then Panic ''unexpected countOnly in put''
      else Ret ?x)"
    by (simp add: OpPut_def applyOpts_simps Let_def zero_fields_def del: not_None_eq)
  moreover have "?x = mkOp (put_fields key val os)"
    if "\<not> list_ex sets_range os" "last_limit os 0 = 0" "last_rev os 0 = 0"
      "OSerializable \<notin> set os" "OCountOnly \<notin> set os"
    by (subst x) (simp only: applyOpts_put_fields [OF that])
  ultimately show ?thesis by (simp split: if_split)
qed

lemma OpDelete_eq:
  "OpDelete key (opts_of os) =
     (if OPrefix \<in> set os \<and> OFromKey \<in> set os then Panic prefix_and_fromkey_msg
      else if last_limit os 0 \<noteq> 0 then Panic ''unexpected limit in delete''
      else if last_rev os 0 \<noteq> 0 then Panic ''unexpected revision in delete''
      else if OSerializable \<in> set os then Panic ''unexpected serializable in delete''
      else if OCountOnly \<in> set os then Panic ''unexpected countOnly in delete''
      else Ret (applyOpts (opts_of os)
        (mkOp (zero_fields\<lparr>op_t := tDeleteRange, op_key := Some key\<rparr>))))"
  by (simp add: OpDelete_def applyOpts_simps Let_def zero_fields_def)

section \<open>Properties\<close>

text \<open>C38: For any list of the package's options, \<open>OpGet\<close> and \<open>OpIterate\<close> panic exactly
  when both \<open>WithPrefix\<close> and \<open>WithFromKey\<close> are given, or \<open>WithCount\<close> or \<open>WithPrevKV\<close> is, with the
  message of the first of these checks; otherwise they return the operation the options
  build from the zero operation on the key.\<close>

theorem OpGet_outcome:
  "OpGet key (opts_of os) =
     (if OPrefix \<in> set os \<and> OFromKey \<in> set os then Panic prefix_and_fromkey_msg
      else if OCount \<in> set os
        then Panic ''unexpected count in range, you probably meant countOnly''
      else if OPrevKV \<in> set os then Panic ''unexpected prevKv in range''
      else Ret (applyOpts (opts_of os) (mkOp (zero_fields\<lparr>op_t := tRange, op_key := Some key\<rparr>))))
   \<and> OpIterate key (opts_of os) =
     (if OPrefix \<in> set os \<and> OFromKey \<in> set os then Panic prefix_and_fromkey_msg
      else if OCount \<in> set os
        then Panic ''unexpected count in iterateRange, you probably meant countOnly''
      else if OPrevKV \<in> set os then Panic ''unexpected prevKv in iterateRange''
      else Ret (applyOpts (opts_of os) (mkOp (zero_fields\<lparr>op_t := tIterateRange, op_key := Some key\<rparr>))))"
  by (simp only: OpGet_eq OpIterate_eq)

text \<open>For any list of the package's options, \<open>OpPut\<close> panics when an option sets a range,
  when the last limit or the last revision given is not 0, or when \<open>WithSerializable\<close> or
  \<open>WithCountOnly\<close> is given, in this order of checks; otherwise it returns the operation with
  exactly the key, the value and the unchecked flags of the options.\<close>

theorem OpPut_outcome:
  "OpPut key val (opts_of os) =
     (if list_ex sets_range os then Panic ''unexpected range in put''
      else if last_limit os 0 \<noteq> 0 then Panic ''unexpected limit in put''
      else if last_rev os 0 \<noteq> 0 then Panic ''unexpected revision in put''
      else if OSerializable \<in> set os then Panic ''unexpected serializable in put''
      else if OCountOnly \<in> set os then Panic ''unexpected countOnly in put''
      else Ret (mkOp (put_fields key val os)))"
  by (rule OpPut_eq)

text \<open>For any list of the package's options, \<open>OpDelete\<close> panics when both \<open>WithPrefix\<close>
  and \<open>WithFromKey\<close> are given, when the last limit or the last revision is not 0, or when
  \<open>WithSerializable\<close> or \<open>WithCountOnly\<close> is given, in this order of checks; otherwise it
  returns the operation the options build.\<close>

theorem OpDelete_outcome:
  "OpDelete key (opts_of os) =
     (if OPrefix \<in> set os \<and> OFromKey \<in> set os then Panic prefix_and_fromkey_msg
      else if last_limit os 0 \<noteq> 0 then Panic ''unexpected limit in delete''
      else if last_rev os 0 \<noteq> 0 then Panic ''unexpected revision in delete''
      else if OSerializable \<in> set os then Panic ''unexpected serializable in delete''
      else if OCountOnly \<in> set os then Panic ''unexpected countOnly in delete''
      else Ret (applyOpts (opts_of os)
        (mkOp (zero_fields\<lparr>op_t := tDeleteRange, op_key := Some key\<rparr>))))"
  by (rule OpDelete_eq)

text \<open>C5: \<open>Get\<close> with \<open>WithPrefix\<close> asks for exactly the keys that start with the given
  prefix, for every prefix: also when all its bytes are 0xff (the range is then open-ended)
  and when it is empty (all keys; the empty key is not allowed as a key).\<close>

theorem prefix_get_range:
  assumes "k \<noteq> []"
  shows "\<exists>x r. OpGet key [WithPrefix] = Ret x \<and> toRangeRequest x table = Ret r \<and>
     in_range (slice_bytes (rr_Key r)) (slice_bytes (rr_RangeEnd r)) k = prefix key k"
proof (cases "key = []")
  case True
  then show ?thesis
    using OpGet_eq [of key "[OPrefix]"] nonempty_ge_0 [OF assms]
    by (simp add: WithPrefix_def zero_fields_def toRangeRequest_def in_range_def Let_def)
next
  case False
  then show ?thesis
    using OpGet_eq [of key "[OPrefix]"] getPrefix_range [of "Some key"]
    by (simp add: WithPrefix_def zero_fields_def toRangeRequest_def Let_def)
qed

text \<open>The prefix whose last byte is 0xff rolls over to the byte before it.\<close>

theorem prefix_get_range_witness:
  "\<exists>x r. OpGet [1, 0xff] [WithPrefix] = Ret x \<and> toRangeRequest x [7] = Ret r \<and>
     in_range (slice_bytes (rr_Key r)) (slice_bytes (rr_RangeEnd r)) [1, 0xff, 9] =
       prefix [1, 0xff :: byte] [1, 0xff, 9]"
  by (rule prefix_get_range) simp

text \<open>\<open>Get\<close> with \<open>WithFromKey\<close> asks for exactly the keys greater than or equal to the
  given key, and with the empty key for all of them.\<close>

theorem fromkey_get_range:
  assumes "k \<noteq> []"
  shows "\<exists>x r. OpGet key [WithFromKey] = Ret x \<and> toRangeRequest x table = Ret r \<and>
     in_range (slice_bytes (rr_Key r)) (slice_bytes (rr_RangeEnd r)) k = (key \<le> k)"
  using OpGet_eq [of key "[OFromKey]"] nonempty_ge_0 [OF assms]
  by (cases "key = []")
    (simp_all add: WithFromKey_def zero_fields_def toRangeRequest_def in_range_def Let_def)

theorem fromkey_get_range_witness:
  "\<exists>x r. OpGet [5] [WithFromKey] = Ret x \<and> toRangeRequest x [7] = Ret r \<and>
     in_range (slice_bytes (rr_Key r)) (slice_bytes (rr_RangeEnd r)) [6] = ([5] \<le> [6 :: byte])"
  by (rule fromkey_get_range) simp

text \<open>As the comment on \<open>GetPrefixRangeEnd\<close> says, \<open>Get(foo, WithPrefix())\<close> sends the
  same request as \<open>Get(foo, WithRange(GetPrefixRangeEnd(foo)))\<close>, for every non-empty key.\<close>

theorem prefix_is_range_to_prefix_end:
  assumes "key \<noteq> []"
  shows "\<exists>x y r. OpGet key [WithPrefix] = Ret x \<and>
     OpGet key [WithRange (GetPrefixRangeEnd key)] = Ret y \<and>
     toRangeRequest x table = Ret r \<and> toRangeRequest y table = Ret r"
  using OpGet_eq [of key "[OPrefix]"]
    OpGet_eq [of key "[ORange (GetPrefixRangeEnd key)]"] assms
  by (simp add: WithPrefix_def WithRange_def zero_fields_def toRangeRequest_def
      GetPrefixRangeEnd_def Let_def)

theorem prefix_is_range_to_prefix_end_witness:
  "\<exists>x y r. OpGet [3, 0xff] [WithPrefix] = Ret x \<and>
     OpGet [3, 0xff] [WithRange (GetPrefixRangeEnd [3, 0xff])] = Ret y \<and>
     toRangeRequest x [7] = Ret r \<and> toRangeRequest y [7] = Ret r"
  by (rule prefix_is_range_to_prefix_end) simp

lemma toRequestOp_total_iff:
  "(\<exists>r. toRequestOp x = Ret r) \<longleftrightarrow> op_t (op_f x) \<in> {tRange, tPut, tDeleteRange}"
  by (cases x) (auto split: opType.splits)

text \<open>C39: A transaction is translated to a request exactly when both branches hold only
  gets, puts and deletes; an iteration, a nested transaction or an operation that no
  constructor made panics.\<close>

theorem toTxnRequest_total_iff:
  "(\<exists>r. toTxnRequest x table = Ret r) \<longleftrightarrow>
     list_all (\<lambda>y. op_t (op_f y) \<in> {tRange, tPut, tDeleteRange}) (op_thenOps x @ op_elseOps x)"
proof -
  have total: "(\<exists>rs. go_map toRequestOp xs = Ret rs) \<longleftrightarrow>
      list_all (\<lambda>y. op_t (op_f y) \<in> {tRange, tPut, tDeleteRange}) xs" for xs
    by (simp only: go_map_total_iff toRequestOp_total_iff list_all_iff)
  have "(\<exists>r. toTxnRequest x table = Ret r) \<longleftrightarrow>
      (\<exists>rs. go_map toRequestOp (op_thenOps x) = Ret rs) \<and>
      (\<exists>rs. go_map toRequestOp (op_elseOps x) = Ret rs)"
    by (auto simp: toTxnRequest_def)
  then show ?thesis by (simp only: total list_all_append)
qed

text \<open>The operations that are not transactions, in the branches of a transaction at any depth.\<close>

fun op_leaves :: "Op \<Rightarrow> opType list" where
  "op_leaves (Op f cs ts es) =
     (if op_t f = tTxn then concat (map op_leaves ts) @ concat (map op_leaves es)
      else [op_t f])"

text \<open>An operation is a write exactly when it is not a get, or is a transaction that
  holds something other than a get at any depth of its branches.\<close>

theorem op_isWrite_iff_leaf: "op_isWrite x \<longleftrightarrow> list_ex (\<lambda>t. t \<noteq> tRange) (op_leaves x)"
  by (induction x rule: op_isWrite.induct) (auto simp: list_ex_iff)

end
