(* ===== verification/Client_Cmp.thy ===== *)
theory Client_Cmp
  imports Client_Op
begin

text \<open>
  \<open>op.go\<close>, the comparisons of a transaction. \<open>type Cmp struct { *regattapb.Compare }\<close> holds a
  pointer, so the builder functions, which take and return a \<open>Cmp\<close> by value, write through it
  to the one message both values point to. The model therefore has an explicit store: a cell
  per allocated message, and a \<open>Cmp\<close> is a cell number, or \<open>None\<close> for the nil pointer of the
  zero value. A builder returns its result, which may be a panic, and the store it leaves.
\<close>

record cmp_heap =
  cells :: "nat \<Rightarrow> PbCompare"
  next_cell :: nat

definition zero_Compare :: PbCompare where
  "zero_Compare = \<lparr>pc_Result = 0, pc_Target = 0, pc_Key = None, pc_TargetUnion = None,
     pc_RangeEnd = None, pc_unknownFields = []\<rparr>"

definition cmp_alloc :: "PbCompare \<Rightarrow> cmp_heap \<Rightarrow> cmp_ptr \<times> cmp_heap" where
  "cmp_alloc c h = (Some (next_cell h),
     h\<lparr>cells := (cells h)(next_cell h := c), next_cell := Suc (next_cell h)\<rparr>)"

definition cmp_upd :: "nat \<Rightarrow> (PbCompare \<Rightarrow> PbCompare) \<Rightarrow> cmp_heap \<Rightarrow> cmp_heap" where
  "cmp_upd a u h = h\<lparr>cells := (cells h)(a := u (cells h a))\<rparr>"

text \<open>A value of the empty interface: a string, or something else.\<close>

datatype go_any = AnyString bytes | AnyOther

definition Value :: "bytes \<Rightarrow> cmp_heap \<Rightarrow> cmp_ptr \<times> cmp_heap" where
  "Value key h = cmp_alloc (zero_Compare\<lparr>pc_Key := Some key, pc_Target := Compare_VALUE\<rparr>) h"

definition Compare :: "cmp_ptr \<Rightarrow> string \<Rightarrow> go_any \<Rightarrow> cmp_heap \<Rightarrow> cmp_ptr go \<times> cmp_heap" where
  "Compare cmp result v h =
     (let r = (if result = ''='' then Some Compare_EQUAL
               else if result = ''!='' then Some Compare_NOT_EQUAL
               else if result = ''>'' then Some Compare_GREATER
               else if result = ''<'' then Some Compare_LESS
               else None)
      in case r of None \<Rightarrow> (Panic ''Unknown result op'', h)
         | Some r \<Rightarrow>
        (case cmp of None \<Rightarrow> (Panic nil_deref, h)
         | Some a \<Rightarrow>
          let h = cmp_upd a (\<lambda>c. c\<lparr>pc_Result := r\<rparr>) h in
          if pc_Target (cells h a) = Compare_VALUE then
            (case v of
               AnyString val \<Rightarrow>
                 (Ret cmp, cmp_upd a (\<lambda>c. c\<lparr>pc_TargetUnion := Some (Compare_Value (Some val))\<rparr>) h)
             | AnyOther \<Rightarrow> (Panic ''bad compare value'', h))
          else (Panic ''Unknown compare type'', h)))"

definition cmp_KeyBytes :: "cmp_ptr \<Rightarrow> cmp_heap \<Rightarrow> slice go" where
  "cmp_KeyBytes cmp h = go_bind (go_deref cmp) (\<lambda>a. Ret (pc_Key (cells h a)))"

definition cmp_write ::
  "(PbCompare \<Rightarrow> PbCompare) \<Rightarrow> cmp_ptr \<Rightarrow> cmp_heap \<Rightarrow> cmp_ptr go \<times> cmp_heap" where
  "cmp_write u cmp h =
     (case cmp of None \<Rightarrow> (Panic nil_deref, h) | Some a \<Rightarrow> (Ret cmp, cmp_upd a u h))"

definition cmp_WithKeyBytes :: "slice \<Rightarrow> cmp_ptr \<Rightarrow> cmp_heap \<Rightarrow> cmp_ptr go \<times> cmp_heap" where
  "cmp_WithKeyBytes key = cmp_write (\<lambda>c. c\<lparr>pc_Key := key\<rparr>)"

definition cmp_ValueBytes :: "cmp_ptr \<Rightarrow> cmp_heap \<Rightarrow> slice go" where
  "cmp_ValueBytes cmp h = go_bind (go_deref cmp) (\<lambda>a.
     case pc_TargetUnion (cells h a) of
       Some (Compare_Value v) \<Rightarrow> Ret v | None \<Rightarrow> Ret None)"

definition cmp_WithValueBytes :: "slice \<Rightarrow> cmp_ptr \<Rightarrow> cmp_heap \<Rightarrow> cmp_ptr go \<times> cmp_heap" where
  "cmp_WithValueBytes v cmp h =
     (case cmp of None \<Rightarrow> (Panic nil_deref, h)
      | Some a \<Rightarrow>
       (case pc_TargetUnion (cells h a) of
          None \<Rightarrow> (Panic ''interface conversion: interface is nil, not *regattapb.Compare_Value'', h)
        | Some (Compare_Value _) \<Rightarrow>
            (Ret cmp, cmp_upd a (\<lambda>c. c\<lparr>pc_TargetUnion := Some (Compare_Value v)\<rparr>) h)))"

definition cmp_WithRange :: "bytes \<Rightarrow> cmp_ptr \<Rightarrow> cmp_heap \<Rightarrow> cmp_ptr go \<times> cmp_heap" where
  "cmp_WithRange e = cmp_write (\<lambda>c. c\<lparr>pc_RangeEnd := Some e\<rparr>)"

definition cmp_WithPrefix :: "cmp_ptr \<Rightarrow> cmp_heap \<Rightarrow> cmp_ptr go \<times> cmp_heap" where
  "cmp_WithPrefix = cmp_write (\<lambda>c. c\<lparr>pc_RangeEnd := Some (getPrefix (pc_Key c))\<rparr>)"

section \<open>Facts about the store\<close>

definition cmp_ok :: "cmp_heap \<Rightarrow> cmp_ptr \<Rightarrow> bool" where
  "cmp_ok h p = (case p of None \<Rightarrow> False | Some a \<Rightarrow> a < next_cell h)"

lemma cells_upd [simp]:
  "cells (cmp_upd a u h) b = (if b = a then u (cells h a) else cells h b)"
  by (simp add: cmp_upd_def)

lemma next_cell_upd [simp]: "next_cell (cmp_upd a u h) = next_cell h"
  by (simp add: cmp_upd_def)

lemma cmp_write_Some [simp]: "cmp_write u (Some a) h = (Ret (Some a), cmp_upd a u h)"
  by (simp add: cmp_write_def)

text \<open>The operators \<open>Compare\<close> knows, and what they are sent as.\<close>

definition cmp_op :: "string \<Rightarrow> int32 option" where
  "cmp_op result = map_of [(''='', Compare_EQUAL), (''!='', Compare_NOT_EQUAL),
     (''>'', Compare_GREATER), (''<'', Compare_LESS)] result"

text \<open>Building a list of comparisons the documented way, each from a \<open>Value\<close> of its own.\<close>

fun build_cmps :: "(bytes \<times> string \<times> bytes) list \<Rightarrow> cmp_heap \<Rightarrow> cmp_ptr list go \<times> cmp_heap" where
  "build_cmps [] h = (Ret [], h)"
| "build_cmps ((k, r, v) # specs) h =
     (case Value k h of (p, h1) \<Rightarrow>
      (case Compare p r (AnyString v) h1 of
         (Panic m, h2) \<Rightarrow> (Panic m, h2)
       | (Ret q, h2) \<Rightarrow>
          (case build_cmps specs h2 of
             (Panic m, h3) \<Rightarrow> (Panic m, h3)
           | (Ret qs, h3) \<Rightarrow> (Ret (q # qs), h3))))"

text \<open>The message a comparison of a key by an operator with a value stands for.\<close>

definition cmp_spec :: "bytes \<times> string \<times> bytes \<Rightarrow> PbCompare" where
  "cmp_spec s = (case s of (k, r, v) \<Rightarrow>
     zero_Compare\<lparr>pc_Result := the (cmp_op r), pc_Target := Compare_VALUE, pc_Key := Some k,
       pc_TargetUnion := Some (Compare_Value (Some v))\<rparr>)"

lemma Compare_Value_eq:
  assumes "cmp_op r = Some c"
  shows "case Value k h of (p, h1) \<Rightarrow> Compare p r (AnyString v) h1 =
     (Ret (Some (next_cell h)), h\<lparr>cells := (cells h)(next_cell h := cmp_spec (k, r, v)),
        next_cell := Suc (next_cell h)\<rparr>)"
  using assms
  by (auto simp: Value_def cmp_alloc_def Compare_def cmp_upd_def cmp_spec_def zero_Compare_def
      cmp_op_def Let_def split: if_splits)

lemma build_cmps_cells:
  assumes "list_all (\<lambda>s. cmp_op (fst (snd s)) \<noteq> None) specs"
  shows "\<exists>h'. build_cmps specs h =
       (Ret (map Some [next_cell h ..< next_cell h + length specs]), h') \<and>
     next_cell h' = next_cell h + length specs \<and>
     (\<forall>i < length specs. cells h' (next_cell h + i) = cmp_spec (specs ! i)) \<and>
     (\<forall>a < next_cell h. cells h' a = cells h a)"
  using assms
proof (induction specs arbitrary: h)
  case Nil
  then show ?case by simp
next
  case (Cons s specs)
  obtain k r v where s: "s = (k, r, v)" by (cases s) auto
  let ?h = "h\<lparr>cells := (cells h)(next_cell h := cmp_spec (k, r, v)),
    next_cell := Suc (next_cell h)\<rparr>"
  from Cons.prems obtain c where "cmp_op r = Some c"
    by (cases "cmp_op r") (simp_all add: s)
  note step = Compare_Value_eq [OF this, where k = k and h = h and v = v]
  from Cons.prems obtain h' where h': "build_cmps specs ?h =
      (Ret (map Some [Suc (next_cell h) ..< Suc (next_cell h) + length specs]), h')"
    "next_cell h' = Suc (next_cell h) + length specs"
    "\<forall>i < length specs. cells h' (Suc (next_cell h) + i) = cmp_spec (specs ! i)"
    "\<forall>a < Suc (next_cell h). cells h' a = cells ?h a"
    using Cons.IH [of ?h] by (auto simp del: upt_Suc)
  have "cells h' (next_cell h + i) = cmp_spec ((s # specs) ! i)" if "i < length (s # specs)" for i
    using that h'(3,4) by (cases i) (auto simp: s)
  moreover have "build_cmps (s # specs) h =
      (Ret (map Some [next_cell h ..< next_cell h + length (s # specs)]), h')"
    using step h'(1) by (simp add: s Value_def cmp_alloc_def upt_conv_Cons del: upt_Suc)
  ultimately show ?case using h'(2,4) by auto
qed

section \<open>Properties\<close>

text \<open>C37: Comparisons that are each built from a \<open>Value\<close> of their own are independent: with
  known operators none of them panics, and afterwards every returned comparison still denotes
  its own key, operator and value, and no comparison made earlier has changed.\<close>

theorem build_cmps_independent:
  assumes "list_all (\<lambda>s. cmp_op (fst (snd s)) \<noteq> None) specs"
  shows "\<exists>ps h'. build_cmps specs h = (Ret ps, h') \<and>
     map (map_option (cells h')) ps = map (Some \<circ> cmp_spec) specs \<and>
     (\<forall>a < next_cell h. cells h' a = cells h a)"
proof -
  from build_cmps_cells [OF assms, of h] obtain h' where h':
    "build_cmps specs h = (Ret (map Some [next_cell h ..< next_cell h + length specs]), h')"
    "\<forall>i < length specs. cells h' (next_cell h + i) = cmp_spec (specs ! i)"
    "\<forall>a < next_cell h. cells h' a = cells h a"
    by blast
  have "map (map_option (cells h')) (map Some [next_cell h ..< next_cell h + length specs]) =
      map (Some \<circ> cmp_spec) specs"
    using h'(2) by (intro nth_equalityI) auto
  with h' show ?thesis by blast
qed

theorem build_cmps_independent_witness:
  "\<exists>ps h'. build_cmps [([1], ''='', [2]), ([1], ''>'', [3])]
       \<lparr>cells = (\<lambda>_. zero_Compare), next_cell = 0\<rparr> = (Ret ps, h') \<and>
     map (map_option (cells h')) ps =
       map (Some \<circ> cmp_spec) [([1], ''='', [2]), ([1], ''>'', [3])] \<and>
     (\<forall>a < next_cell \<lparr>cells = (\<lambda>_. zero_Compare), next_cell = 0\<rparr>.
        cells h' a = cells \<lparr>cells = (\<lambda>_. zero_Compare), next_cell = 0\<rparr> a)"
  by (rule build_cmps_independent) (simp add: cmp_op_def)

text \<open>Two comparisons built from the same \<open>Value\<close> are not independent: both results are
  the pointer that was passed in, so the second call overwrites the operator and the value of
  the first, and a transaction given both tests the second comparison twice.\<close>

theorem Compare_same_Value_overwrites:
  assumes "cmp_op r1 = Some c1" and "cmp_op r2 = Some c2"
  shows "\<exists>p h0 h1 h2. Value key h = (p, h0) \<and>
     Compare p r1 (AnyString v1) h0 = (Ret p, h1) \<and>
     Compare p r2 (AnyString v2) h1 = (Ret p, h2) \<and>
     map_option (cells h1) p = Some (cmp_spec (key, r1, v1)) \<and>
     map_option (cells h2) p = Some (cmp_spec (key, r2, v2))"
  using assms
  by (auto simp: Value_def cmp_alloc_def Compare_def cmp_upd_def cmp_spec_def zero_Compare_def
      cmp_op_def Let_def split: if_splits)

theorem Compare_same_Value_overwrites_witness:
  "\<exists>p h0 h1 h2. Value [1] \<lparr>cells = (\<lambda>_. zero_Compare), next_cell = 0\<rparr> = (p, h0) \<and>
     Compare p ''>'' (AnyString [2]) h0 = (Ret p, h1) \<and>
     Compare p ''<'' (AnyString [9]) h1 = (Ret p, h2) \<and>
     map_option (cells h1) p = Some (cmp_spec ([1], ''>'', [2])) \<and>
     map_option (cells h2) p = Some (cmp_spec ([1], ''<'', [9]))"
  by (rule Compare_same_Value_overwrites [where ?c1.0 = Compare_GREATER and ?c2.0 = Compare_LESS])
    (simp_all add: cmp_op_def)

text \<open>A comparison on a prefix ranges over exactly the keys that start with it.\<close>

theorem cmp_WithPrefix_range:
  "\<exists>a h'. (case Value key h of (p, h1) \<Rightarrow> cmp_WithPrefix p h1) = (Ret (Some a), h') \<and>
     in_range (slice_bytes (pc_Key (cells h' a))) (slice_bytes (pc_RangeEnd (cells h' a))) k =
       prefix key k"
  using getPrefix_range [of "Some key" k]
  by (simp add: Value_def cmp_alloc_def cmp_WithPrefix_def)

end
