(* ===== verification/Go_Errors.thy ===== *)
theory Go_Errors
  imports Go_Prelude
begin

text \<open>
  Error values, contexts and the status package, as the client uses them, and \<open>toErr\<close> of
  \<open>client.go\<close>. The functions of \<open>google.golang.org/grpc/status\<close> that read an error are not
  in the repository: they are the fields of a record that the definitions take as argument,
  and what their documentation promises is the hypothesis \<open>status_ok\<close>.
\<close>

section \<open>Errors\<close>

text \<open>The codes the source names; any other code is an \<open>OtherCode\<close>.\<close>

datatype code = OK | Canceled | Unknown | DeadlineExceeded | Unimplemented | Unavailable
  | OtherCode nat

text \<open>
  An error is a status error (code and message), one of the standard library's sentinels
  \<open>context.DeadlineExceeded\<close>, \<open>context.Canceled\<close> and \<open>io.EOF\<close>, a plain text error
  (\<open>errors.New\<close>, \<open>fmt.Errorf\<close> with \<open>%v\<close>), or one that wraps another (\<open>%w\<close>).
\<close>

datatype err = StatusErr code string | CtxDeadlineExceeded | CtxCanceled | IoEOF
  | TextErr string | WrapErr string err

text \<open>\<open>errors.Is(err, target)\<close> for a sentinel target: equality along the chain of wrapped errors.\<close>

fun errors_Is :: "err \<Rightarrow> err \<Rightarrow> bool" where
  "errors_Is (WrapErr m e) target = (WrapErr m e = target \<or> errors_Is e target)"
| "errors_Is e target = (e = target)"

record status_pkg =
  FromError :: "err \<Rightarrow> (code \<times> string) \<times> bool"
  StatusCode :: "err \<Rightarrow> code"
  ErrorText :: "err \<Rightarrow> string"
  Errorf :: "code \<Rightarrow> string \<Rightarrow> err"

text \<open>
  What the package documents: \<open>FromError\<close> of a status error gives its code and message and
  \<open>true\<close>; where it gives \<open>false\<close> the code is \<open>Unknown\<close>; \<open>Code\<close> is the code of the status
  \<open>FromError\<close> gives; \<open>Errorf\<close> makes a status error of the code it is given. (\<open>Errorf\<close> is
  only called with a format and no arguments.)
\<close>

definition status_ok :: "status_pkg \<Rightarrow> bool" where
  "status_ok S \<longleftrightarrow>
     (\<forall>c m. FromError S (StatusErr c m) = ((c, m), True)) \<and>
     (\<forall>e. \<not> snd (FromError S e) \<longrightarrow> fst (fst (FromError S e)) = Unknown) \<and>
     (\<forall>e. StatusCode S e = fst (fst (FromError S e))) \<and>
     (\<forall>c f. \<exists>m. Errorf S c f = StatusErr c m)"

text \<open>A concrete package that keeps those promises, for the witnesses.\<close>

fun doc_FromError :: "err \<Rightarrow> (code \<times> string) \<times> bool" where
  "doc_FromError (StatusErr c m) = ((c, m), True)"
| "doc_FromError (WrapErr m e) = (case doc_FromError e of ((c, _), ok) \<Rightarrow> ((c, m), ok))"
| "doc_FromError CtxDeadlineExceeded = ((Unknown, ''context deadline exceeded''), False)"
| "doc_FromError CtxCanceled = ((Unknown, ''context canceled''), False)"
| "doc_FromError IoEOF = ((Unknown, ''EOF''), False)"
| "doc_FromError (TextErr m) = ((Unknown, m), False)"

definition doc_status :: status_pkg where
  "doc_status = \<lparr>FromError = doc_FromError, StatusCode = (\<lambda>e. fst (fst (doc_FromError e))),
     ErrorText = (\<lambda>e. snd (fst (doc_FromError e))), Errorf = StatusErr\<rparr>"

lemma doc_FromError_Unknown: "\<not> snd (doc_FromError e) \<Longrightarrow> fst (fst (doc_FromError e)) = Unknown"
  by (induction e) (auto split: prod.splits)

lemma doc_status_ok: "status_ok doc_status"
  by (simp add: status_ok_def doc_status_def doc_FromError_Unknown)

section \<open>Contexts\<close>

text \<open>
  A context gives its error as the outside world \<open>'w\<close> stands (\<open>ctx.Err()\<close>: nil until it is
  done), and carries the outgoing metadata (\<open>metadata.FromOutgoingContext\<close>), if any.
\<close>

type_synonym metadata = "string \<rightharpoonup> string list"

record 'w ctx =
  ctx_Err :: "'w \<Rightarrow> err option"
  ctx_md :: "metadata option"

definition MetadataRequireLeaderKey :: string where "MetadataRequireLeaderKey = ''has-leader''"
definition MetadataClientAPIVersionKey :: string where
  "MetadataClientAPIVersionKey = ''client-api-version''"
definition MetadataHasLeader :: string where "MetadataHasLeader = ''true''"
definition Version :: string where "Version = ''unknown''"

definition WithRequireLeader :: "'w ctx \<Rightarrow> 'w ctx" where
  "WithRequireLeader c =
     (case ctx_md c of
        None \<Rightarrow> c\<lparr>ctx_md := Some [MetadataRequireLeaderKey \<mapsto> [MetadataHasLeader]]\<rparr>
      | Some md \<Rightarrow> c\<lparr>ctx_md := Some (md(MetadataRequireLeaderKey \<mapsto> [MetadataHasLeader]))\<rparr>)"

definition withVersion :: "'w ctx \<Rightarrow> 'w ctx" where
  "withVersion c =
     (case ctx_md c of
        None \<Rightarrow> c\<lparr>ctx_md := Some [MetadataClientAPIVersionKey \<mapsto> [Version]]\<rparr>
      | Some md \<Rightarrow> c\<lparr>ctx_md := Some (md(MetadataClientAPIVersionKey \<mapsto> [Version]))\<rparr>)"

lemma ctx_Err_md [frame_simps]:
  "ctx_Err (withVersion c) = ctx_Err c" "ctx_Err (WithRequireLeader c) = ctx_Err c"
  by (simp_all add: withVersion_def WithRequireLeader_def split: option.split)

section \<open>toErr\<close>

definition toErr :: "status_pkg \<Rightarrow> 'w ctx \<Rightarrow> 'w \<Rightarrow> err option \<Rightarrow> err option" where
  "toErr S c w e =
     (case e of None \<Rightarrow> None
      | Some e \<Rightarrow>
         (case FromError S e of
            ((cd, m), ok) \<Rightarrow>
              if ok \<and> (cd = DeadlineExceeded \<or> cd = Canceled) \<and> ctx_Err c w \<noteq> None
              then ctx_Err c w else Some e))"

lemma toErr_None [simp]: "toErr S c w None = None"
  by (simp add: toErr_def)

lemma toErr_eq_None [simp]: "toErr S c w e = None \<longleftrightarrow> e = None"
  by (auto simp: toErr_def split: option.splits prod.splits if_splits)

lemma toErr_Some [simp]: "\<exists>e'. toErr S c w (Some e) = Some e'"
  by (simp flip: not_None_eq)

text \<open>Applying it twice, as \<open>Do\<close> and its callers do, is applying it once.\<close>

lemma toErr_idem [simp]: "toErr S c w (toErr S c w e) = toErr S c w e"
  by (auto simp: toErr_def split: option.splits prod.splits if_splits)

section \<open>Properties\<close>

text \<open>\<open>toErr\<close> replaces a status error by the context's error exactly when its code is a
  deadline or a cancellation and the context itself is done; with a context that is not done
  it passes every error on, it never turns an error into success or success into an error,
  and applying it again, as the callers of \<open>Do\<close> do, changes nothing.\<close>

theorem toErr_spec:
  assumes "status_ok S"
  shows "toErr S c w (Some (StatusErr cd m)) =
      (if (cd = DeadlineExceeded \<or> cd = Canceled) \<and> ctx_Err c w \<noteq> None then ctx_Err c w
       else Some (StatusErr cd m)) \<and>
    (toErr S c w e = None \<longleftrightarrow> e = None) \<and>
    (ctx_Err c w = None \<longrightarrow> toErr S c w e = e) \<and>
    toErr S c w (toErr S c w e) = toErr S c w e"
proof -
  from assms have "FromError S (StatusErr cd m) = ((cd, m), True)" by (simp add: status_ok_def)
  then have "toErr S c w (Some (StatusErr cd m)) =
      (if (cd = DeadlineExceeded \<or> cd = Canceled) \<and> ctx_Err c w \<noteq> None then ctx_Err c w
       else Some (StatusErr cd m))"
    by (simp add: toErr_def)
  moreover have "ctx_Err c w = None \<longrightarrow> toErr S c w e = e"
    by (auto simp: toErr_def split: option.splits prod.splits)
  ultimately show ?thesis by simp
qed

theorem toErr_spec_witness:
  "toErr doc_status \<lparr>ctx_Err = (\<lambda>_. Some CtxCanceled), ctx_md = None\<rparr> ()
     (Some (StatusErr Canceled ''c'')) = Some CtxCanceled"
  using toErr_spec [OF doc_status_ok, of "\<lparr>ctx_Err = (\<lambda>_. Some CtxCanceled), ctx_md = None\<rparr>" "()"
      Canceled "''c''" None] by simp

text \<open>Both metadata helpers set only their own key, keep every other entry, and can be
  applied in either order.\<close>

theorem metadata_helpers:
  "ctx_md (withVersion c) = Some ((case ctx_md c of None \<Rightarrow> Map.empty | Some md \<Rightarrow> md)
       (''client-api-version'' \<mapsto> [''unknown''])) \<and>
   ctx_md (WithRequireLeader c) = Some ((case ctx_md c of None \<Rightarrow> Map.empty | Some md \<Rightarrow> md)
       (''has-leader'' \<mapsto> [''true''])) \<and>
   withVersion (WithRequireLeader c) = WithRequireLeader (withVersion c)"
  by (auto simp: withVersion_def WithRequireLeader_def MetadataRequireLeaderKey_def
      MetadataClientAPIVersionKey_def MetadataHasLeader_def Version_def fun_upd_twist
      split: option.splits)

end
