(* ===== verification/Client_KV.thy ===== *)
theory Client_KV
  imports Client_Op Go_Errors
begin

text \<open>
  \<open>kv.go\<close>: the responses, the conversions between them and the protobuf messages, the call
  options of the retry interceptor, the retrying wrapper of the generated client, \<open>kv.Do\<close> and
  the methods built on it, hooks, and the table view. The outside world (network, clock,
  server) is a type variable \<open>'w\<close> that every call threads; the generated client is a record
  of its five methods.
\<close>

section \<open>Responses\<close>

record GetResponse =
  gr_Header :: "ResponseHeader option"
  gr_Kvs :: "KeyValue option list"
  gr_More :: bool
  gr_Count :: int64

record DeleteResponse =
  de_Header :: "ResponseHeader option"
  de_Deleted :: int64
  de_PrevKvs :: "KeyValue option list"

record PutResponse =
  pu_Header :: "ResponseHeader option"
  pu_PrevKv :: "KeyValue option"

record ResponseOp =
  xo_get :: "GetResponse option"
  xo_put :: "PutResponse option"
  xo_delete :: "DeleteResponse option"

definition ResponseOp_get :: "ResponseOp \<Rightarrow> GetResponse option" where
  "ResponseOp_get x = xo_get x"

definition ResponseOp_put :: "ResponseOp \<Rightarrow> PutResponse option" where
  "ResponseOp_put x = xo_put x"

definition ResponseOp_delete :: "ResponseOp \<Rightarrow> DeleteResponse option" where
  "ResponseOp_delete x = xo_delete x"

record TxnResponse =
  tx_Header :: "ResponseHeader option"
  tx_Succeeded :: bool
  tx_Responses :: "ResponseOp option list"

text \<open>The argument of \<open>NewResponseOp\<close>, of type \<open>any\<close>, by the cases it tells apart.\<close>

datatype resp_any = AnyGet GetResponse | AnyPut PutResponse | AnyDelete DeleteResponse | AnyElse

fun NewResponseOp :: "resp_any \<Rightarrow> ResponseOp go" where
  "NewResponseOp (AnyGet r) = Ret \<lparr>xo_get = Some r, xo_put = None, xo_delete = None\<rparr>"
| "NewResponseOp (AnyPut r) = Ret \<lparr>xo_get = None, xo_put = Some r, xo_delete = None\<rparr>"
| "NewResponseOp (AnyDelete r) = Ret \<lparr>xo_get = None, xo_put = None, xo_delete = Some r\<rparr>"
| "NewResponseOp AnyElse = Panic ''unknown response op type''"

definition xo_IsGet :: "ResponseOp \<Rightarrow> bool" where "xo_IsGet x = (xo_get x \<noteq> None)"
definition xo_IsPut :: "ResponseOp \<Rightarrow> bool" where "xo_IsPut x = (xo_put x \<noteq> None)"
definition xo_IsDelete :: "ResponseOp \<Rightarrow> bool" where "xo_IsDelete x = (xo_delete x \<noteq> None)"

text \<open>
  An \<open>IteratorResponse\<close> is a function that calls its argument \<open>yield\<close> with one result after
  the other as long as \<open>yield\<close> returns true. It is represented by what it does up to its next
  call of \<open>yield\<close>: the world afterwards, and the arguments of the call, or that it is done or
  panics.
\<close>

datatype iter_event = IterDone | IterYield "GetResponse option" "err option" | IterPanic string

type_synonym 'w IteratorResponse = "'w \<Rightarrow> iter_event \<times> 'w"

partial_function (option) iter_run ::
  "'w IteratorResponse \<Rightarrow> (GetResponse option \<Rightarrow> err option \<Rightarrow> 'w \<Rightarrow> bool go \<times> 'w) \<Rightarrow> 'w \<Rightarrow>
     (unit go \<times> 'w) option"
where
  "iter_run it yield w =
     (case it w of (ev, w1) \<Rightarrow>
        (case ev of
           IterDone \<Rightarrow> Some (Ret (), w1)
         | IterPanic m \<Rightarrow> Some (Panic m, w1)
         | IterYield r e \<Rightarrow>
             (case yield r e w1 of
                (Panic m, w2) \<Rightarrow> Some (Panic m, w2)
              | (Ret continue, w2) \<Rightarrow>
                  if continue then iter_run it yield w2 else Some (Ret (), w2))))"

record 'w OpResponse =
  o_put :: "PutResponse option"
  o_get :: "GetResponse option"
  o_del :: "DeleteResponse option"
  o_txn :: "TxnResponse option"
  o_iter :: "'w IteratorResponse option"

definition no_OpResponse :: "'w OpResponse" where
  "no_OpResponse = \<lparr>o_put = None, o_get = None, o_del = None, o_txn = None, o_iter = None\<rparr>"

definition PutResponse_OpResponse :: "PutResponse \<Rightarrow> 'w OpResponse" where
  "PutResponse_OpResponse r = no_OpResponse\<lparr>o_put := Some r\<rparr>"
definition GetResponse_OpResponse :: "GetResponse \<Rightarrow> 'w OpResponse" where
  "GetResponse_OpResponse r = no_OpResponse\<lparr>o_get := Some r\<rparr>"
definition DeleteResponse_OpResponse :: "DeleteResponse \<Rightarrow> 'w OpResponse" where
  "DeleteResponse_OpResponse r = no_OpResponse\<lparr>o_del := Some r\<rparr>"
definition TxnResponse_OpResponse :: "TxnResponse \<Rightarrow> 'w OpResponse" where
  "TxnResponse_OpResponse r = no_OpResponse\<lparr>o_txn := Some r\<rparr>"
definition IteratorResponse_OpResponse :: "'w IteratorResponse \<Rightarrow> 'w OpResponse" where
  "IteratorResponse_OpResponse r = no_OpResponse\<lparr>o_iter := Some r\<rparr>"

section \<open>Conversions\<close>

text \<open>The loop appends to \<open>out\<close>; the conversion of the pointers changes only their type.\<close>

fun convKeyValues_loop :: "KeyValue option list \<Rightarrow> KeyValue option list \<Rightarrow> KeyValue option list" where
  "convKeyValues_loop [] out = out"
| "convKeyValues_loop (t # ts) out = convKeyValues_loop ts (out @ [t])"

definition convKeyValues :: "KeyValue option list \<Rightarrow> KeyValue option list" where
  "convKeyValues kvs = convKeyValues_loop kvs []"

text \<open>
  An operation response with no response set, or one of a kind the client does not know, is
  skipped. \<open>NewResponseOp\<close> is called with its three known types only.
\<close>

fun convResponseOps_loop :: "PbResponseOp list \<Rightarrow> ResponseOp option list \<Rightarrow> ResponseOp option list go" where
  "convResponseOps_loop [] out = Ret out"
| "convResponseOps_loop (t # ts) out =
     (case so_Response t of
        Some (ResponseOp_ResponseRange r) \<Rightarrow>
          go_bind (NewResponseOp (AnyGet \<lparr>gr_Header = None, gr_Kvs = convKeyValues (sr_Kvs r),
              gr_More = sr_More r, gr_Count = sr_Count r\<rparr>))
            (\<lambda>x. convResponseOps_loop ts (out @ [Some x]))
      | Some (ResponseOp_ResponsePut r) \<Rightarrow>
          go_bind (NewResponseOp (AnyPut \<lparr>pu_Header = None, pu_PrevKv = sp_PrevKv r\<rparr>))
            (\<lambda>x. convResponseOps_loop ts (out @ [Some x]))
      | Some (ResponseOp_ResponseDeleteRange r) \<Rightarrow>
          go_bind (NewResponseOp (AnyDelete \<lparr>de_Header = None, de_Deleted = sd_Deleted r,
              de_PrevKvs = convKeyValues (sd_PrevKvs r)\<rparr>))
            (\<lambda>x. convResponseOps_loop ts (out @ [Some x]))
      | None \<Rightarrow> convResponseOps_loop ts out)"

definition convResponseOps :: "PbResponseOp list \<Rightarrow> ResponseOp option list go" where
  "convResponseOps ts = convResponseOps_loop ts []"

section \<open>Retry options and call options\<close>

text \<open>
  \<open>type retryPolicy uint8\<close>. Durations are nanoseconds. A backoff function maps the attempt to
  a duration and may change the world, since it draws a random number.
\<close>

type_synonym retryPolicy = "8 word"
abbreviation (input) repeatable :: retryPolicy where "repeatable \<equiv> 0"
abbreviation (input) nonRepeatable :: retryPolicy where "nonRepeatable \<equiv> 1"

definition retryPolicy_String :: "retryPolicy \<Rightarrow> string" where
  "retryPolicy_String rp =
     (if rp = repeatable then ''repeatable''
      else if rp = nonRepeatable then ''nonRepeatable'' else ''UNKNOWN'')"

type_synonym duration = int
type_synonym 'w backoffFunc = "uint64 \<Rightarrow> 'w \<Rightarrow> duration \<times> 'w"

record 'w options =
  opt_retryPolicy :: retryPolicy
  opt_max :: uint64
  opt_backoffFunc :: "'w backoffFunc"
  opt_retryAuth :: bool

text \<open>A \<open>grpc.CallOption\<close>: one of the client's own retry options, or one of grpc's, by name.\<close>

type_synonym 'w retryOption = "'w options \<Rightarrow> 'w options"

datatype 'w CallOption = RetryCallOption "'w retryOption" | GrpcCallOption string

definition withRepeatable :: "'w retryOption" where
  "withRepeatable opts = opts\<lparr>opt_retryPolicy := repeatable\<rparr>"

definition withMax :: "uint64 \<Rightarrow> 'w retryOption" where
  "withMax maxRetries opts = opts\<lparr>opt_max := maxRetries\<rparr>"

definition withBackoff :: "'w backoffFunc \<Rightarrow> 'w retryOption" where
  "withBackoff bf opts = opts\<lparr>opt_backoffFunc := bf\<rparr>"

text \<open>
  \<open>jitterUp\<close> multiplies by a random float64: floating point is not modelled, and the function is
  the parameter \<open>jitter\<close>, of the duration and the jitter fraction (a decimal literal: mantissa
  and number of digits after the point).
\<close>

type_synonym decimal = "int \<times> nat"
type_synonym 'w jitterFunc = "duration \<Rightarrow> decimal \<Rightarrow> 'w \<Rightarrow> duration \<times> 'w"

definition backoffLinearWithJitter :: "'w jitterFunc \<Rightarrow> duration \<Rightarrow> decimal \<Rightarrow> 'w backoffFunc" where
  "backoffLinearWithJitter jitter waitBetween jitterFraction =
     (\<lambda>attempt. jitter waitBetween jitterFraction)"

definition defaultOptions :: "'w jitterFunc \<Rightarrow> 'w options" where
  "defaultOptions jitter = \<lparr>opt_retryPolicy = nonRepeatable, opt_max = 0,
     opt_backoffFunc = backoffLinearWithJitter jitter 50000000 (10, 2), opt_retryAuth = True\<rparr>"

text \<open>\<open>options.go\<close>: the retry limits and the backoff used when dialling.\<close>

definition defaultUnaryMaxRetries :: uint64 where "defaultUnaryMaxRetries = 10"
definition iterateRangeRetries :: uint64 where "iterateRangeRetries = 5"
definition defaultBackoffWaitBetween :: duration where "defaultBackoffWaitBetween = 25000000"
definition defaultBackoffJitterFraction :: decimal where "defaultBackoffJitterFraction = (10, 2)"

definition defaultCallOpts :: "'w CallOption list" where
  "defaultCallOpts = [GrpcCallOption ''UseCompressor(snappy)'', GrpcCallOption ''WaitForReady(true)'',
     GrpcCallOption ''MaxCallSendMsgSize(2097152)'', GrpcCallOption ''MaxCallRecvMsgSize(2147483647)'']"

section \<open>The generated client and its retrying wrapper\<close>

text \<open>
  The interface \<open>regattapb.KVClient\<close>; a call returns an error or a message, or it panics (in an
  interceptor).
\<close>

type_synonym 'w Recv = "'w \<Rightarrow> (err + RangeResponse) go \<times> 'w"

type_synonym ('w, 'req, 'resp) rpc =
  "'w ctx \<Rightarrow> 'req \<Rightarrow> 'w CallOption list \<Rightarrow> 'w \<Rightarrow> (err + 'resp) go \<times> 'w"

record 'w KVClient =
  c_Range :: "('w, RangeRequest, RangeResponse) rpc"
  c_IterateRange :: "('w, RangeRequest, 'w Recv) rpc"
  c_Put :: "('w, PutRequest, PbPutResponse) rpc"
  c_DeleteRange :: "('w, DeleteRangeRequest, DeleteRangeResponse) rpc"
  c_Txn :: "('w, TxnRequest, PbTxnResponse) rpc"

definition retryKV_Range :: "'w KVClient \<Rightarrow> ('w, RangeRequest, RangeResponse) rpc" where
  "retryKV_Range client c r opts = c_Range client c r (opts @ [RetryCallOption withRepeatable])"

definition retryKV_IterateRange :: "'w KVClient \<Rightarrow> ('w, RangeRequest, 'w Recv) rpc" where
  "retryKV_IterateRange client c r opts = c_IterateRange client c r
     (opts @ [RetryCallOption withRepeatable, RetryCallOption (withMax iterateRangeRetries)])"

definition retryKV_Put :: "'w KVClient \<Rightarrow> ('w, PutRequest, PbPutResponse) rpc" where
  "retryKV_Put client c r opts = c_Put client c r opts"

definition retryKV_DeleteRange ::
  "'w KVClient \<Rightarrow> ('w, DeleteRangeRequest, DeleteRangeResponse) rpc" where
  "retryKV_DeleteRange client c r opts = c_DeleteRange client c r opts"

definition retryKV_Txn :: "'w KVClient \<Rightarrow> ('w, TxnRequest, PbTxnResponse) rpc" where
  "retryKV_Txn client c r opts = c_Txn client c r opts"

definition retryKVClient :: "'w KVClient \<Rightarrow> 'w KVClient" where
  "retryKVClient client = \<lparr>c_Range = retryKV_Range client,
     c_IterateRange = retryKV_IterateRange client, c_Put = retryKV_Put client,
     c_DeleteRange = retryKV_DeleteRange client, c_Txn = retryKV_Txn client\<rparr>"

section \<open>kv.Do\<close>

text \<open>\<open>status\<close> is the status package that \<open>toErr\<close> uses.\<close>

record 'w kv =
  kv_remote :: "'w KVClient"
  kv_callOpts :: "'w CallOption list"
  kv_status :: status_pkg

text \<open>The type \<open>KvDo\<close> of \<open>hooks.go\<close>, with the panics and the world made explicit.\<close>

type_synonym 'w KvDo =
  "'w ctx \<Rightarrow> bytes \<Rightarrow> Op \<Rightarrow> 'w \<Rightarrow> ('w OpResponse \<times> err option) go \<times> 'w"

definition conv_RangeResponse :: "RangeResponse \<Rightarrow> GetResponse" where
  "conv_RangeResponse r = \<lparr>gr_Header = rs_Header r, gr_Kvs = convKeyValues (rs_Kvs r),
     gr_More = rs_More r, gr_Count = rs_Count r\<rparr>"

text \<open>The closure \<open>Do\<close> returns for an iteration, up to its next call of \<open>yield\<close>.\<close>

definition recv_step :: "'w Recv \<Rightarrow> 'w IteratorResponse" where
  "recv_step recv w =
     (case recv w of
        (Panic m, w1) \<Rightarrow> (IterPanic m, w1)
      | (Ret (Inl e), w1) \<Rightarrow>
          if errors_Is e IoEOF then (IterDone, w1) else (IterYield None (Some e), w1)
      | (Ret (Inr r), w1) \<Rightarrow> (IterYield (Some (conv_RangeResponse r)) None, w1))"

text \<open>
  What \<open>Do\<close> does with a remote call: on success the response built from the message, on an
  error the empty response and the error through \<open>toErr\<close>.
\<close>

definition do_call ::
  "'w kv \<Rightarrow> 'w ctx \<Rightarrow> (err + 'resp) go \<times> 'w \<Rightarrow> ('resp \<Rightarrow> 'w OpResponse go) \<Rightarrow>
     ('w OpResponse \<times> err option) go \<times> 'w" where
  "do_call k c res conv =
     (case res of
        (Panic m, w1) \<Rightarrow> (Panic m, w1)
      | (Ret (Inr resp), w1) \<Rightarrow> (go_bind (conv resp) (\<lambda>r. Ret (r, None)), w1)
      | (Ret (Inl e), w1) \<Rightarrow> (Ret (no_OpResponse, toErr (kv_status k) c w1 (Some e)), w1))"

definition kv_Do :: "'w kv \<Rightarrow> 'w KvDo" where
  "kv_Do k c table x w =
     (let f = op_f x; opts = kv_callOpts k in
      case op_t f of
        tRange \<Rightarrow>
          (case toRangeRequest x table of Panic m \<Rightarrow> (Panic m, w)
           | Ret r \<Rightarrow> do_call k c (c_Range (kv_remote k) c r opts w)
               (\<lambda>resp. Ret (no_OpResponse\<lparr>o_get := Some (conv_RangeResponse resp)\<rparr>)))
      | tIterateRange \<Rightarrow>
          (case toRangeRequest x table of Panic m \<Rightarrow> (Panic m, w)
           | Ret r \<Rightarrow> do_call k c (c_IterateRange (kv_remote k) c r opts w)
               (\<lambda>recv. Ret (no_OpResponse\<lparr>o_iter := Some (recv_step recv)\<rparr>)))
      | tPut \<Rightarrow>
          do_call k c (c_Put (kv_remote k) c \<lparr>pr_Table = Some table, pr_Key = op_key f,
              pr_Value = op_val f, pr_PrevKv = op_prevKV f, pr_unknownFields = []\<rparr> opts w)
            (\<lambda>resp. Ret (no_OpResponse\<lparr>o_put := Some \<lparr>pu_Header = ps_Header resp,
              pu_PrevKv = ps_PrevKv resp\<rparr>\<rparr>))
      | tDeleteRange \<Rightarrow>
          do_call k c (c_DeleteRange (kv_remote k) c \<lparr>dr_Table = Some table, dr_Key = op_key f,
              dr_RangeEnd = op_end f, dr_PrevKv = op_prevKV f, dr_Count = op_count f,
              dr_unknownFields = []\<rparr> opts w)
            (\<lambda>resp. Ret (no_OpResponse\<lparr>o_del := Some \<lparr>de_Header = ds_Header resp,
              de_Deleted = ds_Deleted resp, de_PrevKvs = convKeyValues (ds_PrevKvs resp)\<rparr>\<rparr>))
      | tTxn \<Rightarrow>
          (case toTxnRequest x table of Panic m \<Rightarrow> (Panic m, w)
           | Ret r \<Rightarrow> do_call k c (c_Txn (kv_remote k) c r opts w)
               (\<lambda>resp. go_bind (convResponseOps (ts_Responses resp)) (\<lambda>rs.
                  Ret (no_OpResponse\<lparr>o_txn := Some \<lparr>tx_Header = ts_Header resp,
                    tx_Succeeded = ts_Succeeded resp, tx_Responses = rs\<rparr>\<rparr>))))
      | tInvalid \<Rightarrow> (Panic ''Unknown op'', w))"

section \<open>The methods built on Do\<close>

text \<open>
  \<open>r, err := Do(...); return r.<field>, toErr(ctx, err)\<close>, after the operation has been built
  (which may panic): the body shared by the methods of \<open>kv\<close>, \<open>hookedKV\<close> and \<open>table\<close>.
\<close>

definition do_op ::
  "status_pkg \<Rightarrow> ('w OpResponse \<Rightarrow> 'a option) \<Rightarrow> 'w KvDo \<Rightarrow> 'w ctx \<Rightarrow> bytes \<Rightarrow> Op go \<Rightarrow> 'w \<Rightarrow>
     ('a option \<times> err option) go \<times> 'w" where
  "do_op S sel Do c table x w =
     (case x of Panic m \<Rightarrow> (Panic m, w)
      | Ret x \<Rightarrow>
         (case Do c table x w of
            (Panic m, w1) \<Rightarrow> (Panic m, w1)
          | (Ret (r, e), w1) \<Rightarrow> (Ret (sel r, toErr S c w1 e), w1)))"

definition kv_Put where
  "kv_Put k c table key val opts =
     do_op (kv_status k) o_put (kv_Do k) c table (OpPut key val opts)"

definition kv_Get where
  "kv_Get k c table key opts = do_op (kv_status k) o_get (kv_Do k) c table (OpGet key opts)"

definition kv_Iterate where
  "kv_Iterate k c table key opts =
     do_op (kv_status k) o_iter (kv_Do k) c table (OpIterate key opts)"

definition kv_Delete where
  "kv_Delete k c table key opts =
     do_op (kv_status k) o_del (kv_Do k) c table (OpDelete key opts)"

subsection \<open>Hooks around Do\<close>

text \<open>The method \<open>OnKVCall\<close> of a \<open>HookKVOpDo\<close>.\<close>

type_synonym 'w HookKVOpDo = "'w ctx \<Rightarrow> bytes \<Rightarrow> Op \<Rightarrow> 'w KvDo \<Rightarrow> 'w \<Rightarrow>
  ('w OpResponse \<times> err option) go \<times> 'w"

definition hookedKV_Do :: "'w KvDo \<Rightarrow> 'w HookKVOpDo \<Rightarrow> 'w KvDo" where
  "hookedKV_Do inner hook c table x w = hook c table x inner w"

definition hookedKV_Put where
  "hookedKV_Put S inner hook c table key val opts =
     do_op S o_put (hookedKV_Do inner hook) c table (OpPut key val opts)"

definition hookedKV_Get where
  "hookedKV_Get S inner hook c table key opts =
     do_op S o_get (hookedKV_Do inner hook) c table (OpGet key opts)"

definition hookedKV_Iterate where
  "hookedKV_Iterate S inner hook c table key opts =
     do_op S o_iter (hookedKV_Do inner hook) c table (OpIterate key opts)"

definition hookedKV_Delete where
  "hookedKV_Delete S inner hook c table key opts =
     do_op S o_del (hookedKV_Do inner hook) c table (OpDelete key opts)"

text \<open>\<open>newKV\<close>: each hook wraps what the hooks before it have built.\<close>

fun newKV_loop :: "'w HookKVOpDo list \<Rightarrow> 'w KvDo \<Rightarrow> 'w KvDo" where
  "newKV_loop [] k = k"
| "newKV_loop (h # hs) k = newKV_loop hs (hookedKV_Do k h)"

definition newKV :: "'w KVClient \<Rightarrow> 'w CallOption list \<Rightarrow> status_pkg \<Rightarrow> 'w HookKVOpDo list \<Rightarrow> 'w KvDo" where
  "newKV client callOpts S hooks =
     newKV_loop hooks (kv_Do \<lparr>kv_remote = retryKVClient client, kv_callOpts = callOpts,
       kv_status = S\<rparr>)"

subsection \<open>The view of one table\<close>

record 'w table =
  tbl_kv :: "'w KvDo"
  tbl_table :: bytes

definition kv_Table :: "'w KvDo \<Rightarrow> bytes \<Rightarrow> 'w table" where
  "kv_Table k name = \<lparr>tbl_kv = k, tbl_table = name\<rparr>"

definition hookedKV_Table :: "'w KvDo \<Rightarrow> 'w HookKVOpDo \<Rightarrow> bytes \<Rightarrow> 'w table" where
  "hookedKV_Table inner hook name = \<lparr>tbl_kv = hookedKV_Do inner hook, tbl_table = name\<rparr>"

definition table_Put where
  "table_Put S t c key val opts =
     do_op S o_put (tbl_kv t) c (tbl_table t) (OpPut key val opts)"

definition table_Get where
  "table_Get S t c key opts = do_op S o_get (tbl_kv t) c (tbl_table t) (OpGet key opts)"

definition table_Iterate where
  "table_Iterate S t c key opts =
     do_op S o_iter (tbl_kv t) c (tbl_table t) (OpIterate key opts)"

definition table_Delete where
  "table_Delete S t c key opts =
     do_op S o_del (tbl_kv t) c (tbl_table t) (OpDelete key opts)"

section \<open>Facts about the conversions\<close>

lemma convKeyValues_loop_eq: "convKeyValues_loop kvs out = out @ kvs"
  by (induction kvs arbitrary: out) auto

lemma convKeyValues_id [simp]: "convKeyValues kvs = kvs"
  by (simp add: convKeyValues_def convKeyValues_loop_eq)

fun resp_of :: "ResponseOp_Response \<Rightarrow> ResponseOp" where
  "resp_of (ResponseOp_ResponseRange r) = \<lparr>xo_get = Some \<lparr>gr_Header = None, gr_Kvs = sr_Kvs r,
     gr_More = sr_More r, gr_Count = sr_Count r\<rparr>, xo_put = None, xo_delete = None\<rparr>"
| "resp_of (ResponseOp_ResponsePut r) = \<lparr>xo_get = None,
     xo_put = Some \<lparr>pu_Header = None, pu_PrevKv = sp_PrevKv r\<rparr>, xo_delete = None\<rparr>"
| "resp_of (ResponseOp_ResponseDeleteRange r) = \<lparr>xo_get = None, xo_put = None,
     xo_delete = Some \<lparr>de_Header = None, de_Deleted = sd_Deleted r, de_PrevKvs = sd_PrevKvs r\<rparr>\<rparr>"

lemma convResponseOps_loop_eq:
  "convResponseOps_loop ts out =
     Ret (out @ map (Some \<circ> resp_of) (List.map_filter so_Response ts))"
proof (induction ts arbitrary: out)
  case (Cons t ts)
  show ?case
  proof (cases "so_Response t")
    case (Some r)
    with Cons show ?thesis by (cases r) (simp_all add: map_filter_simps)
  qed (simp add: Cons map_filter_simps)
qed (simp add: map_filter_simps)

lemma convResponseOps_eq:
  "convResponseOps ts = Ret (map (Some \<circ> resp_of) (List.map_filter so_Response ts))"
  by (simp add: convResponseOps_def convResponseOps_loop_eq)

section \<open>The interface KV and its hooks\<close>

text \<open>The one field of a response that belongs to an operation of a type.\<close>

fun resp_matches :: "opType \<Rightarrow> 'w OpResponse \<Rightarrow> bool" where
  "resp_matches tRange r = (o_get r \<noteq> None)"
| "resp_matches tIterateRange r = (o_iter r \<noteq> None)"
| "resp_matches tPut r = (o_put r \<noteq> None)"
| "resp_matches tDeleteRange r = (o_del r \<noteq> None)"
| "resp_matches tTxn r = (o_txn r \<noteq> None)"
| "resp_matches tInvalid r = False"

text \<open>
  What every user of a \<open>KV\<close> relies on: when \<open>Do\<close> reports no error, the field of the response
  that belongs to the operation is set. \<open>table\<close>, \<open>txn\<close> and the hooked client are its users,
  \<open>kv.Do\<close> and every chain of well-behaved hooks around it provide it.
\<close>

locale kv_iface =
  fixes Do :: "'w KvDo"
  assumes Do_shape: "Do c table x w = (Ret (r, None), w1) \<Longrightarrow> resp_matches (op_t (op_f x)) r"
begin

lemma do_op_shape:
  assumes "do_op S sel Do c table xo w = (Ret (res, e), w1)" and "xo = Ret x"
    and "\<And>r. resp_matches (op_t (op_f x)) r \<Longrightarrow> sel r \<noteq> None"
  shows "e = None \<Longrightarrow> res \<noteq> None"
  using assms Do_shape [of c table x w]
  by (auto simp: do_op_def split: go.splits prod.splits)

lemma put_shape:
  "do_op S o_put Do c table (OpPut key val (opts_of os)) w = (Ret (res, None), w1) \<Longrightarrow> res \<noteq> None"
  by (cases "OpPut key val (opts_of os)")
    (auto simp: do_op_def OpPut_eq put_fields_def zero_fields_def
      split: go.splits prod.splits if_splits dest!: Do_shape)

lemma get_shape:
  "do_op S o_get Do c table (OpGet key (opts_of os)) w = (Ret (res, None), w1) \<Longrightarrow> res \<noteq> None"
  by (cases "OpGet key (opts_of os)")
    (auto simp: do_op_def OpGet_eq frame_simps zero_fields_def
      split: go.splits prod.splits if_splits dest!: Do_shape)

lemma delete_shape:
  "do_op S o_del Do c table (OpDelete key (opts_of os)) w = (Ret (res, None), w1) \<Longrightarrow> res \<noteq> None"
  by (cases "OpDelete key (opts_of os)")
    (auto simp: do_op_def OpDelete_eq frame_simps zero_fields_def
      split: go.splits prod.splits if_splits dest!: Do_shape)

end

text \<open>
  What a hook must do to be transparent for the shape of a response: pass on the result of some
  call of the \<open>Do\<close> it was given, for the same table and operation.
\<close>

locale kv_hook =
  fixes hook :: "'w HookKVOpDo"
  assumes hook_passes: "\<exists>c' w'. fst (hook c table x Do w) = fst (Do c' table x w')"
begin

lemma hooked_iface: "kv_iface Do \<Longrightarrow> kv_iface (hookedKV_Do Do hook)"
proof
  fix c table x w r w1
  assume "kv_iface Do" and eq: "hookedKV_Do Do hook c table x w = (Ret (r, None), w1)"
  from hook_passes obtain c' w' where "fst (hook c table x Do w) = fst (Do c' table x w')"
    by blast
  with eq have "Do c' table x w' = (Ret (r, None), snd (Do c' table x w'))"
    by (metis fst_conv hookedKV_Do_def prod.collapse)
  with \<open>kv_iface Do\<close> show "resp_matches (op_t (op_f x)) r"
    by (rule kv_iface.Do_shape)
qed

end

lemma do_call_Ret:
  "do_call k c res conv = (Ret (r, None), w1) \<Longrightarrow> \<exists>resp. conv resp = Ret r"
  by (auto simp: do_call_def split: prod.splits sum.splits go.splits)

interpretation base_kv: kv_iface "kv_Do k" for k
proof
  fix c table x w r w1
  assume "kv_Do k c table x w = (Ret (r, None), w1)"
  then show "resp_matches (op_t (op_f x)) r"
    by (cases "op_t (op_f x)")
      (auto simp: kv_Do_def Let_def no_OpResponse_def split: go.splits dest!: do_call_Ret)
qed

lemma newKV_loop_iface: "kv_iface k \<Longrightarrow> \<forall>h \<in> set hooks. kv_hook h \<Longrightarrow> kv_iface (newKV_loop hooks k)"
  by (induction hooks arbitrary: k) (auto intro: kv_hook.hooked_iface)

lemma newKV_iface: "\<forall>h \<in> set hooks. kv_hook h \<Longrightarrow> kv_iface (newKV client callOpts S hooks)"
  unfolding newKV_def by (rule newKV_loop_iface) (rule base_kv.kv_iface_axioms)

subsection \<open>Iterations\<close>

text \<open>
  A stream that delivers a finite script and then \<open>io.EOF\<close>, and a consumer with a state of its
  own: the world is the pair of both.
\<close>

fun script_recv :: "((err + RangeResponse) list \<times> 'a) Recv" where
  "script_recv ([], a) = (Ret (Inl IoEOF), ([], a))"
| "script_recv (x # xs, a) = (Ret x, (xs, a))"

definition lift_yield ::
  "(GetResponse option \<Rightarrow> err option \<Rightarrow> 'a \<Rightarrow> bool \<times> 'a) \<Rightarrow>
     GetResponse option \<Rightarrow> err option \<Rightarrow> 'b \<times> 'a \<Rightarrow> bool go \<times> 'b \<times> 'a" where
  "lift_yield f r e w = (case f r e (snd w) of (b, a) \<Rightarrow> (Ret b, (fst w, a)))"

text \<open>What the consumer should have seen: every entry up to the first EOF or its own stop.\<close>

fun consume ::
  "(GetResponse option \<Rightarrow> err option \<Rightarrow> 'a \<Rightarrow> bool \<times> 'a) \<Rightarrow> (err + RangeResponse) list \<Rightarrow> 'a \<Rightarrow>
     (err + RangeResponse) list \<times> 'a" where
  "consume f [] a = ([], a)"
| "consume f (Inr r # xs) a =
     (case f (Some (conv_RangeResponse r)) None a of
        (True, a') \<Rightarrow> consume f xs a' | (False, a') \<Rightarrow> (xs, a'))"
| "consume f (Inl e # xs) a =
     (if errors_Is e IoEOF then (xs, a)
      else (case f None (Some e) a of
        (True, a') \<Rightarrow> consume f xs a' | (False, a') \<Rightarrow> (xs, a')))"

declare iter_run.simps [code]

lemma iter_run_script:
  "iter_run (recv_step script_recv) (lift_yield f) (xs, a) = Some (Ret (), consume f xs a)"
proof (induction f xs a rule: consume.induct)
  case (1 f a)
  show ?case by (subst iter_run.simps) (simp add: recv_step_def)
next
  case (2 f r xs a)
  show ?case
    by (subst iter_run.simps)
      (auto simp: recv_step_def lift_yield_def "2.IH" split: prod.split bool.split)
next
  case (3 f e xs a)
  show ?case
    by (subst iter_run.simps)
      (auto simp: recv_step_def lift_yield_def "3.IH" split: prod.split bool.split)
qed

text \<open>What a put and a get of a table view without hooks do.\<close>

lemma table_Put_eq:
  "table_Put S (kv_Table (newKV client callOpts S []) name) c key val (opts_of os) w =
     (case OpPut key val (opts_of os) of
        Panic m \<Rightarrow> (Panic m, w)
      | Ret x \<Rightarrow>
          (case c_Put client c \<lparr>pr_Table = Some name, pr_Key = Some key, pr_Value = Some val,
              pr_PrevKv = (OPrevKV \<in> set os), pr_unknownFields = []\<rparr> callOpts w of
             (Panic m, w1) \<Rightarrow> (Panic m, w1)
           | (Ret (Inr r), w1) \<Rightarrow>
               (Ret (Some \<lparr>pu_Header = ps_Header r, pu_PrevKv = ps_PrevKv r\<rparr>, None), w1)
           | (Ret (Inl e), w1) \<Rightarrow> (Ret (None, toErr S c w1 (Some e)), w1)))"
  by (auto simp: table_Put_def kv_Table_def newKV_def do_op_def OpPut_eq put_fields_def
      zero_fields_def kv_Do_def do_call_def retryKVClient_def retryKV_Put_def no_OpResponse_def
      Let_def split: prod.split sum.split go.split)

lemma table_Get_eq:
  "table_Get S (kv_Table (newKV client callOpts S []) name) c key (opts_of os) w =
     (case OpGet key (opts_of os) of
        Panic m \<Rightarrow> (Panic m, w)
      | Ret x \<Rightarrow>
          (case c_Range client c \<lparr>rr_Table = Some name, rr_Key = op_key (op_f x),
              rr_RangeEnd = op_end (op_f x), rr_Limit = last_limit os 0,
              rr_Linearizable = (OSerializable \<notin> set os), rr_KeysOnly = (OKeysOnly \<in> set os),
              rr_CountOnly = (OCountOnly \<in> set os), rr_MinModRevision = 0,
              rr_MaxModRevision = 0, rr_MinCreateRevision = 0, rr_MaxCreateRevision = 0,
              rr_unknownFields = []\<rparr> (callOpts @ [RetryCallOption withRepeatable]) w of
             (Panic m, w1) \<Rightarrow> (Panic m, w1)
           | (Ret (Inr r), w1) \<Rightarrow> (Ret (Some (conv_RangeResponse r), None), w1)
           | (Ret (Inl e), w1) \<Rightarrow> (Ret (None, toErr S c w1 (Some e)), w1)))"
  by (auto simp: table_Get_def kv_Table_def newKV_def do_op_def OpGet_eq applyOpts_simps
      zero_fields_def kv_Do_def do_call_def retryKVClient_def retryKV_Range_def no_OpResponse_def
      toRangeRequest_def Let_def split: prod.split sum.split go.split)

section \<open>Properties\<close>

text \<open>Every chain of well-behaved hooks around the client keeps the promise of \<open>KV\<close> to its
  users: a \<open>Put\<close> through a table view that returns no error returns a response, whatever the
  remote side answers and whatever options are given.\<close>

theorem table_Put_response:
  assumes "\<forall>h \<in> set hooks. kv_hook h"
    and "table_Put S (kv_Table (newKV client callOpts S hooks) name) c key val (opts_of os) w =
      (Ret (res, None), w1)"
  shows "res \<noteq> None"
  using kv_iface.put_shape [OF newKV_iface [OF assms(1)]] assms(2)
  by (simp add: table_Put_def kv_Table_def)

text \<open>A client for the witnesses: every call succeeds with an empty response.\<close>

definition empty_client :: "'w KVClient" where
  "empty_client = \<lparr>
     c_Range = (\<lambda>c r opts w. (Ret (Inr \<lparr>rs_Header = None, rs_Kvs = [], rs_More = False, rs_Count = 0,
       rs_unknownFields = []\<rparr>), w)),
     c_IterateRange = (\<lambda>c r opts w. (Ret (Inr (\<lambda>w. (Ret (Inl IoEOF), w))), w)),
     c_Put = (\<lambda>c r opts w. (Ret (Inr \<lparr>ps_Header = None, ps_PrevKv = None, ps_unknownFields = []\<rparr>), w)),
     c_DeleteRange = (\<lambda>c r opts w. (Ret (Inr \<lparr>ds_Header = None, ds_Deleted = 0, ds_PrevKvs = [],
       ds_unknownFields = []\<rparr>), w)),
     c_Txn = (\<lambda>c r opts w. (Ret (Inr \<lparr>ts_Header = None, ts_Succeeded = True, ts_Responses = [],
       ts_unknownFields = []\<rparr>), w))\<rparr>"

definition fresh_ctx :: "'w ctx" where
  "fresh_ctx = \<lparr>ctx_Err = (\<lambda>_. None), ctx_md = None\<rparr>"

text \<open>A hook that does nothing but call on.\<close>

definition pass_hook :: "'w HookKVOpDo" where
  "pass_hook c table x Do w = Do c table x w"

interpretation pass_hook: kv_hook pass_hook
  by standard (auto simp: pass_hook_def)

theorem table_Put_response_witness:
  "\<exists>res w1. table_Put doc_status (kv_Table (newKV empty_client [] doc_status [pass_hook]) [7])
       fresh_ctx [1] [2] (opts_of [OPrevKV]) () = (Ret (res, None), w1) \<and> res \<noteq> None"
proof -
  obtain res w1 where "table_Put doc_status
      (kv_Table (newKV empty_client [] doc_status [pass_hook]) [7])
      fresh_ctx [1] [2] (opts_of [OPrevKV]) () = (Ret (res, None), w1)"
    by (simp add: table_Put_def kv_Table_def newKV_def do_op_def OpPut_def hookedKV_Do_def
        pass_hook_def kv_Do_def do_call_def retryKVClient_def retryKV_Put_def empty_client_def
        WithPrevKV_def zero_fields_def Let_def)
  then show ?thesis
    using table_Put_response [of "[pass_hook]"] pass_hook.kv_hook_axioms by fastforce
qed

text \<open>\<open>Put\<close> through a table view makes exactly one remote call, with the table's name, the
  key, the value and the \<open>prevKV\<close> flag of the options, and with the client's call options only:
  no retry option is added to a write. It returns the server's answer, or its error through
  \<open>toErr\<close>, and panics without a call when the options are not those of a put.\<close>

theorem table_Put_call:
  "table_Put S (kv_Table (newKV client callOpts S []) name) c key val (opts_of os) w =
     (case OpPut key val (opts_of os) of
        Panic m \<Rightarrow> (Panic m, w)
      | Ret x \<Rightarrow>
          (case c_Put client c \<lparr>pr_Table = Some name, pr_Key = Some key, pr_Value = Some val,
              pr_PrevKv = (OPrevKV \<in> set os), pr_unknownFields = []\<rparr> callOpts w of
             (Panic m, w1) \<Rightarrow> (Panic m, w1)
           | (Ret (Inr r), w1) \<Rightarrow>
               (Ret (Some \<lparr>pu_Header = ps_Header r, pu_PrevKv = ps_PrevKv r\<rparr>, None), w1)
           | (Ret (Inl e), w1) \<Rightarrow> (Ret (None, toErr S c w1 (Some e)), w1)))"
  by (rule table_Put_eq)

text \<open>\<open>Get\<close> makes exactly one remote call, with the key and end the options select, the
  last limit, and linearizable unless \<open>WithSerializable\<close> was given; the call carries the
  client's call options and then the repeatable retry policy. It returns the server's answer,
  or its error through \<open>toErr\<close>, and panics without a call when the options are refused.\<close>

theorem table_Get_call:
  "table_Get S (kv_Table (newKV client callOpts S []) name) c key (opts_of os) w =
     (case OpGet key (opts_of os) of
        Panic m \<Rightarrow> (Panic m, w)
      | Ret x \<Rightarrow>
          (case c_Range client c \<lparr>rr_Table = Some name, rr_Key = op_key (op_f x),
              rr_RangeEnd = op_end (op_f x), rr_Limit = last_limit os 0,
              rr_Linearizable = (OSerializable \<notin> set os), rr_KeysOnly = (OKeysOnly \<in> set os),
              rr_CountOnly = (OCountOnly \<in> set os), rr_MinModRevision = 0,
              rr_MaxModRevision = 0, rr_MinCreateRevision = 0, rr_MaxCreateRevision = 0,
              rr_unknownFields = []\<rparr> (callOpts @ [RetryCallOption withRepeatable]) w of
             (Panic m, w1) \<Rightarrow> (Panic m, w1)
           | (Ret (Inr r), w1) \<Rightarrow> (Ret (Some (conv_RangeResponse r), None), w1)
           | (Ret (Inl e), w1) \<Rightarrow> (Ret (None, toErr S c w1 (Some e)), w1)))"
  by (rule table_Get_eq)

text \<open>A hook that records that it ran, in a world that is the list of the hooks run so far.\<close>

definition tag_hook :: "nat \<Rightarrow> nat list HookKVOpDo" where
  "tag_hook n c table x Do w = Do c table x (w @ [n])"

text \<open>C34: Hooks run from the last registered one, the outermost, to the first, and the remote
  call comes after all of them.\<close>

theorem hooks_run_in_reverse_order:
  "newKV_loop (map tag_hook ns) k c table x w = k c table x (w @ rev ns)"
  by (induction ns arbitrary: k w) (simp_all add: hookedKV_Do_def tag_hook_def [abs_def])

text \<open>Draining the iterator that \<open>Do\<close> returns for a stream that ends delivers every
  message of the stream in order, converted, and every error before the end, to the consumer
  until it stops, and then returns.\<close>

theorem iterate_delivers:
  assumes "c_IterateRange client c r (callOpts @ [RetryCallOption withRepeatable,
      RetryCallOption (withMax iterateRangeRetries)]) w = (Ret (Inr script_recv), (xs, a))"
    and "OpIterate key [] = Ret x" and "toRangeRequest x name = Ret r"
  shows "\<exists>it. newKV client callOpts S [] c name x w =
       (Ret (no_OpResponse\<lparr>o_iter := Some it\<rparr>, None), (xs, a)) \<and>
     iter_run it (lift_yield f) (xs, a) = Some (Ret (), consume f xs a)"
proof -
  from assms(2) have "op_t (op_f x) = tIterateRange"
    by (auto simp: OpIterate_def zero_fields_def Let_def split: if_splits)
  with assms(1,3) have "newKV client callOpts S [] c name x w =
      (Ret (no_OpResponse\<lparr>o_iter := Some (recv_step script_recv)\<rparr>, None), (xs, a))"
    by (simp add: newKV_def kv_Do_def do_call_def retryKVClient_def retryKV_IterateRange_def)
  then show ?thesis using iter_run_script [of f xs a] by blast
qed

theorem iterate_delivers_witness:
  "\<exists>x it. OpIterate [1] [] = Ret x \<and>
     newKV (empty_client\<lparr>c_IterateRange := (\<lambda>c r opts w. (Ret (Inr script_recv), w))\<rparr>) [] doc_status []
       fresh_ctx [7] x ([Inl (TextErr ''e'')], 0 :: nat) =
       (Ret (no_OpResponse\<lparr>o_iter := Some it\<rparr>, None), ([Inl (TextErr ''e'')], 0)) \<and>
     iter_run it (lift_yield (\<lambda>r e n. (True, Suc n))) ([Inl (TextErr ''e'')], 0) = Some (Ret (), [], 1)"
proof -
  let ?x = "mkOp (zero_fields\<lparr>op_t := tIterateRange, op_key := Some [1]\<rparr>)"
  have x: "OpIterate [1] [] = Ret ?x"
    by (simp add: OpIterate_def IsOptsWithPrefix_def NewOp_def zero_fields_def Let_def)
  obtain r where r: "toRangeRequest ?x [7] = Ret r"
    by (simp add: toRangeRequest_def Let_def)
  show ?thesis
    using iterate_delivers [OF _ x r, of
        "empty_client\<lparr>c_IterateRange := (\<lambda>c r opts w. (Ret (Inr script_recv), w))\<rparr>" fresh_ctx "[]"
        "([Inl (TextErr ''e'')], 0)" "[Inl (TextErr ''e'')]" 0 doc_status "\<lambda>r e n. (True, Suc n)"] x
    by simp
qed

text \<open>C40: When the stream fails with an error other than \<open>io.EOF\<close> and, as a gRPC stream does,
  fails in the same way ever after, an iteration whose consumer does not itself stop on the
  error never returns.\<close>

theorem iterate_spins_on_sticky_error:
  assumes "\<And>w. \<exists>w'. recv w = (Ret (Inl e), w')" and "\<not> errors_Is e IoEOF"
    and "\<And>w. fst (yield None (Some e) w) = Ret True"
  shows "iter_run (recv_step recv) yield w = None"
proof (rule ccontr)
  assume "iter_run (recv_step recv) yield w \<noteq> None"
  then obtain r where ret: "iter_run (recv_step recv) yield w = Some r" by auto
  have step: "\<exists>w'. recv_step recv w = (IterYield None (Some e), w')" for w
    using assms(1) [of w] assms(2) by (auto simp: recv_step_def)
  have "it = recv_step recv \<longrightarrow> yl = yield \<longrightarrow> False" if "iter_run it yl w = Some r" for it yl w r
    using that
  proof (rule iter_run.raw_induct [where P = "\<lambda>it yl w r. it = recv_step recv \<longrightarrow> yl = yield \<longrightarrow> False",
        rotated])
    fix g it yl w r
    assume IH: "\<And>it yl w r. g it yl w = Some r \<Longrightarrow> it = recv_step recv \<longrightarrow> yl = yield \<longrightarrow> False"
      and eq: "(case it w of (ev, w1) \<Rightarrow> case ev of IterDone \<Rightarrow> Some (Ret (), w1)
        | IterPanic m \<Rightarrow> Some (Panic m, w1)
        | IterYield r e \<Rightarrow> (case yl r e w1 of (Panic m, w2) \<Rightarrow> Some (Panic m, w2) | (Ret continue, w2) \<Rightarrow>
            if continue then g it yl w2 else Some (Ret (), w2))) = Some r"
    show "it = recv_step recv \<longrightarrow> yl = yield \<longrightarrow> False"
    proof (intro impI)
      assume "it = recv_step recv" and "yl = yield"
      with eq step [of w] obtain w' where
        "(case yield None (Some e) w' of (Panic m, w2) \<Rightarrow> Some (Panic m, w2) | (Ret continue, w2) \<Rightarrow>
            if continue then g it yl w2 else Some (Ret (), w2)) = Some r" by auto
      with assms(3) [of w'] have "\<exists>w2. g it yl w2 = Some r"
        by (cases "yield None (Some e) w'") auto
      with IH \<open>it = recv_step recv\<close> \<open>yl = yield\<close> show False by blast
    qed
  qed
  with ret show False by blast
qed

theorem iterate_spins_on_sticky_error_witness:
  "iter_run (recv_step (\<lambda>w. (Ret (Inl (StatusErr Unavailable ''down'')), w)))
     (\<lambda>r e n. (Ret True, Suc n)) (0 :: nat) = None"
  by (rule iterate_spins_on_sticky_error [where e = "StatusErr Unavailable ''down''"]) simp_all

end
