(* ===== verification/Client_Txn.thy ===== *)
theory Client_Txn
  imports Client_KV
begin

text \<open>
  \<open>txn.go\<close>: the transaction builder. Its state is a record; \<open>If\<close>, \<open>Then\<close> and \<open>Else\<close> return
  nothing or a panic, and the state they leave (a panic is raised before anything is
  written). Each of them holds the mutex for its whole body, so a call is one atomic step,
  and the steps of a builder shared by goroutines interleave as a sequence of such calls.
\<close>

record 'w txn =
  txn_kv :: "'w KvDo"
  txn_ctx :: "'w ctx"
  txn_table :: bytes
  txn_cif :: bool
  txn_cthen :: bool
  txn_celse :: bool
  txn_isWrite :: bool
  txn_cmps :: "cmp_ptr list"
  txn_sus :: "Op list"
  txn_fas :: "Op list"

definition new_txn :: "'w KvDo \<Rightarrow> 'w ctx \<Rightarrow> bytes \<Rightarrow> 'w txn" where
  "new_txn k c table = \<lparr>txn_kv = k, txn_ctx = c, txn_table = table, txn_cif = False,
     txn_cthen = False, txn_celse = False, txn_isWrite = False, txn_cmps = [], txn_sus = [],
     txn_fas = []\<rparr>"

definition kv_Txn :: "'w kv \<Rightarrow> 'w ctx \<Rightarrow> bytes \<Rightarrow> 'w txn" where
  "kv_Txn k c table = new_txn (kv_Do k) c table"

definition hookedKV_Txn :: "'w KvDo \<Rightarrow> 'w HookKVOpDo \<Rightarrow> 'w ctx \<Rightarrow> bytes \<Rightarrow> 'w txn" where
  "hookedKV_Txn inner hook c table = new_txn (hookedKV_Do inner hook) c table"

definition table_Txn :: "'w table \<Rightarrow> 'w ctx \<Rightarrow> 'w txn" where
  "table_Txn t c = new_txn (tbl_kv t) c (tbl_table t)"

definition txn_If :: "cmp_ptr list \<Rightarrow> 'w txn \<Rightarrow> unit go \<times> 'w txn" where
  "txn_If cs t =
     (if txn_cif t then (Panic ''cannot call If twice!'', t)
      else if txn_cthen t then (Panic ''cannot call If after Then!'', t)
      else if txn_celse t then (Panic ''cannot call If after Else!'', t)
      else (Ret (), t\<lparr>txn_cif := True, txn_cmps := txn_cmps t @ cs\<rparr>))"

text \<open>The loops over the operations: the write flag and the list grow together.\<close>

fun txn_then_loop :: "Op list \<Rightarrow> 'w txn \<Rightarrow> 'w txn" where
  "txn_then_loop [] t = t"
| "txn_then_loop (x # xs) t = txn_then_loop xs
     (t\<lparr>txn_isWrite := txn_isWrite t \<or> op_isWrite x, txn_sus := txn_sus t @ [x]\<rparr>)"

fun txn_else_loop :: "Op list \<Rightarrow> 'w txn \<Rightarrow> 'w txn" where
  "txn_else_loop [] t = t"
| "txn_else_loop (x # xs) t = txn_else_loop xs
     (t\<lparr>txn_isWrite := txn_isWrite t \<or> op_isWrite x, txn_fas := txn_fas t @ [x]\<rparr>)"

definition txn_Then :: "Op list \<Rightarrow> 'w txn \<Rightarrow> unit go \<times> 'w txn" where
  "txn_Then ops t =
     (if txn_cthen t then (Panic ''cannot call Then twice!'', t)
      else if txn_celse t then (Panic ''cannot call Then after Else!'', t)
      else (Ret (), txn_then_loop ops (t\<lparr>txn_cthen := True\<rparr>)))"

definition txn_Else :: "Op list \<Rightarrow> 'w txn \<Rightarrow> unit go \<times> 'w txn" where
  "txn_Else ops t =
     (if txn_celse t then (Panic ''cannot call Else twice!'', t)
      else (Ret (), txn_else_loop ops (t\<lparr>txn_celse := True\<rparr>)))"

text \<open>
  \<open>Commit\<close> tests the error twice, so the second branch, the one that would apply \<open>toErr\<close>, is
  never reached; then it reads the transaction's response through its pointer.
\<close>

definition txn_Commit ::
  "status_pkg \<Rightarrow> 'w txn \<Rightarrow> 'w \<Rightarrow> (TxnResponse option \<times> err option) go \<times> 'w" where
  "txn_Commit S t w =
     (case txn_kv t (txn_ctx t) (txn_table t) (OpTxn (txn_cmps t) (txn_sus t) (txn_fas t)) w of
        (Panic m, w1) \<Rightarrow> (Panic m, w1)
      | (Ret (r, e), w1) \<Rightarrow>
          if e \<noteq> None then (Ret (None, e), w1)
          else if e \<noteq> None then (Ret (None, toErr S (txn_ctx t) w1 e), w1)
          else (go_bind (go_deref (o_txn r)) (\<lambda>x.
            Ret (Some \<lparr>tx_Header = tx_Header x, tx_Succeeded = tx_Succeeded x,
              tx_Responses = tx_Responses x\<rparr>, None)), w1))"

section \<open>Sequences of builder calls\<close>

datatype txn_call = CallIf "cmp_ptr list" | CallThen "Op list" | CallElse "Op list"

fun txn_do :: "txn_call \<Rightarrow> 'w txn \<Rightarrow> unit go \<times> 'w txn" where
  "txn_do (CallIf cs) = txn_If cs"
| "txn_do (CallThen ops) = txn_Then ops"
| "txn_do (CallElse ops) = txn_Else ops"

fun txn_run :: "txn_call list \<Rightarrow> 'w txn \<Rightarrow> 'w txn go" where
  "txn_run [] t = Ret t"
| "txn_run (c # cs) t =
     (case txn_do c t of (Panic m, t') \<Rightarrow> Panic m | (Ret _, t') \<Rightarrow> txn_run cs t')"

text \<open>A builder call that returns is a step; a panicking one leaves the builder as it was.\<close>

inductive txn_step :: "'w txn \<Rightarrow> txn_call \<Rightarrow> 'w txn \<Rightarrow> bool" where
  returns: "txn_do c t = (Ret (), t') \<Longrightarrow> txn_step t c t'"
| panics: "txn_do c t = (Panic m, t') \<Longrightarrow> txn_step t c t'"

inductive txn_reachable :: "'w KvDo \<Rightarrow> 'w ctx \<Rightarrow> bytes \<Rightarrow> 'w txn \<Rightarrow> bool"
  for k :: "'w KvDo" and c :: "'w ctx" and table :: bytes where
  start: "txn_reachable k c table (new_txn k c table)"
| step: "txn_reachable k c table t \<Longrightarrow> txn_step t call t' \<Longrightarrow> txn_reachable k c table t'"

inductive_cases txn_step_If: "txn_step t (CallIf cs) t'"
inductive_cases txn_step_Then: "txn_step t (CallThen ops) t'"
inductive_cases txn_step_Else: "txn_step t (CallElse ops) t'"

section \<open>Facts about the builder\<close>

lemma txn_then_loop_eq:
  "txn_then_loop ops t =
     t\<lparr>txn_isWrite := txn_isWrite t \<or> list_ex op_isWrite ops, txn_sus := txn_sus t @ ops\<rparr>"
  by (induction ops arbitrary: t) (auto simp: disj_assoc)

lemma txn_else_loop_eq:
  "txn_else_loop ops t =
     t\<lparr>txn_isWrite := txn_isWrite t \<or> list_ex op_isWrite ops, txn_fas := txn_fas t @ ops\<rparr>"
  by (induction ops arbitrary: t) (auto simp: disj_assoc)

lemmas txn_defs = txn_If_def txn_Then_def txn_Else_def txn_then_loop_eq txn_else_loop_eq

text \<open>
  The flag says whether a write is among the operations, what was not called is empty, and the
  client, context and table are those of the start.
\<close>

definition txn_inv :: "'w KvDo \<Rightarrow> 'w ctx \<Rightarrow> bytes \<Rightarrow> 'w txn \<Rightarrow> bool" where
  "txn_inv k c table t \<longleftrightarrow>
     txn_isWrite t = list_ex op_isWrite (txn_sus t @ txn_fas t) \<and>
     (txn_cif t \<or> txn_cmps t = []) \<and> (txn_cthen t \<or> txn_sus t = []) \<and>
     (txn_celse t \<or> txn_fas t = []) \<and>
     txn_kv t = k \<and> txn_ctx t = c \<and> txn_table t = table"

lemma txn_inv_new: "txn_inv k c table (new_txn k c table)"
  by (simp add: txn_inv_def new_txn_def)

lemma txn_do_inv: "txn_inv k c table t \<Longrightarrow> txn_inv k c table (snd (txn_do call t))"
  by (cases call) (auto simp: txn_inv_def txn_defs)

lemma txn_step_inv: "txn_step t call t' \<Longrightarrow> txn_inv k c table t \<Longrightarrow> txn_inv k c table t'"
  by (induction rule: txn_step.induct) (metis snd_conv txn_do_inv)+

lemma txn_reachable_inv: "txn_reachable k c table t \<Longrightarrow> txn_inv k c table t"
  by (induction rule: txn_reachable.induct) (auto intro: txn_inv_new txn_step_inv)

text \<open>The stage a builder has reached, and the stage of a call.\<close>

definition txn_stage :: "'w txn \<Rightarrow> nat" where
  "txn_stage t = (if txn_celse t then 3 else if txn_cthen t then 2 else if txn_cif t then 1 else 0)"

fun call_stage :: "txn_call \<Rightarrow> nat" where
  "call_stage (CallIf _) = 1"
| "call_stage (CallThen _) = 2"
| "call_stage (CallElse _) = 3"

lemma txn_do_stage:
  "(case txn_do call t of
      (Ret _, t') \<Rightarrow> txn_stage t < call_stage call \<and> txn_stage t' = call_stage call
    | (Panic m, t') \<Rightarrow> call_stage call \<le> txn_stage t \<and> t' = t)"
  by (cases call) (auto simp: txn_stage_def txn_defs)

lemma txn_run_stage:
  "(\<exists>t'. txn_run calls t = Ret t') \<longleftrightarrow> sorted_wrt (<) (txn_stage t # map call_stage calls)"
proof (induction calls arbitrary: t)
  case Nil
  then show ?case by simp
next
  case (Cons call calls)
  show ?case
  proof (cases "txn_do call t")
    case (Pair r t')
    with txn_do_stage [where call = call and t = t] Cons [of t'] show ?thesis
      by (cases r) (auto dest: less_trans)
  qed
qed

lemma new_txn_stage [simp]: "txn_stage (new_txn k c table) = 0"
  by (simp add: txn_stage_def new_txn_def)

fun call_cmps :: "txn_call \<Rightarrow> cmp_ptr list" where
  "call_cmps (CallIf cs) = cs" | "call_cmps _ = []"

fun call_then :: "txn_call \<Rightarrow> Op list" where
  "call_then (CallThen ops) = ops" | "call_then _ = []"

fun call_else :: "txn_call \<Rightarrow> Op list" where
  "call_else (CallElse ops) = ops" | "call_else _ = []"

lemma txn_run_parts:
  "txn_run calls t = Ret t' \<Longrightarrow>
     txn_cmps t' = txn_cmps t @ concat (map call_cmps calls) \<and>
     txn_sus t' = txn_sus t @ concat (map call_then calls) \<and>
     txn_fas t' = txn_fas t @ concat (map call_else calls) \<and>
     txn_kv t' = txn_kv t \<and> txn_ctx t' = txn_ctx t \<and> txn_table t' = txn_table t"
proof (induction calls arbitrary: t)
  case Nil
  then show ?case by simp
next
  case (Cons call calls)
  from Cons.prems obtain t1 where do_call: "txn_do call t = (Ret (), t1)"
    and run: "txn_run calls t1 = Ret t'"
    by (auto split: prod.splits go.splits)
  have "txn_cmps t1 = txn_cmps t @ call_cmps call \<and> txn_sus t1 = txn_sus t @ call_then call \<and>
      txn_fas t1 = txn_fas t @ call_else call \<and> txn_kv t1 = txn_kv t \<and>
      txn_ctx t1 = txn_ctx t \<and> txn_table t1 = txn_table t"
    using do_call by (cases call) (auto simp: txn_defs split: if_splits)
  with Cons.IH [OF run] show ?case by simp
qed

text \<open>Committing over any provider of the interface \<open>KV\<close>.\<close>

context kv_iface
begin

lemma commit_no_panic_of_its_own:
  assumes "txn_kv t = Do"
  shows "txn_Commit S t w = (Panic m, w1) \<longleftrightarrow>
    Do (txn_ctx t) (txn_table t) (OpTxn (txn_cmps t) (txn_sus t) (txn_fas t)) w = (Panic m, w1)"
  using Do_shape [of "txn_ctx t" "txn_table t" "OpTxn (txn_cmps t) (txn_sus t) (txn_fas t)" w]
  by (auto simp: txn_Commit_def assms OpTxn_def go_bind_Panic_iff split: go.splits prod.splits)

end

section \<open>Properties\<close>

text \<open>C12: The calls a transaction builder accepts are exactly \<open>If\<close>, \<open>Then\<close> and \<open>Else\<close> in this
  order, each at most once and any of them left out: any other sequence panics.\<close>

theorem txn_accepts_iff_in_order:
  "(\<exists>t. txn_run calls (new_txn k c table) = Ret t) \<longleftrightarrow> sorted_wrt (<) (map call_stage calls)"
proof -
  have "0 < call_stage call" for call by (cases call) auto
  then show ?thesis by (simp add: txn_run_stage)
qed

text \<open>C13: In every state a builder can reach, by calls of any goroutines in any order, panicking
  ones included, its write flag says exactly whether an operation added to either branch is a
  write, a part that was not called is empty, and its client and table are unchanged.\<close>

theorem txn_invariant:
  assumes "txn_reachable k c table t"
  shows "txn_isWrite t = list_ex op_isWrite (txn_sus t @ txn_fas t) \<and>
    (\<not> txn_cif t \<longrightarrow> txn_cmps t = []) \<and> (\<not> txn_cthen t \<longrightarrow> txn_sus t = []) \<and>
    (\<not> txn_celse t \<longrightarrow> txn_fas t = []) \<and> txn_kv t = k \<and> txn_table t = table"
  using txn_reachable_inv [OF assms] by (auto simp: txn_inv_def)

theorem txn_invariant_witness:
  "\<exists>t. txn_reachable (newKV empty_client [] doc_status [] :: unit KvDo) fresh_ctx [7] t \<and>
     txn_isWrite t = list_ex op_isWrite (txn_sus t @ txn_fas t) \<and> txn_cthen t"
proof -
  let ?put = "mkOp (put_fields [1] [2] [])"
  let ?t = "snd (txn_Then [?put] (new_txn (newKV empty_client [] doc_status [] :: unit KvDo) fresh_ctx [7]))"
  have "txn_reachable (newKV empty_client [] doc_status [] :: unit KvDo) fresh_ctx [7] ?t"
    by (rule txn_reachable.step [OF txn_reachable.start, where call = "CallThen [?put]"], rule txn_step.returns)
      (simp add: txn_Then_def new_txn_def)
  moreover have "txn_cthen ?t" by (simp add: txn_defs new_txn_def)
  ultimately show ?thesis using txn_invariant [of "newKV empty_client [] doc_status [] :: unit KvDo" fresh_ctx "[7]" ?t] by blast
qed

lemma txn_Commit_eq:
  assumes "txn_kv t = newKV client callOpts S []"
  shows "txn_Commit S t w =
     (case toTxnRequest (OpTxn (txn_cmps t) (txn_sus t) (txn_fas t)) (txn_table t) of
        Panic m \<Rightarrow> (Panic m, w)
      | Ret req \<Rightarrow> (case c_Txn client (txn_ctx t) req callOpts w of
           (Panic m, w1) \<Rightarrow> (Panic m, w1)
         | (Ret (Inr r), w1) \<Rightarrow> (Ret (Some \<lparr>tx_Header = ts_Header r, tx_Succeeded = ts_Succeeded r,
               tx_Responses = map (Some \<circ> resp_of) (List.map_filter so_Response (ts_Responses r))\<rparr>, None), w1)
         | (Ret (Inl e), w1) \<Rightarrow> (Ret (None, toErr S (txn_ctx t) w1 (Some e)), w1)))"
  using assms
  by (auto simp: txn_Commit_def newKV_def kv_Do_def OpTxn_def zero_fields_def do_call_def retryKVClient_def
      retryKV_Txn_def convResponseOps_eq no_OpResponse_def Let_def split: prod.splits sum.splits go.splits)

text \<open>Committing what a sequence of builder calls has put together makes one remote call, with
  the table and the comparisons, success and failure operations in the order they were added,
  and no retry option; it returns the server's verdict and the responses of the operations in
  their order, or the error through \<open>toErr\<close>.\<close>

theorem txn_Commit_call:
  assumes "txn_run calls (table_Txn (kv_Table (newKV client callOpts S []) name) c) = Ret t"
    and "go_map toRequestOp (concat (map call_then calls)) = Ret succ"
    and "go_map toRequestOp (concat (map call_else calls)) = Ret fail"
  shows "txn_Commit S t w =
     (case c_Txn client c \<lparr>tr_Table = Some name, tr_Compare = concat (map call_cmps calls),
         tr_Success = succ, tr_Failure = fail, tr_unknownFields = []\<rparr> callOpts w of
        (Panic m, w1) \<Rightarrow> (Panic m, w1)
      | (Ret (Inr r), w1) \<Rightarrow> (Ret (Some \<lparr>tx_Header = ts_Header r, tx_Succeeded = ts_Succeeded r,
            tx_Responses = map (Some \<circ> resp_of) (List.map_filter so_Response (ts_Responses r))\<rparr>,
            None), w1)
      | (Ret (Inl e), w1) \<Rightarrow> (Ret (None, toErr S c w1 (Some e)), w1))"
  using txn_run_parts [OF assms(1)] assms(2,3)
  by (auto simp: txn_Commit_eq table_Txn_def kv_Table_def new_txn_def OpTxn_def zero_fields_def
      toTxnRequest_def split: prod.split sum.split go.split)

theorem txn_Commit_call_witness:
  "\<exists>t. txn_run [CallThen [mkOp (put_fields [1] [2] [])]]
       (table_Txn (kv_Table (newKV empty_client [] doc_status []) [7]) fresh_ctx) = Ret t \<and>
     txn_Commit doc_status t () = (Ret (Some \<lparr>tx_Header = None, tx_Succeeded = True,
       tx_Responses = []\<rparr>, None), ())"
proof -
  let ?t0 = "table_Txn (kv_Table (newKV empty_client [] doc_status []) [7]) fresh_ctx :: unit txn"
  let ?calls = "[CallThen [mkOp (put_fields [1] [2] [])]]"
  obtain t where t: "txn_run ?calls ?t0 = Ret t"
    by (auto simp: txn_defs table_Txn_def new_txn_def)
  obtain succ where "go_map toRequestOp (concat (map call_then ?calls)) = Ret succ"
    by (simp add: put_fields_def zero_fields_def)
  from txn_Commit_call [OF t this, of "[]" "()"] t show ?thesis
    by (simp add: empty_client_def List.map_filter_simps)
qed

text \<open>\<open>Commit\<close> hands an error of the chain of hooks on as it is: the branch that would apply
  \<open>toErr\<close> to it, as every other method of the client does, is unreachable. A hook's
  cancellation status under a done context is returned raw by \<open>Commit\<close>, and as the
  context's error by \<open>Put\<close>.\<close>

theorem Commit_error_is_raw:
  assumes "status_ok S" and "ctx_Err c w = Some ce"
    and "\<And>x. k c name x w = (Ret (no_OpResponse, Some (StatusErr Canceled m)), w)"
  shows "txn_Commit S (table_Txn (kv_Table k name) c) w =
      (Ret (None, Some (StatusErr Canceled m)), w) \<and>
    table_Put S (kv_Table k name) c key val [] w = (Ret (None, Some ce), w)"
  using assms
  by (simp add: txn_Commit_def table_Txn_def kv_Table_def new_txn_def table_Put_def do_op_def
      OpPut_def zero_fields_def no_OpResponse_def toErr_def status_ok_def Let_def)

theorem Commit_error_is_raw_witness:
  "\<exists>k :: unit KvDo. txn_Commit doc_status (table_Txn (kv_Table k [7])
      \<lparr>ctx_Err = (\<lambda>_. Some CtxCanceled), ctx_md = None\<rparr>) () =
      (Ret (None, Some (StatusErr Canceled ''c'')), ())"
  using Commit_error_is_raw [OF doc_status_ok, of "\<lparr>ctx_Err = (\<lambda>_. Some CtxCanceled), ctx_md = None\<rparr>"
      "()" CtxCanceled "\<lambda>c table x w. (Ret (no_OpResponse, Some (StatusErr Canceled ''c'')), w)"
      "[7]" "''c''" "[1]" "[2]"]
  by auto

text \<open>Over any chain of well-behaved hooks, \<open>Commit\<close> panics only when the call of \<open>Do\<close> does:
  reading the response of the transaction never dereferences nil.\<close>

theorem Commit_panics_only_with_Do:
  assumes "\<forall>h \<in> set hooks. kv_hook h"
    and "txn_run calls (table_Txn (kv_Table (newKV client callOpts S hooks) name) c) = Ret t"
  shows "txn_Commit S t w = (Panic m, w1) \<longleftrightarrow>
    newKV client callOpts S hooks c name
      (OpTxn (txn_cmps t) (txn_sus t) (txn_fas t)) w = (Panic m, w1)"
  using kv_iface.commit_no_panic_of_its_own [OF newKV_iface [OF assms(1)], of t]
    txn_run_parts [OF assms(2)]
  by (simp add: table_Txn_def kv_Table_def new_txn_def)

theorem Commit_panics_only_with_Do_witness:
  "\<exists>t. txn_run [CallThen [mkOp (zero_fields\<lparr>op_t := tIterateRange\<rparr>)]]
       (table_Txn (kv_Table (newKV empty_client [] doc_status [pass_hook]) [7]) fresh_ctx) = Ret t \<and>
     txn_Commit doc_status t () = (Panic (''unsupported transaction op type '' @ opType_digits tIterateRange), ())"
proof -
  let ?t0 = "table_Txn (kv_Table (newKV empty_client [] doc_status [pass_hook]) [7]) fresh_ctx :: unit txn"
  let ?calls = "[CallThen [mkOp (zero_fields\<lparr>op_t := tIterateRange\<rparr>)]]"
  obtain t where t: "txn_run ?calls ?t0 = Ret t"
    by (auto simp: txn_defs table_Txn_def new_txn_def)
  have "newKV empty_client [] doc_status [pass_hook] fresh_ctx [7]
      (OpTxn (txn_cmps t) (txn_sus t) (txn_fas t)) () =
      (Panic (''unsupported transaction op type '' @ opType_digits tIterateRange), ())"
    using txn_run_parts [OF t]
    by (simp add: newKV_def hookedKV_Do_def pass_hook_def kv_Do_def toTxnRequest_def OpTxn_def
        zero_fields_def table_Txn_def kv_Table_def new_txn_def Let_def)
  moreover have "\<forall>h \<in> set [pass_hook :: unit HookKVOpDo]. kv_hook h"
    using pass_hook.kv_hook_axioms by simp
  ultimately show ?thesis using Commit_panics_only_with_Do [OF _ t] t by blast
qed

end
