(* ===== verification/Client_Fake.thy ===== *)
theory Client_Fake
  imports Client_KV "HOL-Library.Signed_Division"
begin

text \<open>
  \<open>fake.go\<close>: the fake KV server that the package offers to tests. Its state is the requests it
  has recorded, the responses it was given, and the index of the next one. A handler maps the
  state and a request to what it returns; a panic is a nil dereference of a response that does
  not fit the request. gRPC itself (\<open>NewFake\<close>, \<open>Client\<close>) is not modelled.
\<close>

section \<open>State\<close>

record RecordedRequest =
  rq_Table :: bytes
  rq_Request :: Op

record 'w FakeResponse =
  fk_Response :: "'w OpResponse"
  fk_Err :: "err option"

record 'w fakeKVServer =
  fs_recordedRequests :: "RecordedRequest list"
  fs_fakeResponses :: "'w FakeResponse list"
  fs_fakeResponsesIdx :: int64

definition RecordedRequests :: "'w fakeKVServer \<Rightarrow> RecordedRequest list" where
  "RecordedRequests f = fs_recordedRequests f"

section \<open>Conversion of requests\<close>

definition no_RecordedRequest :: RecordedRequest where
  "no_RecordedRequest = \<lparr>rq_Table = [], rq_Request = mkOp zero_fields\<rparr>"

definition convRangeToRequest :: "RangeRequest option \<Rightarrow> RecordedRequest" where
  "convRangeToRequest p = (case p of None \<Rightarrow> no_RecordedRequest
     | Some rr \<Rightarrow> \<lparr>rq_Table = slice_bytes (rr_Table rr), rq_Request = mkOp (zero_fields\<lparr>
         op_t := tRange, op_key := rr_Key rr, op_end := rr_RangeEnd rr, op_limit := rr_Limit rr,
         op_serializable := \<not> rr_Linearizable rr, op_keysOnly := rr_KeysOnly rr,
         op_countOnly := rr_CountOnly rr, op_minModRev := rr_MinModRevision rr,
         op_maxModRev := rr_MaxModRevision rr, op_minCreateRev := rr_MinCreateRevision rr,
         op_maxCreateRev := rr_MaxCreateRevision rr\<rparr>)\<rparr>)"

definition convPutToRequest :: "PutRequest option \<Rightarrow> RecordedRequest" where
  "convPutToRequest p = (case p of None \<Rightarrow> no_RecordedRequest
     | Some pr \<Rightarrow> \<lparr>rq_Table = slice_bytes (pr_Table pr), rq_Request = mkOp (zero_fields\<lparr>
         op_t := tPut, op_key := pr_Key pr, op_val := pr_Value pr, op_prevKV := pr_PrevKv pr\<rparr>)\<rparr>)"

definition convDeleteRangeToRequest :: "DeleteRangeRequest option \<Rightarrow> RecordedRequest" where
  "convDeleteRangeToRequest p = (case p of None \<Rightarrow> no_RecordedRequest
     | Some dr \<Rightarrow> \<lparr>rq_Table = slice_bytes (dr_Table dr), rq_Request = mkOp (zero_fields\<lparr>
         op_t := tDeleteRange, op_key := dr_Key dr, op_end := dr_RangeEnd dr,
         op_prevKV := dr_PrevKv dr, op_count := dr_Count dr\<rparr>)\<rparr>)"

fun convToOp :: "RequestOp \<Rightarrow> Op go" where
  "convToOp r =
     (case ro_Request r of
        Some (RequestOp_RequestRange q) \<Rightarrow> Ret (mkOp (zero_fields\<lparr>op_t := tRange,
          op_key := qr_Key q, op_end := qr_RangeEnd q, op_limit := qr_Limit q,
          op_keysOnly := qr_KeysOnly q, op_countOnly := qr_CountOnly q\<rparr>))
      | Some (RequestOp_RequestPut q) \<Rightarrow> Ret (mkOp (zero_fields\<lparr>op_t := tPut,
          op_key := qp_Key q, op_val := qp_Value q, op_prevKV := qp_PrevKv q\<rparr>))
      | Some (RequestOp_RequestDeleteRange q) \<Rightarrow> Ret (mkOp (zero_fields\<lparr>op_t := tDeleteRange,
          op_key := qd_Key q, op_end := qd_RangeEnd q, op_prevKV := qd_PrevKv q,
          op_count := qd_Count q\<rparr>))
      | None \<Rightarrow> Panic ''unsupported transaction op type <nil>'')"

definition convTxnToRequest :: "TxnRequest option \<Rightarrow> RecordedRequest go" where
  "convTxnToRequest p = (case p of None \<Rightarrow> Ret no_RecordedRequest
     | Some tr \<Rightarrow>
         go_bind (go_map convToOp (tr_Success tr)) (\<lambda>thenOps.
         go_bind (go_map convToOp (tr_Failure tr)) (\<lambda>elseOps.
         Ret \<lparr>rq_Table = slice_bytes (tr_Table tr),
           rq_Request = Op (zero_fields\<lparr>op_t := tTxn\<rparr>) (tr_Compare tr) thenOps elseOps\<rparr>)))"

section \<open>Conversion of responses\<close>

fun convKeyValuesToProto_loop ::
  "KeyValue option list \<Rightarrow> KeyValue option list \<Rightarrow> KeyValue option list" where
  "convKeyValuesToProto_loop [] out = out"
| "convKeyValuesToProto_loop (t # ts) out = convKeyValuesToProto_loop ts (out @ [t])"

definition convKeyValuesToProto :: "KeyValue option list \<Rightarrow> KeyValue option list" where
  "convKeyValuesToProto kvs = convKeyValuesToProto_loop kvs []"

definition convToHeaderProto :: "ResponseHeader option \<Rightarrow> ResponseHeader option" where
  "convToHeaderProto h = (case h of None \<Rightarrow> None
     | Some rh \<Rightarrow> Some \<lparr>rh_ShardId = rh_ShardId rh, rh_ReplicaId = rh_ReplicaId rh,
         rh_Revision = rh_Revision rh, rh_RaftTerm = rh_RaftTerm rh,
         rh_RaftLeaderId = rh_RaftLeaderId rh, rh_unknownFields = []\<rparr>)"

text \<open>An operation response with nothing set is skipped; a nil one panics.\<close>

fun convResponsesToProto_loop ::
  "ResponseOp option list \<Rightarrow> PbResponseOp list \<Rightarrow> PbResponseOp list go" where
  "convResponsesToProto_loop [] out = Ret out"
| "convResponsesToProto_loop (None # ts) out = Panic nil_deref"
| "convResponsesToProto_loop (Some t # ts) out =
     (if xo_get t \<noteq> None then convResponsesToProto_loop ts (out @ [\<lparr>so_Response =
          Some (ResponseOp_ResponseRange \<lparr>sr_Kvs = convKeyValuesToProto (gr_Kvs (the (xo_get t))),
            sr_More = gr_More (the (xo_get t)), sr_Count = gr_Count (the (xo_get t)),
            sr_unknownFields = []\<rparr>), so_unknownFields = []\<rparr>])
      else if xo_put t \<noteq> None then convResponsesToProto_loop ts (out @ [\<lparr>so_Response =
          Some (ResponseOp_ResponsePut \<lparr>sp_PrevKv = pu_PrevKv (the (xo_put t)),
            sp_unknownFields = []\<rparr>), so_unknownFields = []\<rparr>])
      else if xo_delete t \<noteq> None then convResponsesToProto_loop ts (out @ [\<lparr>so_Response =
          Some (ResponseOp_ResponseDeleteRange \<lparr>sd_Deleted = de_Deleted (the (xo_delete t)),
            sd_PrevKvs = convKeyValuesToProto (de_PrevKvs (the (xo_delete t))),
            sd_unknownFields = []\<rparr>), so_unknownFields = []\<rparr>])
      else convResponsesToProto_loop ts out)"

definition convResponsesToProto :: "ResponseOp option list \<Rightarrow> PbResponseOp list go" where
  "convResponsesToProto ts = convResponsesToProto_loop ts []"

section \<open>Handlers\<close>

text \<open>
  What every handler does after recording: \<open>i := f.fakeResponsesIdx % len(f.fakeResponses)\<close>,
  where \<open>%\<close> truncates, and the increment. The index is an \<open>int\<close>, so it would become negative
  after \<open>2 ^ 63\<close> requests, and the list access would panic.
\<close>

definition next_response :: "'w fakeKVServer \<Rightarrow> 'w FakeResponse go \<times> 'w fakeKVServer" where
  "next_response f =
     (let i = sint (fs_fakeResponsesIdx f) smod int (length (fs_fakeResponses f));
          f1 = f\<lparr>fs_fakeResponsesIdx := fs_fakeResponsesIdx f + 1\<rparr>
      in (if i < 0 then Panic ''runtime error: index out of range''
          else Ret (fs_fakeResponses f ! nat i), f1))"

definition record_request :: "RecordedRequest \<Rightarrow> 'w fakeKVServer \<Rightarrow> 'w fakeKVServer" where
  "record_request r f = f\<lparr>fs_recordedRequests := fs_recordedRequests f @ [r]\<rparr>"

text \<open>The common body of the four unary handlers.\<close>

definition fake_handle ::
  "RecordedRequest \<Rightarrow> 'a \<Rightarrow> ('w OpResponse \<Rightarrow> 'a go) \<Rightarrow> 'w fakeKVServer \<Rightarrow>
     (err + 'a) go \<times> 'w fakeKVServer" where
  "fake_handle rq dflt conv f =
     (let f1 = record_request rq f in
      if length (fs_fakeResponses f1) = 0 then (Ret (Inr dflt), f1)
      else (case next_response f1 of
          (Panic m, f2) \<Rightarrow> (Panic m, f2)
        | (Ret resp, f2) \<Rightarrow>
            (case fk_Err resp of
               Some e \<Rightarrow> (Ret (Inl e), f2)
             | None \<Rightarrow> (go_bind (conv (fk_Response resp)) (\<lambda>r. Ret (Inr r)), f2))))"

definition empty_RangeResponse :: RangeResponse where
  "empty_RangeResponse = \<lparr>rs_Header = None, rs_Kvs = [], rs_More = False, rs_Count = 0,
     rs_unknownFields = []\<rparr>"
definition empty_PutResponse :: PbPutResponse where
  "empty_PutResponse = \<lparr>ps_Header = None, ps_PrevKv = None, ps_unknownFields = []\<rparr>"
definition empty_DeleteRangeResponse :: DeleteRangeResponse where
  "empty_DeleteRangeResponse = \<lparr>ds_Header = None, ds_Deleted = 0, ds_PrevKvs = [],
     ds_unknownFields = []\<rparr>"
definition empty_TxnResponse :: PbTxnResponse where
  "empty_TxnResponse = \<lparr>ts_Header = None, ts_Succeeded = False, ts_Responses = [],
     ts_unknownFields = []\<rparr>"

definition range_to_proto :: "GetResponse \<Rightarrow> RangeResponse" where
  "range_to_proto r = \<lparr>rs_Header = convToHeaderProto (gr_Header r),
     rs_Kvs = convKeyValuesToProto (gr_Kvs r), rs_More = gr_More r, rs_Count = gr_Count r,
     rs_unknownFields = []\<rparr>"

definition fake_Range ::
  "'w fakeKVServer \<Rightarrow> RangeRequest option \<Rightarrow> (err + RangeResponse) go \<times> 'w fakeKVServer" where
  "fake_Range f req = fake_handle (convRangeToRequest req) empty_RangeResponse
     (\<lambda>o'. go_bind (go_deref (o_get o')) (\<lambda>r. Ret (range_to_proto r))) f"

definition fake_Put ::
  "'w fakeKVServer \<Rightarrow> PutRequest option \<Rightarrow> (err + PbPutResponse) go \<times> 'w fakeKVServer" where
  "fake_Put f req = fake_handle (convPutToRequest req) empty_PutResponse
     (\<lambda>o'. go_bind (go_deref (o_put o')) (\<lambda>r.
        Ret \<lparr>ps_Header = convToHeaderProto (pu_Header r),
          ps_PrevKv = (case pu_PrevKv r of None \<Rightarrow> None
            | Some kv \<Rightarrow> Some \<lparr>kv_Key = kv_Key kv, kv_CreateRevision = kv_CreateRevision kv,
                kv_ModRevision = kv_ModRevision kv, kv_Value = kv_Value kv,
                kv_unknownFields = []\<rparr>),
          ps_unknownFields = []\<rparr>)) f"

definition fake_DeleteRange ::
  "'w fakeKVServer \<Rightarrow> DeleteRangeRequest option \<Rightarrow>
     (err + DeleteRangeResponse) go \<times> 'w fakeKVServer" where
  "fake_DeleteRange f req = fake_handle (convDeleteRangeToRequest req) empty_DeleteRangeResponse
     (\<lambda>o'. go_bind (go_deref (o_del o')) (\<lambda>r.
        Ret \<lparr>ds_Header = convToHeaderProto (de_Header r), ds_Deleted = de_Deleted r,
          ds_PrevKvs = convKeyValuesToProto (de_PrevKvs r), ds_unknownFields = []\<rparr>)) f"

definition fake_Txn ::
  "'w fakeKVServer \<Rightarrow> TxnRequest option \<Rightarrow> (err + PbTxnResponse) go \<times> 'w fakeKVServer" where
  "fake_Txn f req = (case convTxnToRequest req of Panic m \<Rightarrow> (Panic m, f)
     | Ret rq \<Rightarrow> fake_handle rq empty_TxnResponse
         (\<lambda>o'. go_bind (go_deref (o_txn o')) (\<lambda>r.
            go_bind (convResponsesToProto (tx_Responses r)) (\<lambda>rs.
            Ret \<lparr>ts_Header = convToHeaderProto (tx_Header r), ts_Succeeded = tx_Succeeded r,
              ts_Responses = rs, ts_unknownFields = []\<rparr>))) f)"

text \<open>
  \<open>IterateRange\<close> runs the configured iterator, which acts on a world of its own, and sends each
  response; errors of \<open>Send\<close> are ignored. An iterator that yields an error passes a nil
  response to the callback, which dereferences it. The result is \<open>None\<close> when the iterator
  never ends.
\<close>

definition beside :: "'w IteratorResponse \<Rightarrow> ('w \<times> 'a) IteratorResponse" where
  "beside it w = (case it (fst w) of (ev, w1) \<Rightarrow> (ev, (w1, snd w)))"

definition fake_yield ::
  "GetResponse option \<Rightarrow> err option \<Rightarrow> 'w \<times> RangeResponse list \<Rightarrow>
     bool go \<times> 'w \<times> RangeResponse list" where
  "fake_yield r e s = (case s of (w, sent) \<Rightarrow>
     (case r of None \<Rightarrow> (Panic nil_deref, (w, sent))
      | Some r \<Rightarrow> (Ret True, (w, sent @ [range_to_proto r]))))"

definition fake_IterateRange ::
  "'w fakeKVServer \<Rightarrow> RangeRequest option \<Rightarrow> 'w \<Rightarrow>
     ((err option go \<times> RangeResponse list) \<times> 'w fakeKVServer \<times> 'w) option" where
  "fake_IterateRange f req w =
     (let f1 = record_request (convRangeToRequest req) f in
      if length (fs_fakeResponses f1) = 0 then Some ((Ret None, []), f1, w)
      else (case next_response f1 of
          (Panic m, f2) \<Rightarrow> Some ((Panic m, []), f2, w)
        | (Ret resp, f2) \<Rightarrow>
            (case fk_Err resp of
               Some e \<Rightarrow> Some ((Ret (Some e), []), f2, w)
             | None \<Rightarrow>
                 (case o_iter (fk_Response resp) of
                    None \<Rightarrow> Some ((Panic nil_deref, []), f2, w)
                  | Some it \<Rightarrow>
                      map_option (\<lambda>(res, w1, sent). ((go_bind res (\<lambda>_. Ret None), sent), f2, w1))
                        (iter_run (beside it) fake_yield (w, []))))))"

section \<open>Sequences of requests\<close>

definition NewFake :: "'w FakeResponse list \<Rightarrow> 'w fakeKVServer" where
  "NewFake rs = \<lparr>fs_recordedRequests = [], fs_fakeResponses = rs, fs_fakeResponsesIdx = 0\<rparr>"

datatype fake_call =
  FRange RangeRequest | FPut PutRequest | FDelete DeleteRangeRequest | FTxn TxnRequest

fun fake_recorded :: "fake_call \<Rightarrow> RecordedRequest go" where
  "fake_recorded (FRange r) = Ret (convRangeToRequest (Some r))"
| "fake_recorded (FPut r) = Ret (convPutToRequest (Some r))"
| "fake_recorded (FDelete r) = Ret (convDeleteRangeToRequest (Some r))"
| "fake_recorded (FTxn r) = convTxnToRequest (Some r)"

fun fake_serve :: "fake_call \<Rightarrow> 'w fakeKVServer \<Rightarrow> 'w fakeKVServer" where
  "fake_serve (FRange r) f = snd (fake_Range f (Some r))"
| "fake_serve (FPut r) f = snd (fake_Put f (Some r))"
| "fake_serve (FDelete r) f = snd (fake_DeleteRange f (Some r))"
| "fake_serve (FTxn r) f = snd (fake_Txn f (Some r))"

lemma next_response_snd:
  "snd (next_response f) = f\<lparr>fs_fakeResponsesIdx := fs_fakeResponsesIdx f + 1\<rparr>"
  by (simp add: next_response_def Let_def)

lemma fake_handle_snd:
  "snd (fake_handle rq d conv f) =
     (if fs_fakeResponses f = [] then record_request rq f
      else (record_request rq f)\<lparr>fs_fakeResponsesIdx := fs_fakeResponsesIdx f + 1\<rparr>)"
  using next_response_snd [of "record_request rq f"]
  by (auto simp: fake_handle_def Let_def record_request_def split: prod.splits go.splits option.splits)

lemma fake_serve_eq:
  "fake_recorded c = Ret rq \<Longrightarrow> fake_serve c f =
     (if fs_fakeResponses f = [] then record_request rq f
      else (record_request rq f)\<lparr>fs_fakeResponsesIdx := fs_fakeResponsesIdx f + 1\<rparr>)"
  by (cases c) (auto simp: fake_handle_snd fake_Range_def fake_Put_def fake_DeleteRange_def fake_Txn_def)

lemma fake_serves:
  "go_map fake_recorded cs = Ret rqs \<Longrightarrow> fold fake_serve cs f =
     f\<lparr>fs_recordedRequests := fs_recordedRequests f @ rqs,
       fs_fakeResponsesIdx := fs_fakeResponsesIdx f +
         (if fs_fakeResponses f = [] then 0 else of_nat (length cs))\<rparr>"
proof (induction cs arbitrary: rqs f)
  case (Cons c cs)
  then obtain rq rqs' where "fake_recorded c = Ret rq" "go_map fake_recorded cs = Ret rqs'"
    "rqs = rq # rqs'" by auto
  with Cons.IH [of rqs'] show ?case by (simp add: fake_serve_eq record_request_def)
qed simp

lemma next_response_nth:
  assumes "n < 2 ^ 63" and "fs_fakeResponses f \<noteq> []" and "fs_fakeResponsesIdx f = of_nat n"
  shows "fst (next_response f) = Ret (fs_fakeResponses f ! (n mod length (fs_fakeResponses f)))"
proof -
  have "sint (of_nat n :: 64 word) = int n"
    using assms(1) by (simp add: signed_of_nat signed_take_bit_int_eq_self)
  then have "sint (fs_fakeResponsesIdx f) smod int (length (fs_fakeResponses f)) =
      int (n mod length (fs_fakeResponses f))"
    using assms(3) by (simp add: signed_modulo_int_def sgn_if zmod_int)
  then show ?thesis by (simp add: next_response_def Let_def)
qed

section \<open>Conversions invert each other\<close>

definition drop_headers :: "ResponseOp \<Rightarrow> ResponseOp" where
  "drop_headers x = x\<lparr>xo_get := map_option (\<lambda>r. r\<lparr>gr_Header := None\<rparr>) (xo_get x),
     xo_put := map_option (\<lambda>r. r\<lparr>pu_Header := None\<rparr>) (xo_put x),
     xo_delete := map_option (\<lambda>r. r\<lparr>de_Header := None\<rparr>) (xo_delete x)\<rparr>"

lemma convKeyValuesToProto_loop_eq: "convKeyValuesToProto_loop kvs out = out @ kvs"
  by (induction kvs arbitrary: out) auto

lemma convKeyValuesToProto_id [simp]: "convKeyValuesToProto kvs = kvs"
  by (simp add: convKeyValuesToProto_def convKeyValuesToProto_loop_eq)

lemma convResponsesToProto_loop_back:
  "go_map NewResponseOp xs = Ret os \<Longrightarrow>
     \<exists>ps. convResponsesToProto_loop (map Some os) out = Ret (out @ ps) \<and>
       map resp_of (List.map_filter so_Response ps) = map drop_headers os"
proof (induction xs arbitrary: os out)
  case (Cons x xs)
  then obtain y os' where y: "NewResponseOp x = Ret y" "go_map NewResponseOp xs = Ret os'"
    "os = y # os'" by auto
  show ?case
  proof (cases x)
    case (AnyGet r)
    with Cons.IH [OF y(2), of "out @ [_]"] y show ?thesis
      by (fastforce simp: drop_headers_def List.map_filter_simps)
  next
    case (AnyPut r)
    with Cons.IH [OF y(2), of "out @ [_]"] y show ?thesis
      by (fastforce simp: drop_headers_def List.map_filter_simps)
  next
    case (AnyDelete r)
    with Cons.IH [OF y(2), of "out @ [_]"] y show ?thesis
      by (fastforce simp: drop_headers_def List.map_filter_simps)
  qed (use y in auto)
qed (simp add: List.map_filter_simps)

lemma convToOp_toRequestOp:
  "toRequestOp x = Ret r \<Longrightarrow> \<exists>y. convToOp r = Ret y \<and> toRequestOp y = Ret r \<and>
     op_t (op_f y) = op_t (op_f x)"
  by (cases x) (auto simp: zero_fields_def split: opType.splits)

lemma map_convToOp_toRequestOp:
  "go_map toRequestOp xs = Ret rs \<Longrightarrow> \<exists>ys. go_map convToOp rs = Ret ys \<and>
     go_map toRequestOp ys = Ret rs \<and> map (op_t \<circ> op_f) ys = map (op_t \<circ> op_f) xs"
proof (induction xs arbitrary: rs)
  case (Cons x xs)
  then obtain r rs' where r: "toRequestOp x = Ret r" "go_map toRequestOp xs = Ret rs'" "rs = r # rs'"
    by auto
  from convToOp_toRequestOp [OF r(1)] Cons.IH [OF r(2)] r(3) show ?case by fastforce
qed simp

text \<open>A recorded transaction stands for its request; responses come back from their messages.\<close>

lemma recorded_txn:
  assumes "toTxnRequest x table = Ret r"
  shows "\<exists>q. convTxnToRequest (Some r) = Ret q \<and> rq_Table q = table \<and>
    toTxnRequest (rq_Request q) table = Ret r \<and>
    map (op_t \<circ> op_f) (op_thenOps (rq_Request q)) = map (op_t \<circ> op_f) (op_thenOps x) \<and>
    map (op_t \<circ> op_f) (op_elseOps (rq_Request q)) = map (op_t \<circ> op_f) (op_elseOps x)"
proof -
  from assms obtain ts es where ops: "go_map toRequestOp (op_thenOps x) = Ret ts"
    "go_map toRequestOp (op_elseOps x) = Ret es" by (auto simp: toTxnRequest_def)
  from map_convToOp_toRequestOp [OF ops(1)] map_convToOp_toRequestOp [OF ops(2)] ops assms
  show ?thesis by (auto simp: toTxnRequest_def convTxnToRequest_def)
qed

lemma responses_back:
  assumes "go_map NewResponseOp xs = Ret os"
  shows "\<exists>ps. convResponsesToProto (map Some os) = Ret ps \<and>
    convResponseOps ps = Ret (map (Some \<circ> drop_headers) os)"
proof -
  obtain ps where "convResponsesToProto_loop (map Some os) [] = Ret ([] @ ps)"
    "map resp_of (List.map_filter so_Response ps) = map drop_headers os"
    using convResponsesToProto_loop_back [OF assms] by blast
  then show ?thesis
    by (metis append_Nil convResponseOps_eq convResponsesToProto_def map_map)
qed

section \<open>Properties\<close>


definition err_response :: "string \<Rightarrow> 'w FakeResponse" where
  "err_response m = \<lparr>fk_Response = no_OpResponse, fk_Err = Some (TextErr m)\<rparr>"


text \<open>A transaction that the fake server records stands for the request it was sent as:
  translating the recorded operation again gives the same request, and its operations are of
  the same types in the same order.\<close>

theorem fake_txn_roundtrip:
  assumes "toTxnRequest x table = Ret r"
  shows "\<exists>q. convTxnToRequest (Some r) = Ret q \<and> rq_Table q = table \<and>
    toTxnRequest (rq_Request q) table = Ret r \<and>
    map (op_t \<circ> op_f) (op_thenOps (rq_Request q)) = map (op_t \<circ> op_f) (op_thenOps x) \<and>
    map (op_t \<circ> op_f) (op_elseOps (rq_Request q)) = map (op_t \<circ> op_f) (op_elseOps x)"
  by (rule recorded_txn [OF assms])

theorem fake_txn_roundtrip_witness:
  "\<exists>q r. toTxnRequest (OpTxn [] [mkOp (put_fields [1] [2] [])] []) [7] = Ret r \<and>
     convTxnToRequest (Some r) = Ret q \<and> toTxnRequest (rq_Request q) [7] = Ret r"
proof -
  obtain r where r: "toTxnRequest (OpTxn [] [mkOp (put_fields [1] [2] [])] []) [7] = Ret r"
    by (simp add: toTxnRequest_def OpTxn_def put_fields_def zero_fields_def)
  from fake_txn_roundtrip [OF r] r show ?thesis by auto
qed

text \<open>The responses of a transaction's operations survive the way through the fake server and
  back through the client, apart from their headers, which operation responses do not carry.\<close>

theorem fake_responses_roundtrip:
  assumes "go_map NewResponseOp xs = Ret os"
  shows "\<exists>ps. convResponsesToProto (map Some os) = Ret ps \<and>
    convResponseOps ps = Ret (map (Some \<circ> drop_headers) os)"
  by (rule responses_back [OF assms])

theorem fake_responses_roundtrip_witness:
  "\<exists>ps. convResponsesToProto [Some \<lparr>xo_get = None, xo_put = Some \<lparr>pu_Header = None,
       pu_PrevKv = None\<rparr>, xo_delete = None\<rparr>] = Ret ps \<and>
     convResponseOps ps = Ret [Some \<lparr>xo_get = None, xo_put = Some \<lparr>pu_Header = None,
       pu_PrevKv = None\<rparr>, xo_delete = None\<rparr>]"
  using fake_responses_roundtrip [of "[AnyPut \<lparr>pu_Header = None, pu_PrevKv = None\<rparr>]"
      "[\<lparr>xo_get = None, xo_put = Some \<lparr>pu_Header = None, pu_PrevKv = None\<rparr>, xo_delete = None\<rparr>]"]
  by (simp add: drop_headers_def)

end
