(* ===== verification/Client_Hooks.thy ===== *)
theory Client_Hooks
  imports Client_KV
begin

text \<open>
  \<open>hooks.go\<close> and \<open>processHooks\<close> of \<open>config.go\<close>. A hook is any value; what matters of it is
  which of the five interfaces it implements, or that it is a slice of hooks. A method is
  \<open>None\<close> when the value does not have it. The client that a method is passed is a pointer it
  may keep, so that its effect is a change of the world.
\<close>

section \<open>Hooks\<close>

text \<open>The kinds of statistics gRPC reports, as far as the package's plugins tell them apart.\<close>

datatype RPCStats = InPayload nat | OutPayload nat | OtherRPCStats
datatype ConnStats = ConnBegin | ConnEnd

record 'w hook_methods =
  hm_OnNewClient :: "('w \<Rightarrow> 'w) option"
  hm_OnClientClosed :: "('w \<Rightarrow> 'w) option"
  hm_OnHandleRPC :: "('w ctx \<Rightarrow> RPCStats \<Rightarrow> 'w \<Rightarrow> 'w) option"
  hm_OnHandleConn :: "('w ctx \<Rightarrow> ConnStats \<Rightarrow> 'w \<Rightarrow> 'w) option"
  hm_OnKVCall :: "'w HookKVOpDo option"

datatype 'w Hook = HookValue "'w hook_methods" | HookSlice "'w Hook list"

fun getHooks :: "('w hook_methods \<Rightarrow> 'm option) \<Rightarrow> 'w Hook list \<Rightarrow> 'm list" where
  "getHooks sel [] = []"
| "getHooks sel (HookValue m # hs) =
     (case sel m of Some f \<Rightarrow> f # getHooks sel hs | None \<Rightarrow> getHooks sel hs)"
| "getHooks sel (HookSlice inner # hs) = getHooks sel hs"

fun callHooks :: "('w hook_methods \<Rightarrow> 'm option) \<Rightarrow> 'w Hook list \<Rightarrow> ('m \<Rightarrow> 'w \<Rightarrow> 'w) \<Rightarrow> 'w \<Rightarrow> 'w" where
  "callHooks sel [] fn w = w"
| "callHooks sel (HookValue m # hs) fn w =
     (case sel m of Some f \<Rightarrow> callHooks sel hs fn (fn f w) | None \<Rightarrow> callHooks sel hs fn w)"
| "callHooks sel (HookSlice inner # hs) fn w = callHooks sel hs fn w"

fun implementsAnyHook :: "'w Hook \<Rightarrow> bool" where
  "implementsAnyHook (HookValue m) =
     (if hm_OnNewClient m \<noteq> None \<or> hm_OnClientClosed m \<noteq> None \<or> hm_OnHandleRPC m \<noteq> None
       \<or> hm_OnHandleConn m \<noteq> None \<or> hm_OnKVCall m \<noteq> None then True else False)"
| "implementsAnyHook (HookSlice inner) = False"

text \<open>The loop of \<open>processHooks\<close>, with the hooks collected so far.\<close>

definition no_hook_error :: err where
  "no_hook_error = TextErr ''found an argument that implements no hook interfaces''"

function processHooks_loop :: "'w Hook list \<Rightarrow> 'w Hook list \<Rightarrow> err + 'w Hook list" where
  "processHooks_loop [] processed = Inr processed"
| "processHooks_loop (hook # hooks) processed =
     (if implementsAnyHook hook then processHooks_loop hooks (processed @ [hook])
      else (case hook of
          HookSlice innerHooks \<Rightarrow>
            (case processHooks_loop innerHooks [] of
               Inl e \<Rightarrow> Inl e
             | Inr inner \<Rightarrow> processHooks_loop hooks (processed @ inner))
        | HookValue m \<Rightarrow> Inl no_hook_error))"
  by pat_completeness auto
termination by (relation "measure (\<lambda>(hs, p). size_list size hs)") auto

definition processHooks :: "'w Hook list \<Rightarrow> err + 'w Hook list" where
  "processHooks hooks = processHooks_loop hooks []"

text \<open>The methods of \<open>client.go\<close> that gRPC's statistics handler calls.\<close>

definition HandleRPC :: "'w Hook list \<Rightarrow> 'w ctx \<Rightarrow> RPCStats \<Rightarrow> 'w \<Rightarrow> 'w" where
  "HandleRPC hooks c st = callHooks hm_OnHandleRPC hooks (\<lambda>h. h c st)"

definition HandleConn :: "'w Hook list \<Rightarrow> 'w ctx \<Rightarrow> ConnStats \<Rightarrow> 'w \<Rightarrow> 'w" where
  "HandleConn hooks c st = callHooks hm_OnHandleConn hooks (\<lambda>h. h c st)"

section \<open>Reference: the leaves of a nesting of hooks\<close>

fun leaves :: "'w Hook \<Rightarrow> 'w hook_methods list" where
  "leaves (HookValue m) = [m]"
| "leaves (HookSlice hs) = concat (map leaves hs)"

abbreviation all_leaves :: "'w Hook list \<Rightarrow> 'w hook_methods list" where
  "all_leaves hs \<equiv> concat (map leaves hs)"

lemma processHooks_loop_spec:
  "processHooks_loop hs acc =
     (if list_all (\<lambda>m. implementsAnyHook (HookValue m)) (all_leaves hs)
      then Inr (acc @ map HookValue (all_leaves hs)) else Inl no_hook_error)"
proof (induction hs acc rule: processHooks_loop.induct)
  case (2 hook hooks acc)
  show ?case
  proof (cases hook)
    case (HookValue m)
    then show ?thesis using "2.IH"(1) by (simp del: implementsAnyHook.simps(1))
  next
    case (HookSlice inner)
    then have "\<not> implementsAnyHook hook" by simp
    from "2.IH"(2) [OF this HookSlice] "2.IH"(3) [OF this HookSlice]
    show ?thesis by (auto simp: HookSlice simp del: implementsAnyHook.simps(1))
  qed
qed simp

lemma getHooks_values: "getHooks sel (map HookValue ms) = List.map_filter sel ms"
  by (induction ms) (auto simp: List.map_filter_simps split: option.splits)

lemma callHooks_fold: "callHooks sel hs fn w = fold fn (getHooks sel hs) w"
  by (induction sel hs fn w rule: callHooks.induct) (auto split: option.splits)

section \<open>Properties\<close>

text \<open>C33: \<open>processHooks\<close> flattens slices of hooks at any depth, keeping the order, and fails
  exactly when some value in them implements no hook interface.\<close>

theorem processHooks_flattens:
  "processHooks hs =
     (if list_all (\<lambda>m. implementsAnyHook (HookValue m)) (all_leaves hs)
      then Inr (map HookValue (all_leaves hs)) else Inl no_hook_error)"
  by (simp add: processHooks_def processHooks_loop_spec del: implementsAnyHook.simps)

text \<open>Calling the hooks of an interface calls the method of every processed hook that has it,
  once each, in the order of the leaves of the nesting.\<close>

theorem callHooks_after_processHooks:
  assumes "processHooks hs = Inr ps"
  shows "callHooks sel ps fn w = fold fn (List.map_filter sel (all_leaves hs)) w"
  using assms by (auto simp: processHooks_def processHooks_loop_spec callHooks_fold
      getHooks_values [symmetric] split: if_splits simp del: implementsAnyHook.simps)

definition closing_hook :: "nat \<Rightarrow> nat list hook_methods" where
  "closing_hook n = \<lparr>hm_OnNewClient = None, hm_OnClientClosed = Some (\<lambda>w. w @ [n]),
     hm_OnHandleRPC = None, hm_OnHandleConn = None, hm_OnKVCall = None\<rparr>"

theorem callHooks_after_processHooks_witness:
  "\<exists>ps. processHooks [HookSlice [HookValue (closing_hook 1), HookSlice [HookValue (closing_hook 2)]],
       HookValue (closing_hook 3)] = Inr ps \<and>
     callHooks hm_OnClientClosed ps (\<lambda>f. f) [] = [1, 2, 3]"
proof -
  let ?hs = "[HookSlice [HookValue (closing_hook 1), HookSlice [HookValue (closing_hook 2)]],
       HookValue (closing_hook 3)]"
  obtain ps where ps: "processHooks ?hs = Inr ps"
    by (simp add: processHooks_def closing_hook_def)
  with callHooks_after_processHooks [OF ps, of hm_OnClientClosed "\<lambda>f. f" "[]"] show ?thesis
    by (simp add: closing_hook_def List.map_filter_simps)
qed

end
