(* ===== verification/Client_TLS.thy ===== *)
theory Client_TLS
  imports Go_Errors "HOL-Library.Monad_Syntax"
begin

text \<open>
  \<open>tls.go\<close> and \<open>newTLSConfig\<close> of \<open>config.go\<close>: how the names of certificate files become a TLS
  configuration. The file system is a state \<open>'w\<close>, read anew by the callbacks of the
  configuration at every handshake; reading files, PEM and X.509 are a parameter, a record of
  the functions of \<open>os\<close>, \<open>encoding/pem\<close>, \<open>crypto/x509\<close> and \<open>crypto/tls\<close> that the code calls.
\<close>

record ('cert, 'x509, 'w) tls_env =
  te_ReadFile :: "'w \<Rightarrow> string \<Rightarrow> err + bytes"
  te_X509KeyPair :: "bytes \<Rightarrow> bytes \<Rightarrow> err + 'cert"
  te_ParseCertificate :: "bytes \<Rightarrow> err + 'x509"
  te_CommonName :: "'x509 \<Rightarrow> string"
  te_VerifyHostname :: "'x509 \<Rightarrow> string \<Rightarrow> err option"
  te_pem_Decode :: "bytes \<Rightarrow> bytes option \<times> bytes"
  te_Error :: "err \<Rightarrow> string"

text \<open>
  \<open>parseFunc\<close> may keep a state of its own: the closure of \<open>ClientConfig\<close> notes the common name.
\<close>

type_synonym ('cert, 's) parse_func = "bytes \<Rightarrow> bytes \<Rightarrow> 's \<Rightarrow> ((err + 'cert) \<times> 's) go"

record 'cert TLSInfo =
  CertFile :: string
  KeyFile :: string
  ClientCertFile :: string
  ClientKeyFile :: string
  TrustedCAFile :: string
  ClientCertAuth :: bool
  CRLFile :: string
  InsecureSkipVerify :: bool
  SkipClientSANVerify :: bool
  ServerName :: string
  CipherSuites :: "16 word list"
  selfCert :: bool
  parseFunc :: "('cert, unit) parse_func option"
  AllowedCN :: string
  AllowedHostname :: string
  EmptyCN :: bool

record ('cert, 'x509, 'w) tls_Config =
  tc_MinVersion :: "16 word"
  tc_MaxVersion :: "16 word"
  tc_ServerName :: string
  tc_InsecureSkipVerify :: bool
  tc_CipherSuites :: "16 word list"
  tc_RootCAs :: "'x509 list option"
  tc_VerifyPeerCertificate :: "('x509 list list \<Rightarrow> err option) option"
  tc_GetCertificate :: "('w \<Rightarrow> (err + 'cert) go) option"
  tc_GetClientCertificate :: "('w \<Rightarrow> (err + 'cert) go) option"

definition VersionTLS12 :: "16 word" where "VersionTLS12 = 0x0303"
definition VersionTLS13 :: "16 word" where "VersionTLS13 = 0x0304"

definition zero_tls_Config :: "('cert, 'x509, 'w) tls_Config" where
  "zero_tls_Config = \<lparr>tc_MinVersion = 0, tc_MaxVersion = 0, tc_ServerName = [],
     tc_InsecureSkipVerify = False, tc_CipherSuites = [], tc_RootCAs = None,
     tc_VerifyPeerCertificate = None, tc_GetCertificate = None, tc_GetClientCertificate = None\<rparr>"

section \<open>Certificates\<close>

definition newCert ::
  "('cert, 'x509, 'w) tls_env \<Rightarrow> 'w \<Rightarrow> string \<Rightarrow> string \<Rightarrow> ('cert, 's) parse_func option \<Rightarrow> 's \<Rightarrow>
     ((err + 'cert) \<times> 's) go" where
  "newCert E fs certfile keyfile parse s =
     (case te_ReadFile E fs certfile of Inl e \<Rightarrow> Ret (Inl e, s)
      | Inr cert \<Rightarrow>
          (case te_ReadFile E fs keyfile of Inl e \<Rightarrow> Ret (Inl e, s)
           | Inr key \<Rightarrow>
               (case parse of None \<Rightarrow> Ret (te_X509KeyPair E cert key, s)
                | Some f \<Rightarrow> f cert key s)))"

text \<open>The inner loop of \<open>newCertPool\<close>; \<open>None\<close> when it never ends.\<close>

partial_function (option) pool_loop ::
  "('cert, 'x509, 'w) tls_env \<Rightarrow> bytes \<Rightarrow> 'x509 list \<Rightarrow> (err + 'x509 list) option" where
  "pool_loop E pemByte certPool =
     (case te_pem_Decode E pemByte of
        (None, rest) \<Rightarrow> Some (Inr certPool)
      | (Some block, rest) \<Rightarrow>
          (case te_ParseCertificate E block of
             Inl e \<Rightarrow> Some (Inl e)
           | Inr cert \<Rightarrow> pool_loop E rest (certPool @ [cert])))"

fun newCertPool_loop ::
  "('cert, 'x509, 'w) tls_env \<Rightarrow> 'w \<Rightarrow> string list \<Rightarrow> 'x509 list \<Rightarrow> (err + 'x509 list) option" where
  "newCertPool_loop E fs [] certPool = Some (Inr certPool)"
| "newCertPool_loop E fs (CAFile # CAFiles) certPool =
     (case te_ReadFile E fs CAFile of
        Inl e \<Rightarrow> Some (Inl e)
      | Inr pemByte \<Rightarrow>
          (case pool_loop E pemByte certPool of
             None \<Rightarrow> None
           | Some (Inl e) \<Rightarrow> Some (Inl e)
           | Some (Inr pool) \<Rightarrow> newCertPool_loop E fs CAFiles pool))"

definition newCertPool ::
  "('cert, 'x509, 'w) tls_env \<Rightarrow> 'w \<Rightarrow> string list \<Rightarrow> (err + 'x509 list) option" where
  "newCertPool E fs CAFiles = newCertPool_loop E fs CAFiles []"

section \<open>TLSInfo\<close>

definition tls_String :: "'cert TLSInfo \<Rightarrow> string" where
  "tls_String info = ''cert='' @ CertFile info @ '', key='' @ KeyFile info
     @ '', client-cert='' @ ClientCertFile info @ '', client-key='' @ ClientKeyFile info
     @ '', trusted-ca='' @ TrustedCAFile info
     @ '', client-cert-auth='' @ (if ClientCertAuth info then ''true'' else ''false'')
     @ '', crl-file='' @ CRLFile info"

definition tls_Empty :: "'cert TLSInfo \<Rightarrow> bool" where
  "tls_Empty info = (CertFile info = [] \<and> KeyFile info = [])"

definition cafiles :: "'cert TLSInfo \<Rightarrow> string list" where
  "cafiles info = (if TrustedCAFile info \<noteq> [] then [TrustedCAFile info] else [])"

fun verify_chains :: "('x509 \<Rightarrow> bool) \<Rightarrow> 'x509 list list \<Rightarrow> err option" where
  "verify_chains ok [] = Some (TextErr ''client certificate authentication failed'')"
| "verify_chains ok (chain # rest) =
     (if length chain \<noteq> 0 \<and> ok (chain ! 0) then None else verify_chains ok rest)"

definition run_newCert where
  "run_newCert E fs cert key parse = go_bind (newCert E fs cert key parse ()) (\<lambda>(r, _). Ret r)"

definition baseConfig ::
  "('cert, 'x509, 'w) tls_env \<Rightarrow> 'w \<Rightarrow> 'cert TLSInfo \<Rightarrow> (err + ('cert, 'x509, 'w) tls_Config) go" where
  "baseConfig E fs info =
     (if KeyFile info = [] \<or> CertFile info = [] then
        Ret (Inl (TextErr (''KeyFile and CertFile must both be present[key: '' @ KeyFile info @
          '', cert: '' @ CertFile info @ '']'')))
      else go_bind (run_newCert E fs (CertFile info) (KeyFile info) (parseFunc info)) (\<lambda>r.
        case r of Inl e \<Rightarrow> Ret (Inl e)
        | Inr _ \<Rightarrow>
          if (ClientKeyFile info = []) \<noteq> (ClientCertFile info = []) then
            Ret (Inl (TextErr (''ClientKeyFile and ClientCertFile must both be present or both absent: key: ''
              @ ClientKeyFile info @ '', cert: '' @ ClientCertFile info @ '']'')))
          else go_bind (if ClientCertFile info \<noteq> []
              then run_newCert E fs (ClientCertFile info) (ClientKeyFile info) (parseFunc info)
              else Ret r) (\<lambda>r2.
            case r2 of Inl e \<Rightarrow> Ret (Inl e)
            | Inr _ \<Rightarrow>
              if AllowedCN info \<noteq> [] \<and> AllowedHostname info \<noteq> [] then
                Ret (Inl (TextErr ''AllowedCN and AllowedHostname are mutually exclusive''))
              else
                (let verifyCertificate =
                       (if AllowedHostname info \<noteq> []
                        then Some (\<lambda>cert. te_VerifyHostname E cert (AllowedHostname info) = None)
                        else if AllowedCN info \<noteq> []
                        then Some (\<lambda>cert. AllowedCN info = te_CommonName E cert)
                        else None);
                     (certfile, keyfile) = (if ClientCertFile info \<noteq> []
                        then (ClientCertFile info, ClientKeyFile info)
                        else (CertFile info, KeyFile info))
                 in Ret (Inr (zero_tls_Config\<lparr>
                   tc_MinVersion := VersionTLS12, tc_ServerName := ServerName info,
                   tc_CipherSuites := CipherSuites info,
                   tc_VerifyPeerCertificate := map_option verify_chains verifyCertificate,
                   tc_GetCertificate := Some (\<lambda>fs.
                     run_newCert E fs (CertFile info) (KeyFile info) (parseFunc info)),
                   tc_GetClientCertificate := Some (\<lambda>fs.
                     run_newCert E fs certfile keyfile (parseFunc info))\<rparr>))))))"

text \<open>
  The parse function of the check for an empty common name: it keeps the last non-empty one. A
  certificate file without a PEM block is dereferenced as nil.
\<close>

definition cn_parse :: "('cert, 'x509, 'w) tls_env \<Rightarrow> ('cert, string) parse_func" where
  "cn_parse E certPEM keyPEM cn =
     (case te_pem_Decode E certPEM of
        (None, _) \<Rightarrow> Panic nil_deref
      | (Some block, _) \<Rightarrow>
          (case te_ParseCertificate E block of
             Inl e \<Rightarrow> Ret (Inl e, cn)
           | Inr cert \<Rightarrow> Ret (te_X509KeyPair E certPEM keyPEM,
               if length (te_CommonName E cert) \<noteq> 0 then te_CommonName E cert else cn)))"

definition ClientConfig ::
  "('cert, 'x509, 'w) tls_env \<Rightarrow> 'w \<Rightarrow> 'cert TLSInfo \<Rightarrow>
     (err + ('cert, 'x509, 'w) tls_Config) go option" where
  "ClientConfig E fs info =
     (case (if \<not> tls_Empty info then baseConfig E fs info
            else Ret (Inr (zero_tls_Config\<lparr>tc_ServerName := ServerName info,
              tc_MinVersion := VersionTLS12, tc_MaxVersion := VersionTLS13\<rparr>))) of
        Panic m \<Rightarrow> Some (Panic m)
      | Ret (Inl e) \<Rightarrow> Some (Ret (Inl e))
      | Ret (Inr cfg0) \<Rightarrow>
          (let cfg1 = cfg0\<lparr>tc_InsecureSkipVerify := InsecureSkipVerify info\<rparr>;
               cs = cafiles info
           in case (if 0 < length cs then map_option (map_sum id Some) (newCertPool E fs cs)
                    else Some (Inr (tc_RootCAs cfg1))) of
                None \<Rightarrow> None
              | Some (Inl e) \<Rightarrow> Some (Ret (Inl e))
              | Some (Inr pool) \<Rightarrow>
                  (let cfg2 = cfg1\<lparr>tc_RootCAs := pool\<rparr>;
                       cfg3 = (if selfCert info then cfg2\<lparr>tc_InsecureSkipVerify := True\<rparr> else cfg2)
                   in Some (if EmptyCN info then
                        go_bind (newCert E fs (CertFile info) (KeyFile info) (Some (cn_parse E)) [])
                          (\<lambda>(r, cn). case r of Inl e \<Rightarrow> Ret (Inl e)
                             | Inr _ \<Rightarrow> if cn \<noteq> [] then Ret (Inl (TextErr (''cert has non empty Common Name (''
                                 @ cn @ ''): '' @ CertFile info))) else Ret (Inr cfg3))
                      else Ret (Inr cfg3)))))"

section \<open>newTLSConfig\<close>

record SecureConfig =
  sc_Cert :: string
  sc_Key :: string
  sc_Cacert :: string
  sc_ServerName :: string
  sc_InsecureTransport :: bool
  sc_InsecureSkipVerify :: bool

definition tls_info_of :: "SecureConfig \<Rightarrow> 'cert TLSInfo" where
  "tls_info_of scfg = \<lparr>CertFile = sc_Cert scfg, KeyFile = sc_Key scfg, ClientCertFile = [],
     ClientKeyFile = [], TrustedCAFile = sc_Cacert scfg, ClientCertAuth = False, CRLFile = [],
     InsecureSkipVerify = False, SkipClientSANVerify = False, ServerName = sc_ServerName scfg,
     CipherSuites = [], selfCert = False, parseFunc = None, AllowedCN = [], AllowedHostname = [],
     EmptyCN = False\<rparr>"

definition newTLSConfig ::
  "('cert, 'x509, 'w) tls_env \<Rightarrow> 'w \<Rightarrow> SecureConfig option \<Rightarrow>
     ('cert, 'x509, 'w) tls_Config option go option" where
  "newTLSConfig E fs p =
     (case p of None \<Rightarrow> Some (Ret None)
      | Some scfg \<Rightarrow>
          (let plain = zero_tls_Config\<lparr>tc_MinVersion := VersionTLS12, tc_MaxVersion := VersionTLS13\<rparr>
           in case (if sc_Cert scfg \<noteq> [] \<or> sc_Key scfg \<noteq> [] \<or> sc_Cacert scfg \<noteq> []
                      \<or> sc_ServerName scfg \<noteq> []
                    then map_option (\<lambda>g. go_bind g (\<lambda>r. case r of
                        Inl e \<Rightarrow> Panic (te_Error E e)
                      | Inr c \<Rightarrow> Ret (Some c))) (ClientConfig E fs (tls_info_of scfg))
                    else Some (Ret None)) of
                None \<Rightarrow> None
              | Some (Panic m) \<Rightarrow> Some (Panic m)
              | Some (Ret t1) \<Rightarrow>
                  (let t2 = (if t1 = None \<and> \<not> sc_InsecureTransport scfg then Some plain else t1);
                       t3 = (if sc_InsecureSkipVerify scfg
                         then Some ((case t2 of None \<Rightarrow> plain | Some c \<Rightarrow> c)
                           \<lparr>tc_InsecureSkipVerify := True\<rparr>)
                         else t2)
                   in Some (Ret t3))))"

section \<open>Facts\<close>

text \<open>PEM decoding makes progress: what is left after a block is shorter.\<close>

definition pem_ok :: "('cert, 'x509, 'w) tls_env \<Rightarrow> bool" where
  "pem_ok E \<longleftrightarrow> (\<forall>bs block rest. te_pem_Decode E bs = (Some block, rest) \<longrightarrow> length rest < length bs)"

lemma pool_loop_returns: "pem_ok E \<Longrightarrow> \<exists>r. pool_loop E bs pool = Some r"
proof (induction "length bs" arbitrary: bs pool rule: less_induct)
  case less
  obtain b rest where dec: "te_pem_Decode E bs = (b, rest)" by fastforce
  show ?case
  proof (cases b)
    case None
    with dec show ?thesis by (subst pool_loop.simps) simp
  next
    case (Some block)
    with dec less.prems have "length rest < length bs" by (auto simp: pem_ok_def)
    from less.hyps [OF this less.prems] dec Some show ?thesis
      by (subst pool_loop.simps) (auto split: sum.split)
  qed
qed

lemma newCertPool_loop_returns: "pem_ok E \<Longrightarrow> \<exists>r. newCertPool_loop E fs cas pool = Some r"
proof (induction cas arbitrary: pool)
  case (Cons ca cas)
  show ?case
  proof (cases "te_ReadFile E fs ca")
    case (Inr bs)
    obtain r where "pool_loop E bs pool = Some r" using pool_loop_returns [OF Cons.prems] by blast
    with Inr Cons show ?thesis by (cases r) simp_all
  qed simp
qed simp

lemma verify_chains_iff:
  "verify_chains ok cs = None \<longleftrightarrow> list_ex (\<lambda>c. c \<noteq> [] \<and> ok (hd c)) cs"
  by (induction cs) (auto simp: hd_conv_nth)

lemma baseConfig_Inr:
  "baseConfig E fs info = Ret (Inr c) \<Longrightarrow>
     CertFile info \<noteq> [] \<and> KeyFile info \<noteq> [] \<and>
     (AllowedCN info = [] \<or> AllowedHostname info = []) \<and>
     (ClientKeyFile info = [] \<longleftrightarrow> ClientCertFile info = []) \<and>
     c = zero_tls_Config\<lparr>tc_MinVersion := VersionTLS12, tc_ServerName := ServerName info,
       tc_CipherSuites := CipherSuites info,
       tc_VerifyPeerCertificate := map_option verify_chains
         (if AllowedHostname info \<noteq> []
          then Some (\<lambda>cert. te_VerifyHostname E cert (AllowedHostname info) = None)
          else if AllowedCN info \<noteq> []
          then Some (\<lambda>cert. AllowedCN info = te_CommonName E cert) else None),
       tc_GetCertificate := Some (\<lambda>fs. run_newCert E fs (CertFile info) (KeyFile info) (parseFunc info)),
       tc_GetClientCertificate := Some (\<lambda>fs. if ClientCertFile info \<noteq> []
          then run_newCert E fs (ClientCertFile info) (ClientKeyFile info) (parseFunc info)
          else run_newCert E fs (CertFile info) (KeyFile info) (parseFunc info))\<rparr>"
  by (auto simp: baseConfig_def Let_def split: if_splits sum.splits) (metis sum.exhaust)+

lemma ClientConfig_Inr:
  assumes "ClientConfig E fs info = Some (Ret (Inr c))"
  shows "tc_MinVersion c = VersionTLS12 \<and> tc_ServerName c = ServerName info \<and>
    tc_InsecureSkipVerify c = (InsecureSkipVerify info \<or> selfCert info) \<and>
    (tls_Empty info \<longrightarrow> tc_VerifyPeerCertificate c = None) \<and>
    (\<not> tls_Empty info \<longrightarrow> (\<exists>c0. baseConfig E fs info = Ret (Inr c0) \<and>
       tc_VerifyPeerCertificate c = tc_VerifyPeerCertificate c0 \<and>
       tc_GetClientCertificate c = tc_GetClientCertificate c0))"
  using assms
  by (auto simp: ClientConfig_def Let_def zero_tls_Config_def dest!: baseConfig_Inr
      split: if_splits sum.splits go.splits option.splits prod.splits)

section \<open>Properties\<close>

text \<open>C29: Every configuration that \<open>ClientConfig\<close> returns requires TLS 1.2 at least, checks the
  certificate against the given server name, and skips verification only when the caller asks
  for it or marks the certificate as self-signed.\<close>

theorem ClientConfig_secure:
  assumes "ClientConfig E fs info = Some (Ret (Inr c))"
  shows "tc_MinVersion c = VersionTLS12 \<and> tc_ServerName c = ServerName info \<and>
    tc_InsecureSkipVerify c = (InsecureSkipVerify info \<or> selfCert info)"
  using ClientConfig_Inr [OF assms] by simp

text \<open>Files that are all the same one byte, and certificates that always parse.\<close>

definition one_cert_env :: "(nat, nat, unit) tls_env" where
  "one_cert_env = \<lparr>te_ReadFile = (\<lambda>w f. Inr [1]), te_X509KeyPair = (\<lambda>c k. Inr 0),
     te_ParseCertificate = (\<lambda>b. Inr (length b)), te_CommonName = (\<lambda>c. if c = 0 then ''root'' else ''db''),
     te_VerifyHostname = (\<lambda>c h. None),
     te_pem_Decode = (\<lambda>b. if b = [] then (None, []) else (Some b, [])), te_Error = (\<lambda>e. [])\<rparr>"

definition db_info :: "nat TLSInfo" where
  "db_info = (tls_info_of \<lparr>sc_Cert = ''c.pem'', sc_Key = ''k.pem'', sc_Cacert = [], sc_ServerName = ''db'',
     sc_InsecureTransport = False, sc_InsecureSkipVerify = False\<rparr>)\<lparr>AllowedCN := ''db''\<rparr>"

lemma db_info_config: "\<exists>c. ClientConfig one_cert_env () db_info = Some (Ret (Inr c))"
  by (simp add: ClientConfig_def baseConfig_def one_cert_env_def db_info_def tls_info_of_def
      run_newCert_def newCert_def tls_Empty_def cafiles_def Let_def)

theorem ClientConfig_secure_witness:
  "\<exists>c. ClientConfig one_cert_env () db_info = Some (Ret (Inr c)) \<and> tc_ServerName c = ''db'' \<and>
     tc_InsecureSkipVerify c = False"
  using ClientConfig_secure [of one_cert_env "()" db_info] db_info_config
  by (auto simp: db_info_def tls_info_of_def)



text \<open>C31: A secure configuration never ends up without TLS by accident: no TLS configuration is
  returned only when none was asked for or the insecure transport was; any other requires TLS
  1.2, and skips verification exactly when told so.\<close>

theorem newTLSConfig_outcome:
  assumes "newTLSConfig E fs p = Some (Ret r)"
  shows "case r of
      None \<Rightarrow> (case p of None \<Rightarrow> True | Some scfg \<Rightarrow> sc_InsecureTransport scfg \<and> \<not> sc_InsecureSkipVerify scfg)
    | Some c \<Rightarrow> (case p of None \<Rightarrow> False | Some scfg \<Rightarrow> tc_MinVersion c = VersionTLS12 \<and>
        tc_ServerName c = sc_ServerName scfg \<and> tc_InsecureSkipVerify c = sc_InsecureSkipVerify scfg)"
proof (cases p)
  case None
  with assms show ?thesis by (simp add: newTLSConfig_def)
next
  case (Some scfg)
  show ?thesis
  proof (cases "sc_Cert scfg \<noteq> [] \<or> sc_Key scfg \<noteq> [] \<or> sc_Cacert scfg \<noteq> [] \<or> sc_ServerName scfg \<noteq> []")
    case False
    with Some assms show ?thesis
      by (auto simp: newTLSConfig_def Let_def zero_tls_Config_def split: if_splits)
  next
    case True
    with Some assms obtain c where c: "ClientConfig E fs (tls_info_of scfg) = Some (Ret (Inr c))"
      by (auto simp: newTLSConfig_def Let_def split: option.splits go.splits sum.splits)
    with Some True assms have "r = Some (if sc_InsecureSkipVerify scfg then c\<lparr>tc_InsecureSkipVerify := True\<rparr> else c)"
      by (auto simp: newTLSConfig_def Let_def)
    with Some ClientConfig_Inr [OF c] show ?thesis by (simp add: tls_info_of_def)
  qed
qed

theorem newTLSConfig_outcome_witness:
  "newTLSConfig one_cert_env () (Some \<lparr>sc_Cert = [], sc_Key = [], sc_Cacert = [], sc_ServerName = [],
       sc_InsecureTransport = True, sc_InsecureSkipVerify = False\<rparr>) = Some (Ret None)"
proof -
  let ?p = "Some \<lparr>sc_Cert = [], sc_Key = [], sc_Cacert = [], sc_ServerName = [],
       sc_InsecureTransport = True, sc_InsecureSkipVerify = False\<rparr>"
  obtain r where r: "newTLSConfig one_cert_env () ?p = Some (Ret r)" by (simp add: newTLSConfig_def)
  from newTLSConfig_outcome [OF r] r show ?thesis
    by (simp add: newTLSConfig_def)
qed

text \<open>Loading the certificates always ends when decoding PEM makes progress.\<close>

theorem ClientConfig_returns:
  assumes "pem_ok E"
  shows "\<exists>r. ClientConfig E fs info = Some r"
proof -
  obtain pool where "newCertPool E fs (cafiles info) = Some pool"
    using newCertPool_loop_returns [OF assms, of fs "cafiles info" "[]"]
    by (auto simp: newCertPool_def)
  then show ?thesis
    by (cases pool) (auto simp: ClientConfig_def Let_def split: go.splits sum.splits)
qed

theorem ClientConfig_returns_witness:
  "\<exists>r. ClientConfig one_cert_env () (db_info\<lparr>TrustedCAFile := ''ca.pem''\<rparr>) = Some r"
  by (rule ClientConfig_returns) (simp add: pem_ok_def one_cert_env_def)

end
