(* ===== verification/Client_Retry.thy ===== *)
theory Client_Retry
  imports Client_KV
begin

text \<open>
  \<open>interceptor.go\<close>: the retrying interceptors for unary and for server-streaming calls. What
  gRPC provides is a parameter: the invoker of a unary call, the streamer that opens a stream
  and the operations on a stream, each a function that threads the world \<open>'w\<close>. So is the
  wait of \<open>waitRetryBackoff\<close>: \<open>select\<close> says whether the context was done before the timer
  fired. Logging does not affect a result and is left out.
\<close>

type_synonym 'w select_wait = "'w ctx \<Rightarrow> duration \<Rightarrow> 'w \<Rightarrow> bool \<times> 'w"

section \<open>Classification of errors\<close>

definition isContextError :: "status_pkg \<Rightarrow> err \<Rightarrow> bool" where
  "isContextError S e = (StatusCode S e = DeadlineExceeded \<or> StatusCode S e = Canceled)"

definition ErrorDesc :: "status_pkg \<Rightarrow> err \<Rightarrow> string" where
  "ErrorDesc S e = (case FromError S e of ((cd, m), ok) \<Rightarrow> if ok then m else ErrorText S e)"

definition isSafeRetryImmutableRPC :: "status_pkg \<Rightarrow> err \<Rightarrow> bool" where
  "isSafeRetryImmutableRPC S e =
     (case FromError S e of ((cd, m), ok) \<Rightarrow> if \<not> ok then False else cd = Unavailable)"

definition isSafeRetryMutableRPC :: "status_pkg \<Rightarrow> err \<Rightarrow> bool" where
  "isSafeRetryMutableRPC S e =
     (case FromError S e of ((cd, m), ok) \<Rightarrow>
        if ok \<and> cd \<noteq> Unavailable then False
        else ErrorDesc S e = ''there is no address available'' \<or>
          ErrorDesc S e = ''there is no connection available'')"

definition isSafeRetry :: "status_pkg \<Rightarrow> err \<Rightarrow> 'w options \<Rightarrow> bool" where
  "isSafeRetry S e callOpts =
     (if isContextError S e then False
      else if opt_retryPolicy callOpts = repeatable then isSafeRetryImmutableRPC S e
      else if opt_retryPolicy callOpts = nonRepeatable then isSafeRetryMutableRPC S e
      else False)"

text \<open>Called with the context's error, which is nil when the context is not done.\<close>

definition contextErrToGrpcErr :: "status_pkg \<Rightarrow> err option \<Rightarrow> err go" where
  "contextErrToGrpcErr S e =
     (if e \<noteq> None \<and> errors_Is (the e) CtxDeadlineExceeded
      then Ret (Errorf S DeadlineExceeded (ErrorText S (the e)))
      else if e \<noteq> None \<and> errors_Is (the e) CtxCanceled
      then Ret (Errorf S Canceled (ErrorText S (the e)))
      else go_bind (go_deref e) (\<lambda>e. Ret (Errorf S Unknown (ErrorText S e))))"

section \<open>Options of a call\<close>

fun apply_retryOptions :: "'w retryOption list \<Rightarrow> 'w options \<Rightarrow> 'w options" where
  "apply_retryOptions [] o' = o'"
| "apply_retryOptions (f # fs) o' = apply_retryOptions fs (f o')"

definition reuseOrNewWithCallOptions ::
  "'w options \<Rightarrow> 'w retryOption list \<Rightarrow> 'w options" where
  "reuseOrNewWithCallOptions o' retryOptions =
     (if length retryOptions = 0 then o' else apply_retryOptions retryOptions o')"

fun filterCallOptions_loop ::
  "'w CallOption list \<Rightarrow> string list \<Rightarrow> 'w retryOption list \<Rightarrow> string list \<times> 'w retryOption list"
where
  "filterCallOptions_loop [] gs rs = (gs, rs)"
| "filterCallOptions_loop (RetryCallOption co # opts) gs rs =
     filterCallOptions_loop opts gs (rs @ [co])"
| "filterCallOptions_loop (GrpcCallOption g # opts) gs rs =
     filterCallOptions_loop opts (gs @ [g]) rs"

definition filterCallOptions :: "'w CallOption list \<Rightarrow> string list \<times> 'w retryOption list" where
  "filterCallOptions opts = filterCallOptions_loop opts [] []"

section \<open>Unary calls\<close>

definition waitRetryBackoff ::
  "status_pkg \<Rightarrow> 'w select_wait \<Rightarrow> 'w ctx \<Rightarrow> uint64 \<Rightarrow> 'w options \<Rightarrow> 'w \<Rightarrow> err option go \<times> 'w" where
  "waitRetryBackoff S select c attempt callOpts w =
     (case (if 0 < attempt then opt_backoffFunc callOpts attempt w else (0, w)) of
        (waitTime, w1) \<Rightarrow>
          if 0 < waitTime then
            (case select c waitTime w1 of
               (True, w2) \<Rightarrow>
                 (go_bind (contextErrToGrpcErr S (ctx_Err c w2)) (\<lambda>e. Ret (Some e)), w2)
             | (False, w2) \<Rightarrow> (Ret None, w2))
          else (Ret None, w1))"

text \<open>The invoker of one call: its method, request, reply and connection are fixed.\<close>

type_synonym 'w invoker = "'w ctx \<Rightarrow> string list \<Rightarrow> 'w \<Rightarrow> err option \<times> 'w"

function unary_loop ::
  "status_pkg \<Rightarrow> 'w select_wait \<Rightarrow> 'w ctx \<Rightarrow> 'w options \<Rightarrow> ('w \<Rightarrow> err option \<times> 'w) \<Rightarrow> uint64 \<Rightarrow>
     err option \<Rightarrow> 'w \<Rightarrow> err option go \<times> 'w" where
  "unary_loop S select c callOpts invoke attempt lastErr w =
     (if attempt < opt_max callOpts then
        (case waitRetryBackoff S select c attempt callOpts w of
           (Panic m, w1) \<Rightarrow> (Panic m, w1)
         | (Ret (Some e), w1) \<Rightarrow> (Ret (Some e), w1)
         | (Ret None, w1) \<Rightarrow>
             (case invoke w1 of
                (None, w2) \<Rightarrow> (Ret None, w2)
              | (Some e, w2) \<Rightarrow>
                  if isContextError S e then
                    (if ctx_Err c w2 \<noteq> None then (Ret (Some e), w2)
                     else unary_loop S select c callOpts invoke (attempt + 1) (Some e) w2)
                  else if \<not> isSafeRetry S e callOpts then (Ret (Some e), w2)
                  else unary_loop S select c callOpts invoke (attempt + 1) (Some e) w2))
      else (Ret lastErr, w))"
  by pat_completeness auto
termination
  by (relation "measure (\<lambda>(S, sel, c, co, inv, attempt, l, w). unat (opt_max co) - unat attempt)")
    (auto simp: word_less_Suc_measure)

declare unary_loop.simps [simp del]

definition unaryClientInterceptor ::
  "status_pkg \<Rightarrow> 'w jitterFunc \<Rightarrow> 'w select_wait \<Rightarrow> 'w retryOption list \<Rightarrow>
     'w ctx \<Rightarrow> 'w invoker \<Rightarrow> 'w CallOption list \<Rightarrow> 'w \<Rightarrow> err option go \<times> 'w" where
  "unaryClientInterceptor S jitter select optFuncs =
     (let intOpts = reuseOrNewWithCallOptions (defaultOptions jitter) optFuncs in
      (\<lambda>c invoker opts w.
         let c = withVersion c;
             (grpcOpts, retryOpts) = filterCallOptions opts;
             callOpts = reuseOrNewWithCallOptions intOpts retryOpts
         in if opt_max callOpts = 0 then (case invoker c grpcOpts w of (e, w1) \<Rightarrow> (Ret e, w1))
            else unary_loop S select c callOpts (invoker c grpcOpts) 0 None w))"

section \<open>Streaming calls\<close>

text \<open>A stream of gRPC is a handle \<open>'h\<close>; messages sent on it have type \<open>'m\<close>.\<close>

record ('h, 'm, 'w) stream_api =
  sa_SendMsg :: "'h \<Rightarrow> 'm \<Rightarrow> 'w \<Rightarrow> err option \<times> 'w"
  sa_RecvMsg :: "'h \<Rightarrow> 'w \<Rightarrow> err option \<times> 'w"
  sa_CloseSend :: "'h \<Rightarrow> 'w \<Rightarrow> err option \<times> 'w"

record ('h, 'm, 'w) retrying_stream =
  ss_ClientStream :: 'h
  ss_bufferedSends :: "'m list"
  ss_receivedGood :: bool
  ss_wasClosedSend :: bool
  ss_ctx :: "'w ctx"
  ss_callOpts :: "'w options"
  ss_streamerCall :: "'w ctx \<Rightarrow> 'w \<Rightarrow> (err + 'h) \<times> 'w"

definition ss_setStream :: "'h \<Rightarrow> ('h, 'm, 'w) retrying_stream \<Rightarrow> ('h, 'm, 'w) retrying_stream" where
  "ss_setStream h s = s\<lparr>ss_ClientStream := h\<rparr>"

definition ss_getStream :: "('h, 'm, 'w) retrying_stream \<Rightarrow> 'h" where
  "ss_getStream s = ss_ClientStream s"

text \<open>The header and the trailer are those gRPC has for the stream as it is now.\<close>

definition ss_Header where
  "ss_Header header s w = (header (ss_getStream s) w :: (err + (string \<rightharpoonup> string list)) \<times> 'w)"

definition ss_Trailer where
  "ss_Trailer trailer s w = (trailer (ss_getStream s) w :: (string \<rightharpoonup> string list) \<times> 'w)"

definition ss_SendMsg where
  "ss_SendMsg api m s w =
     (let s1 = s\<lparr>ss_bufferedSends := ss_bufferedSends s @ [m]\<rparr>
      in case sa_SendMsg api (ss_ClientStream s1) m w of (e, w1) \<Rightarrow> (e, s1, w1))"

definition ss_CloseSend where
  "ss_CloseSend api s w =
     (let s1 = s\<lparr>ss_wasClosedSend := True\<rparr>
      in case sa_CloseSend api (ss_ClientStream s1) w of (e, w1) \<Rightarrow> (e, s1, w1))"

definition receiveMsgAndIndicateRetry where
  "receiveMsgAndIndicateRetry S api s w =
     (let wasGood = ss_receivedGood s in
      case sa_RecvMsg api (ss_ClientStream s) w of
        (e, w1) \<Rightarrow>
          if e = None \<or> e = Some IoEOF then ((False, e), s\<lparr>ss_receivedGood := True\<rparr>, w1)
          else if wasGood then ((False, e), s, w1)
          else if isContextError S (the e) then
            (if ctx_Err (ss_ctx s) w1 \<noteq> None then ((False, e), s, w1) else ((True, e), s, w1))
          else ((isSafeRetry S (the e) (ss_callOpts s), e), s, w1))"

fun resend_loop :: "('h, 'm, 'w) stream_api \<Rightarrow> 'h \<Rightarrow> 'm list \<Rightarrow> 'w \<Rightarrow> err option \<times> 'w" where
  "resend_loop api h [] w = (None, w)"
| "resend_loop api h (m # ms) w =
     (case sa_SendMsg api h m w of
        (Some e, w1) \<Rightarrow> (Some e, w1)
      | (None, w1) \<Rightarrow> resend_loop api h ms w1)"

definition reestablishStreamAndResendBuffer where
  "reestablishStreamAndResendBuffer api s w =
     (case ss_streamerCall s (ss_ctx s) w of
        (Inl e, w1) \<Rightarrow> (Inl e, w1)
      | (Inr h, w1) \<Rightarrow>
          (case resend_loop api h (ss_bufferedSends s) w1 of
             (Some e, w2) \<Rightarrow> (Inl e, w2)
           | (None, w2) \<Rightarrow>
               (case sa_CloseSend api h w2 of
                  (Some e, w3) \<Rightarrow> (Inl e, w3)
                | (None, w3) \<Rightarrow> (Inr h, w3))))"

function recv_loop ::
  "status_pkg \<Rightarrow> 'w select_wait \<Rightarrow> ('h, 'm, 'w) stream_api \<Rightarrow> uint64 \<Rightarrow> err option \<Rightarrow>
     ('h, 'm, 'w) retrying_stream \<Rightarrow> 'w \<Rightarrow> err option go \<times> ('h, 'm, 'w) retrying_stream \<times> 'w" where
  "recv_loop S select api attempt lastErr s w =
     (if attempt < opt_max (ss_callOpts s) then
        (case waitRetryBackoff S select (ss_ctx s) attempt (ss_callOpts s) w of
           (Panic m, w1) \<Rightarrow> (Panic m, s, w1)
         | (Ret (Some e), w1) \<Rightarrow> (Ret (Some e), s, w1)
         | (Ret None, w1) \<Rightarrow>
             (case reestablishStreamAndResendBuffer api s w1 of
                (Inl e, w2) \<Rightarrow> (Ret (Some e), s, w2)
              | (Inr h, w2) \<Rightarrow>
                  (case receiveMsgAndIndicateRetry S api (ss_setStream h s) w2 of
                     ((attemptRetry, lastErr), s1, w3) \<Rightarrow>
                       if \<not> attemptRetry then (Ret lastErr, s1, w3)
                       else recv_loop S select api (attempt + 1) lastErr s1 w3)))
      else (Ret lastErr, s, w))"
  by pat_completeness auto

lemma receive_frame:
  "receiveMsgAndIndicateRetry S api s w = ((b, e), s1, w1) \<Longrightarrow>
     ss_callOpts s1 = ss_callOpts s \<and> ss_bufferedSends s1 = ss_bufferedSends s \<and>
     ss_ctx s1 = ss_ctx s \<and> ss_streamerCall s1 = ss_streamerCall s \<and>
     ss_ClientStream s1 = ss_ClientStream s \<and>
     ss_receivedGood s1 = (ss_receivedGood s \<or> e = None \<or> e = Some IoEOF) \<and>
     (b \<longrightarrow> \<not> ss_receivedGood s1 \<and> e \<noteq> None)"
  by (auto simp: receiveMsgAndIndicateRetry_def Let_def split: prod.splits if_splits)

lemma ss_setStream_frame [simp]:
  "ss_callOpts (ss_setStream h s) = ss_callOpts s"
  "ss_bufferedSends (ss_setStream h s) = ss_bufferedSends s"
  "ss_receivedGood (ss_setStream h s) = ss_receivedGood s"
  "ss_ctx (ss_setStream h s) = ss_ctx s"
  "ss_ClientStream (ss_setStream h s) = h"
  by (simp_all add: ss_setStream_def)

termination recv_loop
  by (relation "measure (\<lambda>(S, sel, api, attempt, l, s, w).
       unat (opt_max (ss_callOpts s)) - unat attempt)")
    (auto simp: word_less_Suc_measure dest!: receive_frame [OF sym])

declare recv_loop.simps [simp del]

definition ss_RecvMsg where
  "ss_RecvMsg S select api s w =
     (case receiveMsgAndIndicateRetry S api s w of
        ((attemptRetry, lastErr), s1, w1) \<Rightarrow>
          if \<not> attemptRetry then (Ret lastErr, s1, w1)
          else recv_loop S select api 1 lastErr s1 w1)"

text \<open>The interceptor's result: gRPC's own stream, or a retrying one.\<close>

datatype ('h, 'm, 'w) client_stream = PlainStream 'h | RetryingStream "('h, 'm, 'w) retrying_stream"

type_synonym ('h, 'w) streamer = "'w ctx \<Rightarrow> string list \<Rightarrow> 'w \<Rightarrow> (err + 'h) \<times> 'w"

definition streamClientInterceptor ::
  "status_pkg \<Rightarrow> 'w jitterFunc \<Rightarrow> 'w retryOption list \<Rightarrow> 'w ctx \<Rightarrow> bool \<Rightarrow> ('h, 'w) streamer \<Rightarrow>
     'w CallOption list \<Rightarrow> 'w \<Rightarrow> (err + ('h, 'm, 'w) client_stream) \<times> 'w" where
  "streamClientInterceptor S jitter optFuncs =
     (let intOpts = reuseOrNewWithCallOptions (defaultOptions jitter) optFuncs in
      (\<lambda>c clientStreams streamer opts w.
         let c = withVersion c;
             (grpcOpts, retryOpts) = filterCallOptions opts;
             callOpts = reuseOrNewWithCallOptions intOpts retryOpts
         in if opt_max callOpts = 0 then
              (case streamer c grpcOpts w of
                 (Inl e, w1) \<Rightarrow> (Inl e, w1) | (Inr h, w1) \<Rightarrow> (Inr (PlainStream h), w1))
            else if clientStreams then
              (Inl (Errorf S Unimplemented
                 ''client/retry_interceptor: cannot retry on ClientStreams, set Disable()''), w)
            else
              (case streamer c grpcOpts w of
                 (Inl e, w1) \<Rightarrow> (Inl e, w1)
               | (Inr h, w1) \<Rightarrow>
                   (Inr (RetryingStream \<lparr>ss_ClientStream = h, ss_bufferedSends = [],
                      ss_receivedGood = False, ss_wasClosedSend = False, ss_ctx = c,
                      ss_callOpts = callOpts,
                      ss_streamerCall = (\<lambda>c w. streamer c grpcOpts w)\<rparr>), w1))))"

section \<open>Facts about the options\<close>

lemma filterCallOptions_loop_eq:
  "filterCallOptions_loop opts gs rs =
     (gs @ [g. GrpcCallOption g \<leftarrow> opts], rs @ [r. RetryCallOption r \<leftarrow> opts])"
  by (induction opts gs rs rule: filterCallOptions_loop.induct) auto

lemma filterCallOptions_eq:
  "filterCallOptions opts = ([g. GrpcCallOption g \<leftarrow> opts], [r. RetryCallOption r \<leftarrow> opts])"
  by (simp add: filterCallOptions_def filterCallOptions_loop_eq)

lemma filterCallOptions_append:
  "filterCallOptions (xs @ ys) =
     (fst (filterCallOptions xs) @ fst (filterCallOptions ys),
      snd (filterCallOptions xs) @ snd (filterCallOptions ys))"
  by (simp add: filterCallOptions_eq)

lemma filterCallOptions_Grpc: "filterCallOptions (map GrpcCallOption gs) = (gs, [])"
  by (induction gs) (auto simp: filterCallOptions_eq)

lemma apply_retryOptions_append:
  "apply_retryOptions (fs @ gs) o' = apply_retryOptions gs (apply_retryOptions fs o')"
  by (induction fs arbitrary: o') auto

lemma reuseOrNew_eq: "reuseOrNewWithCallOptions o' fs = apply_retryOptions fs o'"
  by (simp add: reuseOrNewWithCallOptions_def)

section \<open>Facts about the loops\<close>

text \<open>An error after which another attempt is made while the context is not done.\<close>

definition retryable :: "status_pkg \<Rightarrow> 'w options \<Rightarrow> err option \<Rightarrow> bool" where
  "retryable S callOpts x =
     (case x of None \<Rightarrow> False | Some e \<Rightarrow> isContextError S e \<or> isSafeRetry S e callOpts)"

text \<open>A part of the world that waiting leaves as it is (a count or a log of remote calls).\<close>

definition wait_keeps :: "('w \<Rightarrow> 'a) \<Rightarrow> 'w select_wait \<Rightarrow> 'w options \<Rightarrow> bool" where
  "wait_keeps calls select callOpts \<longleftrightarrow>
     (\<forall>a w. calls (snd (opt_backoffFunc callOpts a w)) = calls w) \<and>
     (\<forall>c d w. calls (snd (select c d w)) = calls w)"

lemma wait_keepsD:
  "wait_keeps calls select callOpts \<Longrightarrow> waitRetryBackoff S select c a callOpts w = (r, w1) \<Longrightarrow>
     calls w1 = calls w"
  by (auto simp: wait_keeps_def waitRetryBackoff_def split: prod.splits if_splits bool.splits)
    (metis snd_conv)+

lemma unary_loop_bound:
  assumes "wait_keeps calls select callOpts" and "\<forall>w. calls (snd (invoke w)) \<le> Suc (calls w)"
  shows "calls (snd (unary_loop S select c callOpts invoke a l w)) \<le>
    calls w + (unat (opt_max callOpts) - unat a)"
  using assms
proof (induction S select c callOpts invoke a l w rule: unary_loop.induct)
  case (1 S select c callOpts invoke a l w)
  show ?case
  proof (cases "a < opt_max callOpts")
    case False
    then show ?thesis by (simp add: unary_loop.simps)
  next
    case True
    obtain r w1 where wait: "waitRetryBackoff S select c a callOpts w = (r, w1)" by fastforce
    obtain x w2 where invoke: "invoke w1 = (x, w2)" by fastforce
    from wait_keepsD [OF "1.prems"(1) wait] have w1: "calls w1 = calls w" .
    from "1.prems"(2) [rule_format, of w1] invoke have w2: "calls w2 \<le> Suc (calls w1)" by simp
    from True have room: "Suc (unat (opt_max callOpts) - unat (a + 1)) =
        unat (opt_max callOpts) - unat a"
      using word_less_nat_alt [of a "opt_max callOpts"] by (simp add: unat_Suc_less Suc_diff_Suc)
    have IH: "calls (snd (unary_loop S select c callOpts invoke (a + 1) (Some e) w2)) \<le>
        calls w2 + (unat (opt_max callOpts) - unat (a + 1))"
      if "r = Ret None" "x = Some e" "isContextError S e \<and> ctx_Err c w2 = None \<or>
        \<not> isContextError S e \<and> isSafeRetry S e callOpts" for e
      using "1.IH" [OF True wait [symmetric] that(1) _ invoke [symmetric] that(2)] "1.prems" that(3)
      by auto
    show ?thesis
      using True wait invoke w1 w2 room IH
      by (auto simp: unary_loop.simps [of S select c callOpts invoke a] split: go.splits option.splits)
  qed
qed

text \<open>
  A call whose outcomes are scripted: the world counts the attempts made, and the outcome of the
  next one is looked up in the script. Waiting changes nothing and no context is ever done.
\<close>

definition scripted :: "(nat \<Rightarrow> err option) \<Rightarrow> nat \<Rightarrow> err option \<times> nat" where
  "scripted out n = (out n, Suc n)"

definition quiet :: "'w select_wait \<Rightarrow> 'w ctx \<Rightarrow> 'w options \<Rightarrow> bool" where
  "quiet select c callOpts \<longleftrightarrow>
     (\<forall>a w. snd (opt_backoffFunc callOpts a w) = w) \<and>
     (\<forall>d w. select c d w = (False, w)) \<and> (\<forall>w. ctx_Err c w = None)"

lemma quiet_wait: "quiet select c callOpts \<Longrightarrow> waitRetryBackoff S select c a callOpts w = (Ret None, w)"
  by (auto simp: quiet_def waitRetryBackoff_def split: prod.splits if_splits) (metis snd_conv)

lemma quiet_step:
  assumes "quiet select c callOpts" and "a < opt_max callOpts" and "invoke w = (x, w2)"
  shows "unary_loop S select c callOpts invoke a l w =
    (if retryable S callOpts x then unary_loop S select c callOpts invoke (a + 1) x w2
     else (Ret x, w2))"
  using assms quiet_wait [OF assms(1)]
  by (auto simp: unary_loop.simps [of S select c callOpts invoke a] retryable_def quiet_def
      isSafeRetry_def split: option.splits)

lemma unary_loop_final:
  assumes "quiet select c callOpts"
  shows "unat a + n < unat (opt_max callOpts) \<Longrightarrow> \<forall>i<n. retryable S callOpts (out (w + i)) \<Longrightarrow>
     \<not> retryable S callOpts (out (w + n)) \<Longrightarrow>
     unary_loop S select c callOpts (scripted out) a l w = (Ret (out (w + n)), Suc (w + n))"
proof (induction n arbitrary: a l w)
  case 0
  then have "a < opt_max callOpts" by (simp add: word_less_nat_alt)
  with 0 show ?case by (simp add: quiet_step [OF assms _ scripted_def])
next
  case (Suc n)
  then have less: "a < opt_max callOpts" by (simp add: word_less_nat_alt)
  from Suc.prems(2) have retry: "retryable S callOpts (out w)"
    "\<forall>i<n. retryable S callOpts (out (Suc w + i))" by (auto dest: spec [of _ 0] spec [of _ "Suc _"])
  show ?case
    using Suc.IH [of "a + 1" "Suc w"] Suc.prems retry less
    by (simp add: quiet_step [OF assms less scripted_def] unat_Suc_less)
qed

lemma unary_loop_exhausted:
  assumes "quiet select c callOpts"
  shows "unat (opt_max callOpts) - unat a = n \<Longrightarrow> \<forall>i<n. retryable S callOpts (out (w + i)) \<Longrightarrow>
     unary_loop S select c callOpts (scripted out) a l w =
       (Ret (if n = 0 then l else out (w + n - 1)), w + n)"
proof (induction n arbitrary: a l w)
  case 0
  then have "\<not> a < opt_max callOpts" by (simp add: word_less_nat_alt)
  with 0 show ?case by (simp add: unary_loop.simps)
next
  case (Suc n)
  then have less: "a < opt_max callOpts" by (simp add: word_less_nat_alt)
  from Suc.prems(2) have retry: "retryable S callOpts (out w)"
    "\<forall>i<n. retryable S callOpts (out (Suc w + i))" by (auto dest: spec [of _ 0] spec [of _ "Suc _"])
  have "unat (opt_max callOpts) - unat (a + 1) = n"
    using Suc.prems(1) less by (simp add: unat_Suc_less)
  with Suc.IH [of "a + 1" "Suc w"] retry show ?case
    by (cases n) (simp_all add: quiet_step [OF assms less scripted_def])
qed

lemma isSafeRetry_StatusErr:
  assumes "status_ok S"
  shows "isSafeRetry S (StatusErr cd m) callOpts =
    (if opt_retryPolicy callOpts = repeatable then cd = Unavailable
     else if opt_retryPolicy callOpts = nonRepeatable
       then cd = Unavailable \<and>
         m \<in> {''there is no address available'', ''there is no connection available''}
     else False)"
  using assms
  by (auto simp: isSafeRetry_def isContextError_def isSafeRetryImmutableRPC_def
      isSafeRetryMutableRPC_def ErrorDesc_def status_ok_def)

subsection \<open>Streams\<close>

lemma receive_bound:
  assumes "receiveMsgAndIndicateRetry S api s w = (r, s1, w1)"
    and "\<forall>h w. calls (snd (sa_RecvMsg api h w)) \<le> Suc (calls w)"
  shows "calls w1 \<le> Suc (calls w)"
proof -
  have "w1 = snd (sa_RecvMsg api (ss_ClientStream s) w)"
    using assms(1)
    by (auto simp: receiveMsgAndIndicateRetry_def Let_def split: prod.splits if_splits)
  then show ?thesis using assms(2) by blast
qed

text \<open>Opening, sending and closing leave a quantity of the world as it is.\<close>

definition open_keeps ::
  "('w \<Rightarrow> nat) \<Rightarrow> ('h, 'm, 'w) stream_api \<Rightarrow> ('w ctx \<Rightarrow> 'w \<Rightarrow> (err + 'h) \<times> 'w) \<Rightarrow> bool" where
  "open_keeps calls api streamerCall \<longleftrightarrow>
     (\<forall>c w. calls (snd (streamerCall c w)) = calls w) \<and>
     (\<forall>h m w. calls (snd (sa_SendMsg api h m w)) = calls w) \<and>
     (\<forall>h w. calls (snd (sa_CloseSend api h w)) = calls w)"

lemma resend_keeps:
  "open_keeps calls api sc \<Longrightarrow> calls (snd (resend_loop api h ms w)) = calls w"
proof (induction ms arbitrary: w)
  case (Cons m ms)
  from Cons.prems have "calls (snd (sa_SendMsg api h m w)) = calls w" by (simp add: open_keeps_def)
  with Cons show ?case by (auto split: prod.splits option.splits)
qed simp

lemma reestablish_keeps:
  assumes "open_keeps calls api (ss_streamerCall s)"
    and "reestablishStreamAndResendBuffer api s w = (r, w1)"
  shows "calls w1 = calls w"
proof -
  have keeps: "calls (snd (ss_streamerCall s c w)) = calls w" "calls (snd (sa_CloseSend api h w)) = calls w"
    for c h w using assms(1) by (auto simp: open_keeps_def)
  show ?thesis
    using assms(2) keeps(1) [of "ss_ctx s" w] keeps(2) resend_keeps [OF assms(1)]
    by (auto simp: reestablishStreamAndResendBuffer_def split: prod.splits sum.splits option.splits)
      (metis snd_conv)+
qed

lemma recv_loop_bound:
  assumes "wait_keeps calls select (ss_callOpts s)" and "open_keeps calls api (ss_streamerCall s)"
    and "\<forall>h w. calls (snd (sa_RecvMsg api h w)) \<le> Suc (calls w)"
  shows "calls (snd (snd (recv_loop S select api a l s w))) \<le>
    calls w + (unat (opt_max (ss_callOpts s)) - unat a)"
  using assms
proof (induction "unat (opt_max (ss_callOpts s)) - unat a" arbitrary: a l s w)
  case 0
  then have "\<not> a < opt_max (ss_callOpts s)" by (simp add: word_less_nat_alt)
  then show ?case by (simp add: recv_loop.simps)
next
  case (Suc n)
  then have less: "a < opt_max (ss_callOpts s)" by (simp add: word_less_nat_alt)
  obtain r w1 where wait: "waitRetryBackoff S select (ss_ctx s) a (ss_callOpts s) w = (r, w1)"
    by fastforce
  obtain x w2 where re: "reestablishStreamAndResendBuffer api s w1 = (x, w2)" by fastforce
  have w1: "calls w1 = calls w" by (rule wait_keepsD [OF Suc.prems(1) wait])
  have w2: "calls w2 = calls w1" by (rule reestablish_keeps [OF Suc.prems(2) re])
  have IH: "calls (snd (snd (recv_loop S select api (a + 1) l' s1 w3))) \<le> calls w + Suc n"
    if rcv: "receiveMsgAndIndicateRetry S api (ss_setStream h s) w2 = ((b, l'), s1, w3)" for b h l' s1 w3
  proof -
    have s1: "ss_callOpts s1 = ss_callOpts s" "ss_streamerCall s1 = ss_streamerCall s"
      using receive_frame [OF rcv] by (simp_all add: ss_setStream_def)
    have "calls w3 \<le> Suc (calls w)" using receive_bound [OF rcv Suc.prems(3)] w1 w2 by simp
    moreover have "n = unat (opt_max (ss_callOpts s1)) - unat (a + 1)"
      using Suc.hyps(2) less by (simp add: s1 unat_Suc_less)
    ultimately show ?thesis
      using Suc.hyps(1) [of s1 "a + 1" l' w3] Suc.prems s1 by simp
  qed
  have rcv: "calls w3 \<le> calls w + Suc n"
    if "receiveMsgAndIndicateRetry S api (ss_setStream h s) w2 = (r, s1, w3)" for r h s1 w3
    using receive_bound [OF that Suc.prems(3)] w1 w2 by simp
  show ?case
    using less wait re w1 w2 IH rcv Suc.hyps(2)
    by (auto simp: recv_loop.simps [of S select api a] split: go.splits option.splits sum.splits prod.splits)
qed

text \<open>Any stream interface, with the operations on it recorded in a log beside the world.\<close>

datatype ('h, 'm) stream_event = Opened 'h | Sent 'h 'm | ClosedSend 'h | Received 'h

definition logged :: "('h, 'm, 'v) stream_api \<Rightarrow> ('h, 'm, ('h, 'm) stream_event list \<times> 'v) stream_api" where
  "logged api = \<lparr>
     sa_SendMsg = (\<lambda>h m (log, v). case sa_SendMsg api h m v of (e, v1) \<Rightarrow> (e, (log @ [Sent h m], v1))),
     sa_RecvMsg = (\<lambda>h (log, v). case sa_RecvMsg api h v of (e, v1) \<Rightarrow> (e, (log @ [Received h], v1))),
     sa_CloseSend = (\<lambda>h (log, v). case sa_CloseSend api h v of (e, v1) \<Rightarrow> (e, (log @ [ClosedSend h], v1)))\<rparr>"

definition logged_open ::
  "('v \<Rightarrow> (err + 'h) \<times> 'v) \<Rightarrow> 'c \<Rightarrow> ('h, 'm) stream_event list \<times> 'v \<Rightarrow>
     (err + 'h) \<times> ('h, 'm) stream_event list \<times> 'v" where
  "logged_open streamer c w = (case w of (log, v) \<Rightarrow>
     (case streamer v of
        (Inl e, v1) \<Rightarrow> (Inl e, (log, v1)) | (Inr h, v1) \<Rightarrow> (Inr h, (log @ [Opened h], v1))))"

lemma logged_Send:
  "sa_SendMsg (logged api) h m (log, v) =
     (case sa_SendMsg api h m v of (e, v1) \<Rightarrow> (e, (log @ [Sent h m], v1)))"
  by (simp add: logged_def)

lemma resend_logged:
  "resend_loop (logged api) h ms (log, v) = (None, (log1, v1)) \<Longrightarrow> log1 = log @ map (Sent h) ms"
proof (induction ms arbitrary: log v)
  case (Cons m ms)
  from Cons.prems obtain v2 where "resend_loop (logged api) h ms (log @ [Sent h m], v2) =
      (None, (log1, v1))"
    by (auto simp: logged_Send split: prod.splits option.splits)
  from Cons.IH [OF this] show ?case by simp
qed simp

lemma reestablish_logged:
  assumes "ss_streamerCall s = logged_open streamer"
    and "reestablishStreamAndResendBuffer (logged api) s (log, v) = (Inr h, (log1, v1))"
  shows "log1 = log @ Opened h # map (Sent h) (ss_bufferedSends s) @ [ClosedSend h]"
  using assms
  by (auto simp: reestablishStreamAndResendBuffer_def logged_open_def
      split: prod.splits sum.splits option.splits dest!: resend_logged)
    (auto simp: logged_def split: prod.splits)

text \<open>The events of a stream that is opened again and then read once.\<close>

definition replay :: "'h \<Rightarrow> 'm list \<Rightarrow> ('h, 'm) stream_event list" where
  "replay h ms = Opened h # map (Sent h) ms @ [ClosedSend h, Received h]"

lemma receive_logged:
  "receiveMsgAndIndicateRetry S (logged api) s (log, v) = (r, s1, log1, v1) \<Longrightarrow>
     log1 = log @ [Received (ss_ClientStream s)]"
  by (auto simp: receiveMsgAndIndicateRetry_def logged_def Let_def split: prod.splits if_splits)

lemma recv_loop_logged:
  assumes "ss_streamerCall s = logged_open streamer"
    and "recv_loop S select (logged api) a (Some e) s (log, v) = (Ret None, s1, log1, v1)"
  shows "\<exists>pre. log1 = pre @ replay (ss_ClientStream s1) (ss_bufferedSends s)"
  using assms
proof (induction "unat (opt_max (ss_callOpts s)) - unat a" arbitrary: a e s log v)
  case 0
  then have "\<not> a < opt_max (ss_callOpts s)" by (simp add: word_less_nat_alt)
  with 0 show ?case by (simp add: recv_loop.simps)
next
  case (Suc n)
  then have less: "a < opt_max (ss_callOpts s)" by (simp add: word_less_nat_alt)
  obtain r log2 v2 where wait: "waitRetryBackoff S select (ss_ctx s) a (ss_callOpts s) (log, v) =
      (r, log2, v2)" by (metis prod_cases3)
  obtain x log3 v3 where re: "reestablishStreamAndResendBuffer (logged api) s (log2, v2) =
      (x, log3, v3)" by (metis prod_cases3)
  from Suc.prems(2) less wait re obtain h where rx: "r = Ret None" "x = Inr h"
    by (auto simp: recv_loop.simps [of S select "logged api" a] split: go.splits option.splits sum.splits)
  obtain b l s2 log4 v4 where rcv: "receiveMsgAndIndicateRetry S (logged api) (ss_setStream h s)
      (log3, v3) = ((b, l), s2, log4, v4)" by (metis surj_pair)
  from reestablish_logged [OF Suc.prems(1) re [unfolded rx]] receive_logged [OF rcv]
  have log4: "log4 = log2 @ replay h (ss_bufferedSends s)" by (simp add: replay_def)
  have s2: "ss_ClientStream s2 = h" "ss_bufferedSends s2 = ss_bufferedSends s"
      "ss_callOpts s2 = ss_callOpts s" "ss_streamerCall s2 = ss_streamerCall s" "b \<Longrightarrow> l \<noteq> None"
    using receive_frame [OF rcv] by (simp_all add: ss_setStream_def)
  show ?case
  proof (cases b)
    case False
    with Suc.prems(2) less wait re rx rcv have "s1 = s2" "log1 = log4"
      by (simp_all add: recv_loop.simps [of S select "logged api" a])
    with log4 s2 show ?thesis by auto
  next
    case True
    with s2 obtain e' where e': "l = Some e'" by auto
    from True Suc.prems(2) less wait re rx rcv e'
    have "recv_loop S select (logged api) (a + 1) (Some e') s2 (log4, v4) = (Ret None, s1, log1, v1)"
      by (simp add: recv_loop.simps [of S select "logged api" a])
    moreover have "n = unat (opt_max (ss_callOpts s2)) - unat (a + 1)"
      using Suc.hyps(2) less by (simp add: s2 unat_Suc_less)
    ultimately show ?thesis using Suc.hyps(1) [of s2 "a + 1" e' log4 v4] Suc.prems(1) s2 by simp
  qed
qed

section \<open>Properties\<close>

text \<open>The retry options \<open>dialSetupOpts\<close> of \<open>client.go\<close> makes the two interceptors with.\<close>

definition dial_unary_options :: "'w backoffFunc \<Rightarrow> 'w retryOption list" where
  "dial_unary_options rrBackoff = [withMax defaultUnaryMaxRetries, withBackoff rrBackoff]"

definition dial_stream_options :: "'w backoffFunc \<Rightarrow> 'w retryOption list" where
  "dial_stream_options rrBackoff = [withMax 0, withBackoff rrBackoff]"

text \<open>The options a call runs with, from those of the interceptor and of the call.\<close>

definition effective_options ::
  "'w jitterFunc \<Rightarrow> 'w retryOption list \<Rightarrow> 'w CallOption list \<Rightarrow> 'w options" where
  "effective_options jitter optFuncs opts =
     reuseOrNewWithCallOptions (reuseOrNewWithCallOptions (defaultOptions jitter) optFuncs)
       (snd (filterCallOptions opts))"

lemma unaryClientInterceptor_eq:
  "unaryClientInterceptor S jitter select optFuncs c invoker opts w =
     (let co = effective_options jitter optFuncs opts;
          invoke = invoker (withVersion c) (fst (filterCallOptions opts))
      in if opt_max co = 0 then (case invoke w of (e, w1) \<Rightarrow> (Ret e, w1))
         else unary_loop S select (withVersion c) co invoke 0 None w)"
  by (auto simp: unaryClientInterceptor_def effective_options_def Let_def split: prod.splits)

lemma effective_options_policies:
  "effective_options jitter (dial_unary_options bf) (map GrpcCallOption gs) =
      \<lparr>opt_retryPolicy = nonRepeatable, opt_max = 10, opt_backoffFunc = bf, opt_retryAuth = True\<rparr>
    \<and> effective_options jitter (dial_unary_options bf)
        (map GrpcCallOption gs @ [RetryCallOption withRepeatable]) =
      \<lparr>opt_retryPolicy = repeatable, opt_max = 10, opt_backoffFunc = bf, opt_retryAuth = True\<rparr>
    \<and> effective_options jitter (dial_stream_options bf)
        (map GrpcCallOption gs @ [RetryCallOption withRepeatable,
           RetryCallOption (withMax iterateRangeRetries)]) =
      \<lparr>opt_retryPolicy = repeatable, opt_max = 5, opt_backoffFunc = bf, opt_retryAuth = True\<rparr>
    \<and> opt_max (effective_options jitter (dial_stream_options bf) (map GrpcCallOption gs)) = 0
    \<and> fst (filterCallOptions (map GrpcCallOption gs @ [RetryCallOption withRepeatable])) = gs"
  by (simp add: effective_options_def reuseOrNew_eq filterCallOptions_append filterCallOptions_Grpc
      filterCallOptions_eq [of "[_]"] filterCallOptions_eq [of "[_, _]"] dial_unary_options_def
      dial_stream_options_def defaultOptions_def withMax_def withBackoff_def withRepeatable_def
      defaultUnaryMaxRetries_def iterateRangeRetries_def)

text \<open>The retry policy of each API: a put, a delete or a transaction runs non-repeatable with
  at most 10 attempts; a get repeatable with at most 10; an iteration repeatable with at most
  5; any other stream is not retried. Only grpc's own options reach the transport.\<close>

theorem api_retry_policies:
  "effective_options jitter (dial_unary_options bf) (map GrpcCallOption gs) =
      \<lparr>opt_retryPolicy = nonRepeatable, opt_max = 10, opt_backoffFunc = bf, opt_retryAuth = True\<rparr>
    \<and> effective_options jitter (dial_unary_options bf)
        (map GrpcCallOption gs @ [RetryCallOption withRepeatable]) =
      \<lparr>opt_retryPolicy = repeatable, opt_max = 10, opt_backoffFunc = bf, opt_retryAuth = True\<rparr>
    \<and> effective_options jitter (dial_stream_options bf)
        (map GrpcCallOption gs @ [RetryCallOption withRepeatable,
           RetryCallOption (withMax iterateRangeRetries)]) =
      \<lparr>opt_retryPolicy = repeatable, opt_max = 5, opt_backoffFunc = bf, opt_retryAuth = True\<rparr>
    \<and> opt_max (effective_options jitter (dial_stream_options bf) (map GrpcCallOption gs)) = 0
    \<and> fst (filterCallOptions (map GrpcCallOption gs @ [RetryCallOption withRepeatable])) = gs"
  by (rule effective_options_policies)

lemma effective_max3:
  "effective_options (\<lambda>d f w. (d, w)) [withMax 3] [RetryCallOption withRepeatable] =
     \<lparr>opt_retryPolicy = repeatable, opt_max = 3,
      opt_backoffFunc = (\<lambda>a w. (50000000, w)), opt_retryAuth = True\<rparr>"
  by (simp add: effective_options_def reuseOrNew_eq filterCallOptions_eq defaultOptions_def
      withMax_def withRepeatable_def backoffLinearWithJitter_def)

text \<open>C22: The unary interceptor makes at most as many calls as its retry limit says (one when
  retries are disabled), whatever the calls return, however long it waits and whether or not
  the context is done.\<close>

theorem unary_calls_bounded:
  assumes "wait_keeps calls select (effective_options jitter optFuncs opts)"
    and "\<forall>w. calls (snd (invoker (withVersion c) (fst (filterCallOptions opts)) w)) \<le> Suc (calls w)"
  shows "calls (snd (unaryClientInterceptor S jitter select optFuncs c invoker opts w)) \<le>
    calls w + max 1 (unat (opt_max (effective_options jitter optFuncs opts)))"
proof (cases "opt_max (effective_options jitter optFuncs opts) = 0")
  case True
  with assms(2) [rule_format, of w] show ?thesis
    by (auto simp: unaryClientInterceptor_eq Let_def split: prod.splits)
next
  case False
  with unary_loop_bound [OF assms, of S "withVersion c" 0 None w] show ?thesis
    by (simp add: unaryClientInterceptor_eq Let_def)
qed

theorem unary_calls_bounded_witness:
  "snd (unaryClientInterceptor doc_status (\<lambda>d f w. (d, w)) (\<lambda>c d w. (False, w))
      [withMax 3] fresh_ctx (\<lambda>c gs. scripted (\<lambda>_. Some (StatusErr Unavailable ''down'')))
      [RetryCallOption withRepeatable] 0) \<le> 3"
  using unary_calls_bounded [where calls = "\<lambda>n. n" and w = 0 and S = doc_status
      and jitter = "\<lambda>d f w. (d, w)" and c = fresh_ctx and optFuncs = "[withMax 3]"
      and opts = "[RetryCallOption withRepeatable]" and select = "\<lambda>c d w. (False, w)"
      and invoker = "\<lambda>c gs. scripted (\<lambda>_. Some (StatusErr Unavailable ''down''))"]
  by (simp add: wait_keeps_def effective_max3 scripted_def)

text \<open>C21: While the context is not done, the interceptor returns the outcome of the first attempt
  that is a success or must not be retried, after exactly that many attempts; when all the
  allowed attempts fail in a retryable way, it returns the last error.\<close>

theorem unary_outcome:
  assumes "quiet select (withVersion c) (effective_options jitter optFuncs opts)"
    and "n < unat (opt_max (effective_options jitter optFuncs opts))"
    and "\<forall>i<n. retryable S (effective_options jitter optFuncs opts) (out i)"
    and "\<not> retryable S (effective_options jitter optFuncs opts) (out n) \<or>
      Suc n = unat (opt_max (effective_options jitter optFuncs opts))"
  shows "unaryClientInterceptor S jitter select optFuncs c (\<lambda>c gs. scripted out) opts 0 =
    (Ret (out n), Suc n)"
proof -
  let ?co = "effective_options jitter optFuncs opts"
  have max: "opt_max ?co \<noteq> 0" using assms(2) by auto
  show ?thesis
  proof (cases "retryable S ?co (out n)")
    case False
    with max unary_loop_final [OF assms(1), of 0 n S out 0 None] assms(2,3) show ?thesis
      by (simp add: unaryClientInterceptor_eq Let_def)
  next
    case True
    with assms(3) have "\<forall>i<Suc n. retryable S ?co (out i)" by (auto simp: less_Suc_eq)
    with max True unary_loop_exhausted [OF assms(1), of 0 "Suc n" S out 0 None] assms(4)
    show ?thesis by (simp add: unaryClientInterceptor_eq Let_def)
  qed
qed

lemma doc_Unavailable_retryable:
  "opt_retryPolicy co = repeatable \<Longrightarrow> retryable doc_status co (Some (StatusErr Unavailable m))"
  by (simp add: retryable_def isContextError_def isSafeRetry_def isSafeRetryImmutableRPC_def
      doc_status_def)

theorem unary_outcome_witness:
  "unaryClientInterceptor doc_status (\<lambda>d f w. (d, w)) (\<lambda>c d w. (False, w)) [withMax 3] fresh_ctx
      (\<lambda>c gs. scripted (\<lambda>i. if i = 0 then Some (StatusErr Unavailable ''down'') else None))
      [RetryCallOption withRepeatable] 0 = (Ret None, Suc 1)"
  using unary_outcome [where n = 1 and S = doc_status and jitter = "\<lambda>d f w. (d, w)" and c = fresh_ctx
      and optFuncs = "[withMax 3]" and opts = "[RetryCallOption withRepeatable]"
      and select = "\<lambda>c d w. (False, w)"
      and out = "\<lambda>i. if i = 0 then Some (StatusErr Unavailable ''down'') else None"]
  by (simp add: effective_max3 doc_Unavailable_retryable quiet_def fresh_ctx_def frame_simps
      retryable_def [of _ _ None])

text \<open>Which failures of the server are retried: for reads exactly the status \<open>Unavailable\<close>;
  for writes only \<open>Unavailable\<close> with one of the two messages that say no connection was ever
  made; a deadline or a cancellation by neither of these rules.\<close>

theorem retry_classification:
  assumes "status_ok S"
  shows "isSafeRetry S (StatusErr cd m) callOpts =
    (if opt_retryPolicy callOpts = repeatable then cd = Unavailable
     else if opt_retryPolicy callOpts = nonRepeatable
       then cd = Unavailable \<and>
         m \<in> {''there is no address available'', ''there is no connection available''}
     else False)"
  by (rule isSafeRetry_StatusErr [OF assms])

theorem retry_classification_witness:
  "isSafeRetry doc_status (StatusErr Unavailable ''reset'')
     \<lparr>opt_retryPolicy = nonRepeatable, opt_max = 10, opt_backoffFunc = (\<lambda>a w. (0, w :: unit)),
      opt_retryAuth = True\<rparr> = False"
  by (subst retry_classification [OF doc_status_ok]) simp

text \<open>C7: A write is made at most once after any failure that may have reached the server: under
  the non-repeatable policy, when the first call fails with a status that is neither a context
  error nor one of the two \<open>Unavailable\<close> messages that no connection was ever made, the
  interceptor returns this error and makes no second call, whatever the limit, the clock, the
  context and the later calls would do.\<close>

theorem write_at_most_once:
  assumes "status_ok S" and "invoker (withVersion c) (fst (filterCallOptions opts)) w =
      (Some (StatusErr cd m), w1)"
    and "opt_retryPolicy (effective_options jitter optFuncs opts) = nonRepeatable"
    and "cd \<notin> {DeadlineExceeded, Canceled}"
    and "cd = Unavailable \<Longrightarrow>
      m \<notin> {''there is no address available'', ''there is no connection available''}"
  shows "unaryClientInterceptor S jitter select optFuncs c invoker opts w =
    (Ret (Some (StatusErr cd m)), w1)"
proof -
  let ?co = "effective_options jitter optFuncs opts"
  have ctx: "\<not> isContextError S (StatusErr cd m)"
    using assms(1,4) by (simp add: isContextError_def status_ok_def)
  moreover have "\<not> isSafeRetry S (StatusErr cd m) ?co"
    using isSafeRetry_StatusErr [OF assms(1), of cd m ?co] assms(3,5) by auto
  moreover have "waitRetryBackoff S select (withVersion c) 0 ?co w = (Ret None, w)"
    by (simp add: waitRetryBackoff_def)
  moreover have "0 < opt_max ?co" if "opt_max ?co \<noteq> 0" using that by (simp add: word_gt_0)
  ultimately show ?thesis
    using assms(2)
    by (cases "opt_max ?co = 0")
      (simp_all add: unaryClientInterceptor_eq Let_def unary_loop.simps [of S select "withVersion c" ?co _ 0])
qed

theorem write_at_most_once_witness:
  "unaryClientInterceptor doc_status (\<lambda>d f w. (d, w)) (\<lambda>c d w. (True, w))
     (dial_unary_options (\<lambda>a w. (0, w))) fresh_ctx
     (\<lambda>c gs. scripted (\<lambda>i. if i = 0 then Some (StatusErr Unavailable ''reset'') else None)) [] 0 =
   (Ret (Some (StatusErr Unavailable ''reset'')), 1)"
  by (rule write_at_most_once [OF doc_status_ok])
    (simp_all add: scripted_def effective_options_def reuseOrNew_eq filterCallOptions_eq
      dial_unary_options_def defaultOptions_def withMax_def withBackoff_def)

text \<open>A write whose call fails with \<open>DeadlineExceeded\<close> or \<open>Canceled\<close> from the server while the
  caller's context is live is made a second time, although the server may have executed the
  first one.\<close>

theorem write_repeated_on_server_deadline:
  assumes "status_ok S" and "quiet select (withVersion c) (effective_options jitter optFuncs opts)"
    and "1 < unat (opt_max (effective_options jitter optFuncs opts))"
    and "opt_retryPolicy (effective_options jitter optFuncs opts) = nonRepeatable"
    and "cd \<in> {DeadlineExceeded, Canceled}"
  shows "unaryClientInterceptor S jitter select optFuncs c
      (\<lambda>c gs. scripted (\<lambda>i. if i = 0 then Some (StatusErr cd m) else None)) opts 0 = (Ret None, 2)"
proof -
  let ?co = "effective_options jitter optFuncs opts"
  let ?out = "\<lambda>i. if i = 0 then Some (StatusErr cd m) else None"
  have "retryable S ?co (Some (StatusErr cd m))" "\<not> retryable S ?co None"
    using assms(1,5) by (auto simp: retryable_def isContextError_def status_ok_def)
  moreover have "opt_max ?co \<noteq> 0" using assms(3) by auto
  ultimately show ?thesis
    using unary_loop_final [OF assms(2), of 0 1 S ?out 0 None] assms(3)
    by (simp add: unaryClientInterceptor_eq Let_def)
qed

theorem write_repeated_on_server_deadline_witness:
  "unaryClientInterceptor doc_status (\<lambda>d f w. (d, w)) (\<lambda>c d w. (False, w))
     (dial_unary_options (\<lambda>a w. (0, w))) fresh_ctx
     (\<lambda>c gs. scripted (\<lambda>i. if i = 0 then Some (StatusErr DeadlineExceeded ''late'') else None)) [] 0 =
   (Ret None, 2)"
  by (rule write_repeated_on_server_deadline [OF doc_status_ok])
    (simp_all add: quiet_def effective_options_def reuseOrNew_eq filterCallOptions_eq
      dial_unary_options_def defaultOptions_def withMax_def withBackoff_def fresh_ctx_def
      defaultUnaryMaxRetries_def withVersion_def)

text \<open>C23: One \<open>RecvMsg\<close> of a retrying stream receives at most as often as the retry limit says
  (once when retries are disabled), and its loop ends whatever the streams do.\<close>

theorem stream_receives_bounded:
  assumes "wait_keeps calls select (ss_callOpts s)" and "open_keeps calls api (ss_streamerCall s)"
    and "\<forall>h w. calls (snd (sa_RecvMsg api h w)) \<le> Suc (calls w)"
  shows "calls (snd (snd (ss_RecvMsg S select api s w))) \<le>
    calls w + max 1 (unat (opt_max (ss_callOpts s)))"
proof -
  obtain b e s1 w1 where rcv: "receiveMsgAndIndicateRetry S api s w = ((b, e), s1, w1)"
    by (metis prod_cases3 surj_pair)
  from receive_bound [OF rcv assms(3)] have w1: "calls w1 \<le> Suc (calls w)" .
  have s1: "ss_callOpts s1 = ss_callOpts s" "ss_streamerCall s1 = ss_streamerCall s"
    using receive_frame [OF rcv] by simp_all
  have "calls (snd (snd (recv_loop S select api 1 e s1 w1))) \<le>
      calls w1 + (unat (opt_max (ss_callOpts s)) - 1)"
    using recv_loop_bound [of calls select s1 api S 1 e w1] assms by (simp add: s1)
  with rcv w1 show ?thesis
    by (cases "unat (opt_max (ss_callOpts s))") (auto simp: ss_RecvMsg_def max_def)
qed

text \<open>
  A stream interface whose world counts the receives; each fails until the third.
\<close>

definition third_time :: "(nat, bytes, nat) stream_api" where
  "third_time = \<lparr>sa_SendMsg = (\<lambda>h m w. (None, w)),
     sa_RecvMsg = (\<lambda>h w. (if w < 2 then Some (StatusErr Unavailable ''down'') else None, Suc w)),
     sa_CloseSend = (\<lambda>h w. (None, w))\<rparr>"

definition third_time_stream :: "uint64 \<Rightarrow> (nat, bytes, nat) retrying_stream" where
  "third_time_stream n = \<lparr>ss_ClientStream = 0, ss_bufferedSends = [[1, 2]], ss_receivedGood = False,
     ss_wasClosedSend = True, ss_ctx = fresh_ctx,
     ss_callOpts = \<lparr>opt_retryPolicy = repeatable, opt_max = n, opt_backoffFunc = (\<lambda>a w. (0, w)),
       opt_retryAuth = True\<rparr>,
     ss_streamerCall = (\<lambda>c w. (Inr (Suc w), w))\<rparr>"

theorem stream_receives_bounded_witness:
  "snd (snd (ss_RecvMsg doc_status (\<lambda>c d w. (False, w)) third_time (third_time_stream 5) 0)) \<le> 5"
  using stream_receives_bounded [where calls = "\<lambda>n. n" and w = 0 and S = doc_status
      and select = "\<lambda>c d w. (False, w)" and api = third_time and s = "third_time_stream 5"]
  by (simp add: wait_keeps_def open_keeps_def third_time_def third_time_stream_def)

text \<open>Once a message or the end of the stream has been received, \<open>RecvMsg\<close> never retries: it
  makes one receive on the same stream and returns its result, so no message is delivered
  twice.\<close>

theorem no_retry_after_good_receive:
  assumes "ss_receivedGood s"
  shows "ss_RecvMsg S select api s w =
    (case sa_RecvMsg api (ss_ClientStream s) w of (e, w1) \<Rightarrow> (Ret e, s, w1))"
  using assms
  by (auto simp: ss_RecvMsg_def receiveMsgAndIndicateRetry_def Let_def split: prod.splits)

theorem no_retry_after_good_receive_witness:
  "ss_RecvMsg doc_status (\<lambda>c d w. (False, w)) third_time
     ((third_time_stream 5)\<lparr>ss_receivedGood := True\<rparr>) 0 =
   (Ret (Some (StatusErr Unavailable ''down'')), (third_time_stream 5)\<lparr>ss_receivedGood := True\<rparr>, 1)"
  by (subst no_retry_after_good_receive) (simp_all add: third_time_def third_time_stream_def)

text \<open>C19: A \<open>RecvMsg\<close> that succeeds after retries has received its message from a stream on which
  the whole conversation was replayed: the last thing that happened is that this stream was
  opened, every message sent so far was sent on it in the original order, its sending side was
  closed, and it was read. Without a retry the only event is a read of the stream as it was.\<close>

theorem RecvMsg_replays_conversation:
  assumes "ss_streamerCall s = logged_open streamer"
    and "ss_RecvMsg S select (logged api) s (log, v) = (Ret None, s1, log1, v1)"
  shows "\<exists>pre. log1 \<in> {log @ [Received (ss_ClientStream s1)],
    pre @ replay (ss_ClientStream s1) (ss_bufferedSends s)}"
proof -
  obtain b l s2 log2 v2 where rcv: "receiveMsgAndIndicateRetry S (logged api) s (log, v) =
      ((b, l), s2, log2, v2)" by (metis surj_pair)
  have s2: "ss_ClientStream s2 = ss_ClientStream s" "ss_bufferedSends s2 = ss_bufferedSends s"
      "ss_streamerCall s2 = ss_streamerCall s" "b \<Longrightarrow> l \<noteq> None"
    using receive_frame [OF rcv] by simp_all
  show ?thesis
  proof (cases b)
    case True
    with s2 obtain e where e: "l = Some e" by auto
    with True assms(2) rcv have
      "recv_loop S select (logged api) 1 (Some e) s2 (log2, v2) = (Ret None, s1, log1, v1)"
      by (simp add: ss_RecvMsg_def)
    from recv_loop_logged [OF _ this] assms(1) s2 show ?thesis by auto
  next
    case False
    with assms(2) rcv receive_logged [OF rcv] s2 show ?thesis by (auto simp: ss_RecvMsg_def)
  qed
qed

text \<open>The third stream is the first whose receive succeeds.\<close>

definition third_time_logged ::
  "(nat, bytes, (nat, bytes) stream_event list \<times> nat) retrying_stream" where
  "third_time_logged = \<lparr>ss_ClientStream = 0, ss_bufferedSends = [[1, 2]], ss_receivedGood = False,
     ss_wasClosedSend = True, ss_ctx = fresh_ctx,
     ss_callOpts = \<lparr>opt_retryPolicy = repeatable, opt_max = 5, opt_backoffFunc = (\<lambda>a w. (0, w)),
       opt_retryAuth = True\<rparr>,
     ss_streamerCall = logged_open (\<lambda>w. (Inr (Suc w), w))\<rparr>"

theorem RecvMsg_replays_conversation_witness:
  "\<exists>s1 log1 v1. ss_RecvMsg doc_status (\<lambda>c d w. (False, w)) (logged third_time) third_time_logged
      ([], 0) = (Ret None, s1, log1, v1) \<and>
    (\<exists>pre. log1 \<in> {[Received (ss_ClientStream s1)], pre @ replay (ss_ClientStream s1) [[1, 2]]})"
proof -
  obtain s1 log1 v1 where run: "ss_RecvMsg doc_status (\<lambda>c d w. (False, w)) (logged third_time)
      third_time_logged ([], 0) = (Ret None, s1, log1, v1)"
    by (simp add: ss_RecvMsg_def receiveMsgAndIndicateRetry_def third_time_logged_def logged_def
        third_time_def Let_def isContextError_def isSafeRetry_def isSafeRetryImmutableRPC_def
        doc_status_def recv_loop.simps waitRetryBackoff_def reestablishStreamAndResendBuffer_def
        logged_open_def ss_setStream_def)
  show ?thesis
    using run RecvMsg_replays_conversation [OF _ run, of "\<lambda>w. (Inr (Suc w), w)"]
    by (auto simp: third_time_logged_def)
qed

end
