(* ===== verification/Client_Cluster.thy ===== *)
theory Client_Cluster
  imports Client_KV
begin

text \<open>
  \<open>cluster.go\<close> and \<open>tables.go\<close>: the membership and status of the cluster and the administration
  of tables, over the generated clients of the two services, which are records of their methods.
  A protobuf struct of configuration values is opaque (\<open>'s\<close>), and so is the map that \<open>AsMap\<close>
  makes of it (\<open>'a\<close>).
\<close>

section \<open>Cluster\<close>

text \<open>The request of \<open>Status\<close> is its one field \<open>Config\<close>; that of \<open>MemberList\<close> has none.\<close>

record ('w, 's) ClusterClient =
  rc_MemberList :: "('w, unit, MemberListResponse) rpc"
  rc_Status :: "('w, bool, 's PbStatusResponse) rpc"

record 'a StatusResponse =
  sta_Id :: string
  sta_Version :: string
  sta_Info :: string
  sta_Tables :: "string \<rightharpoonup> TableStatus option"
  sta_Errors :: "string list"
  sta_Config :: 'a

definition retryCluster_MemberList ::
  "('w, 's) ClusterClient \<Rightarrow> ('w, unit, MemberListResponse) rpc" where
  "retryCluster_MemberList cc c r opts = rc_MemberList cc c r (opts @ [RetryCallOption withRepeatable])"

definition retryCluster_Status :: "('w, 's) ClusterClient \<Rightarrow> ('w, bool, 's PbStatusResponse) rpc" where
  "retryCluster_Status cc c r opts = rc_Status cc c r (opts @ [RetryCallOption withRepeatable])"

definition retryClusterClient :: "('w, 's) ClusterClient \<Rightarrow> ('w, 's) ClusterClient" where
  "retryClusterClient cc = \<lparr>rc_MemberList = retryCluster_MemberList cc,
     rc_Status = retryCluster_Status cc\<rparr>"

text \<open>\<open>dial\<close> returns a client and the function that closes its connection.\<close>

record ('w, 's) cluster =
  cs_remote :: "('w, 's) ClusterClient"
  cs_dial :: "string \<Rightarrow> 'w \<Rightarrow> (err + ('w, 's) ClusterClient \<times> ('w \<Rightarrow> 'w)) go \<times> 'w"
  cs_callOpts :: "'w CallOption list"
  cs_status :: status_pkg

definition cluster_MemberList where
  "cluster_MemberList k c w =
     (case rc_MemberList (cs_remote k) c () (cs_callOpts k @ [RetryCallOption withRepeatable]) w of
        (Panic m, w1) \<Rightarrow> (Panic m, w1)
      | (Ret (Inr resp), w1) \<Rightarrow> (Ret (Some resp, None), w1)
      | (Ret (Inl e), w1) \<Rightarrow> (Ret (None, toErr (cs_status k) c w1 (Some e)), w1))"

definition mapProtoStatusResponse :: "('s \<Rightarrow> 'a) \<Rightarrow> 's PbStatusResponse \<Rightarrow> 'a StatusResponse" where
  "mapProtoStatusResponse AsMap resp = \<lparr>sta_Id = st_Id resp, sta_Version = st_Version resp,
     sta_Info = st_Info resp, sta_Tables = (\<lambda>k. st_Tables resp k), sta_Errors = st_Errors resp,
     sta_Config = AsMap (st_Config resp)\<rparr>"

definition cluster_Status ::
  "('s \<Rightarrow> 'a) \<Rightarrow> ('w, 's) cluster \<Rightarrow> 'w ctx \<Rightarrow> string \<Rightarrow> 'w \<Rightarrow>
     ('a StatusResponse option \<times> err option) go \<times> 'w" where
  "cluster_Status AsMap k c endpoint w =
     (case cs_dial k endpoint w of
        (Panic m, w1) \<Rightarrow> (Panic m, w1)
      | (Ret (Inl e), w1) \<Rightarrow> (Ret (None, toErr (cs_status k) c w1 (Some e)), w1)
      | (Ret (Inr (remote, cancel)), w1) \<Rightarrow>
          (case rc_Status remote c True (cs_callOpts k @ [RetryCallOption withRepeatable]) w1 of
             (Panic m, w2) \<Rightarrow> (Panic m, cancel w2)
           | (Ret (Inl e), w2) \<Rightarrow> (Ret (None, toErr (cs_status k) c w2 (Some e)), cancel w2)
           | (Ret (Inr resp), w2) \<Rightarrow> (Ret (Some (mapProtoStatusResponse AsMap resp), None), cancel w2)))"

section \<open>Tables\<close>

record ('w, 's) TablesClient =
  tc_Create :: "('w, string, string) rpc"
  tc_Delete :: "('w, string, unit) rpc"
  tc_List :: "('w, unit, 's PbTableInfo list) rpc"

record 'a TableInfo =
  tin_ID :: string
  tin_Name :: string
  tin_Config :: 'a

definition retryTables_Create :: "('w, 's) TablesClient \<Rightarrow> ('w, string, string) rpc" where
  "retryTables_Create cl c r opts = tc_Create cl c r opts"
definition retryTables_Delete :: "('w, 's) TablesClient \<Rightarrow> ('w, string, unit) rpc" where
  "retryTables_Delete cl c r opts = tc_Delete cl c r opts"
definition retryTables_List :: "('w, 's) TablesClient \<Rightarrow> ('w, unit, 's PbTableInfo list) rpc" where
  "retryTables_List cl c r opts = tc_List cl c r (opts @ [RetryCallOption withRepeatable])"

definition retryTablesClient :: "('w, 's) TablesClient \<Rightarrow> ('w, 's) TablesClient" where
  "retryTablesClient cl = \<lparr>tc_Create = retryTables_Create cl, tc_Delete = retryTables_Delete cl,
     tc_List = retryTables_List cl\<rparr>"

record ('w, 's) tables =
  ta_remote :: "('w, 's) TablesClient"
  ta_callOpts :: "'w CallOption list"
  ta_status :: status_pkg

definition newTables :: "status_pkg \<Rightarrow> ('w, 's) TablesClient \<Rightarrow> 'w CallOption list \<Rightarrow> ('w, 's) tables" where
  "newTables S cl callOpts = \<lparr>ta_remote = retryTablesClient cl, ta_callOpts = callOpts, ta_status = S\<rparr>"

text \<open>Its second argument is nil or a client, of which only the call options are used.\<close>

definition NewTablesFromTablesClient ::
  "status_pkg \<Rightarrow> ('w, 's) TablesClient \<Rightarrow> 'w CallOption list option \<Rightarrow> ('w, 's) tables" where
  "NewTablesFromTablesClient S remote c = \<lparr>ta_remote = retryTablesClient remote,
     ta_callOpts = (case c of None \<Rightarrow> [] | Some opts \<Rightarrow> opts), ta_status = S\<rparr>"

definition NewClusterFromClusterClient where
  "NewClusterFromClusterClient S remote c = \<lparr>cs_remote = remote,
     cs_dial = (\<lambda>ep w. (Panic nil_deref, w)),
     cs_callOpts = (case c of None \<Rightarrow> [] | Some opts \<Rightarrow> opts), cs_status = S\<rparr>"

definition tables_CreateTable where
  "tables_CreateTable t c name w =
     (case tc_Create (ta_remote t) c name (ta_callOpts t) w of
        (Panic m, w1) \<Rightarrow> (Panic m, w1)
      | (Ret (Inr resp), w1) \<Rightarrow> (Ret (Some resp, None), w1)
      | (Ret (Inl e), w1) \<Rightarrow> (Ret (None, toErr (ta_status t) c w1 (Some e)), w1))"

definition tables_DeleteTable where
  "tables_DeleteTable t c name w =
     (case tc_Delete (ta_remote t) c name (ta_callOpts t) w of
        (Panic m, w1) \<Rightarrow> (Panic m, w1)
      | (Ret (Inr resp), w1) \<Rightarrow> (Ret (Some resp, None), w1)
      | (Ret (Inl e), w1) \<Rightarrow> (Ret (None, toErr (ta_status t) c w1 (Some e)), w1))"

definition mapProtoListTablesResponse :: "('s \<Rightarrow> 'a) \<Rightarrow> 's PbTableInfo list \<Rightarrow> 'a TableInfo list" where
  "mapProtoListTablesResponse AsMap resp = map (\<lambda>v. \<lparr>tin_ID = ti_Id v, tin_Name = ti_Name v,
     tin_Config = AsMap (ti_Config v)\<rparr>) resp"

definition tables_ListTables where
  "tables_ListTables AsMap t c w =
     (case tc_List (ta_remote t) c () (ta_callOpts t @ [RetryCallOption withRepeatable]) w of
        (Panic m, w1) \<Rightarrow> (Panic m, w1)
      | (Ret (Inr resp), w1) \<Rightarrow> (Ret (Some (mapProtoListTablesResponse AsMap resp), None), w1)
      | (Ret (Inl e), w1) \<Rightarrow> (Ret (None, toErr (ta_status t) c w1 (Some e)), w1))"

lemmas cluster_defs = cluster_MemberList_def cluster_Status_def retryClusterClient_def
  retryCluster_MemberList_def retryCluster_Status_def mapProtoStatusResponse_def

lemmas tables_defs = tables_CreateTable_def tables_DeleteTable_def tables_ListTables_def
  newTables_def retryTablesClient_def retryTables_Create_def retryTables_Delete_def
  retryTables_List_def mapProtoListTablesResponse_def

section \<open>Properties\<close>

text \<open>Creating and deleting a table make one call each with the client's call options only, so
  they are never made repeatable; listing makes one repeatable call and returns the tables in
  the server's order. An error of any of them goes through \<open>toErr\<close>.\<close>

theorem tables_calls:
  "tables_CreateTable (newTables S cl opts) c name w =
      (case tc_Create cl c name opts w of
         (Panic m, w1) \<Rightarrow> (Panic m, w1)
       | (Ret (Inr r), w1) \<Rightarrow> (Ret (Some r, None), w1)
       | (Ret (Inl e), w1) \<Rightarrow> (Ret (None, toErr S c w1 (Some e)), w1))
   \<and> tables_DeleteTable (newTables S cl opts) c name w =
      (case tc_Delete cl c name opts w of
         (Panic m, w1) \<Rightarrow> (Panic m, w1)
       | (Ret (Inr r), w1) \<Rightarrow> (Ret (Some r, None), w1)
       | (Ret (Inl e), w1) \<Rightarrow> (Ret (None, toErr S c w1 (Some e)), w1))
   \<and> tables_ListTables AsMap (newTables S cl opts) c w =
      (case tc_List cl c () (opts @ [RetryCallOption withRepeatable, RetryCallOption withRepeatable]) w of
         (Panic m, w1) \<Rightarrow> (Panic m, w1)
       | (Ret (Inr ts), w1) \<Rightarrow> (Ret (Some (map (\<lambda>v. \<lparr>tin_ID = ti_Id v, tin_Name = ti_Name v,
            tin_Config = AsMap (ti_Config v)\<rparr>) ts), None), w1)
       | (Ret (Inl e), w1) \<Rightarrow> (Ret (None, toErr S c w1 (Some e)), w1))"
  by (auto simp: tables_defs split: prod.split sum.split go.split)

end
