(* ===== verification/Go_Net.thy ===== *)
theory Go_Net
  imports Go_Prelude
begin

text \<open>
  What the client uses of Go's packages \<open>strings\<close>, \<open>path\<close>, \<open>net\<close> and \<open>net/url\<close>. Strings are
  lists of 8-bit characters here. An error of one of these functions is \<open>None\<close>: the client
  looks only at whether there is one. Of a parsed URL only the scheme and the host are kept,
  the parts the client reads; everything that can make \<open>url.Parse\<close> fail is modelled.
\<close>

section \<open>strings\<close>

definition HasPrefix :: "string \<Rightarrow> string \<Rightarrow> bool" where
  "HasPrefix s p = (take (length p) s = p)"

definition HasSuffix :: "string \<Rightarrow> string \<Rightarrow> bool" where
  "HasSuffix s p = (length p \<le> length s \<and> drop (length s - length p) s = p)"

text \<open>Around the first occurrence of a separator.\<close>

fun str_cut :: "string \<Rightarrow> string \<Rightarrow> (string \<times> string) option" where
  "str_cut [] sep = (if sep = [] then Some ([], []) else None)"
| "str_cut (c # s) sep =
     (if HasPrefix (c # s) sep then Some ([], drop (length sep) (c # s))
      else map_option (\<lambda>(a, b). (c # a, b)) (str_cut s sep))"

definition SplitN2 :: "string \<Rightarrow> string \<Rightarrow> string list" where
  "SplitN2 s sep = (case str_cut s sep of None \<Rightarrow> [s] | Some (a, b) \<Rightarrow> [a, b])"

definition str_Contains :: "string \<Rightarrow> string \<Rightarrow> bool" where
  "str_Contains s sep = (str_cut s sep \<noteq> None)"

text \<open>\<open>strings.Split\<close> on a non-empty separator.\<close>

function str_Split :: "string \<Rightarrow> string \<Rightarrow> string list" where
  "str_Split s sep =
     (if sep = [] then [s] else
      case str_cut s sep of None \<Rightarrow> [s] | Some (a, b) \<Rightarrow> a # str_Split b sep)"
  by pat_completeness auto

lemma HasPrefix_append [simp]: "HasPrefix (p @ s) p"
  by (simp add: HasPrefix_def)

lemma HasPrefix_simps [simp]:
  "HasPrefix s []" "\<not> HasPrefix [] (d # p)"
  "HasPrefix (c # s) (d # p) \<longleftrightarrow> c = d \<and> HasPrefix s p"
  by (auto simp: HasPrefix_def)

lemma HasPrefix_iff: "HasPrefix s p \<longleftrightarrow> (\<exists>r. s = p @ r)"
  unfolding HasPrefix_def by (metis append_eq_conv_conj append_take_drop_id)

lemma str_cut_Some: "str_cut s sep = Some (a, b) \<Longrightarrow> s = a @ sep @ b"
proof (induction s sep arbitrary: a b rule: str_cut.induct)
  case (2 c s sep)
  then show ?case
  proof (cases "HasPrefix (c # s) sep")
    case True
    with 2 show ?thesis
      by (metis HasPrefix_def Pair_inject append_Nil append_take_drop_id option.inject str_cut.simps(2))
  qed auto
qed (simp split: if_splits)

lemma str_cut_prefix: "str_cut (sep @ b) sep = Some ([], b)"
proof (cases "sep @ b")
  case (Cons c s)
  moreover from Cons have "HasPrefix (c # s) sep" "drop (length sep) (c # s) = b"
    by (metis HasPrefix_append, metis append_eq_conv_conj)
  ultimately show ?thesis by (simp del: drop_Cons')
qed simp

lemma str_cut_not_None: "HasPrefix s (p @ sep) \<Longrightarrow> str_cut s sep \<noteq> None"
proof (induction p arbitrary: s)
  case Nil
  then obtain r where "s = sep @ r" by (auto simp: HasPrefix_iff)
  then show ?case using str_cut_prefix [of sep r] by auto
next
  case (Cons c p)
  then obtain r where "s = c # p @ sep @ r" by (auto simp: HasPrefix_iff)
  with Cons.IH [of "p @ sep @ r"] show ?case by (auto simp: HasPrefix_iff)
qed

termination str_Split
proof (relation "measure (\<lambda>(s, sep). length s)", goal_cases)
  case (2 s sep x a b)
  then show ?case using str_cut_Some [of s sep a b] by (cases sep) auto
qed simp

declare str_Split.simps [simp del]

text \<open>Around the last occurrence of a character.\<close>

fun cut_last :: "string \<Rightarrow> char \<Rightarrow> (string \<times> string) option" where
  "cut_last [] c = None"
| "cut_last (x # s) c =
     (case cut_last s c of
        Some (a, b) \<Rightarrow> Some (x # a, b)
      | None \<Rightarrow> if x = c then Some ([], s) else None)"

definition to_lower :: "char \<Rightarrow> char" where
  "to_lower c = (let n = (of_char c :: nat) in if 65 \<le> n \<and> n \<le> 90 then char_of (n + 32) else c)"

section \<open>path.Base and net.SplitHostPort\<close>

definition path_Base :: "string \<Rightarrow> string" where
  "path_Base path =
     (if path = [] then ''.''
      else (let p = rev (dropWhile (\<lambda>c. c = CHR ''/'') (rev path));
                q = (case cut_last p CHR ''/'' of Some (a, b) \<Rightarrow> b | None \<Rightarrow> p)
            in if q = [] then ''/'' else q))"

definition SplitHostPort :: "string \<Rightarrow> (string \<times> string) option" where
  "SplitHostPort hostport =
     (case cut_last hostport CHR '':'' of None \<Rightarrow> None
      | Some (before, port) \<Rightarrow>
          if HasPrefix hostport ''['' then
            (case str_cut hostport '']'' of None \<Rightarrow> None
             | Some (addr, rest) \<Rightarrow>
                 if length addr + 1 \<noteq> length before then None
                 else if str_Contains (drop 1 hostport) ''['' \<or> str_Contains rest '']'' then None
                 else Some (drop 1 addr, port))
          else if str_Contains before '':'' then None
          else if str_Contains hostport ''['' \<or> str_Contains hostport '']'' then None
          else Some (before, port))"

section \<open>net/url\<close>

definition is_alpha :: "char \<Rightarrow> bool" where
  "is_alpha c = (let n = (of_char c :: nat) in (97 \<le> n \<and> n \<le> 122) \<or> (65 \<le> n \<and> n \<le> 90))"

definition is_digit :: "char \<Rightarrow> bool" where
  "is_digit c = (let n = (of_char c :: nat) in 48 \<le> n \<and> n \<le> 57)"

text \<open>\<open>unhex\<close>, with \<open>None\<close> for a character that is not a hexadecimal digit.\<close>

definition unhex :: "char \<Rightarrow> nat option" where
  "unhex c = (let n = (of_char c :: nat) in
     if 48 \<le> n \<and> n \<le> 57 then Some (n - 48)
     else if 97 \<le> n \<and> n \<le> 102 then Some (n - 87)
     else if 65 \<le> n \<and> n \<le> 70 then Some (n - 55) else None)"

datatype encoding = encodePath | encodeUserPassword | encodeFragment | encodeHost | encodeZone

text \<open>\<open>shouldEscape\<close> in the modes of a host, the only ones in which \<open>unescape\<close> asks.\<close>

definition shouldEscape_host :: "char \<Rightarrow> bool" where
  "shouldEscape_host c = (\<not> (is_alpha c \<or> is_digit c \<or> c \<in> set ''!$&()*+,;=:[]<>-_.~''
     \<or> c = char_of (39 :: nat) \<or> c = char_of (34 :: nat)))"

fun unescape :: "encoding \<Rightarrow> string \<Rightarrow> string option" where
  "unescape mode [] = Some []"
| "unescape mode (c # s) =
     (if c = CHR ''%'' then
        (case s of
           h # l # rest \<Rightarrow>
             (case (unhex h, unhex l) of
                (Some a, Some b) \<Rightarrow>
                  (let v = char_of (a * 16 + b) :: char in
                   if mode = encodeHost \<and> a < 8 \<and> \<not> (h = CHR ''2'' \<and> l = CHR ''5'') then None
                   else if mode = encodeZone \<and> \<not> (h = CHR ''2'' \<and> l = CHR ''5'') \<and> v \<noteq> CHR '' ''
                     \<and> shouldEscape_host v then None
                   else map_option ((#) v) (unescape mode rest))
              | _ \<Rightarrow> None)
         | _ \<Rightarrow> None)
      else if mode \<in> {encodeHost, encodeZone} \<and> (of_char c :: nat) < 128 \<and> shouldEscape_host c then None
      else map_option ((#) c) (unescape mode s))"

definition validOptionalPort :: "string \<Rightarrow> bool" where
  "validOptionalPort port =
     (case port of [] \<Rightarrow> True | c # ds \<Rightarrow> c = CHR '':'' \<and> list_all is_digit ds)"

definition validUserinfo :: "string \<Rightarrow> bool" where
  "validUserinfo s = list_all (\<lambda>c. is_alpha c \<or> is_digit c \<or> c \<in> set ''-._:~!$&()*+,;=%@''
     \<or> c = char_of (39 :: nat)) s"

definition parseHost :: "string \<Rightarrow> string option" where
  "parseHost host =
     (if HasPrefix host ''['' then
        (case cut_last host CHR '']'' of None \<Rightarrow> None
         | Some (before, colonPort) \<Rightarrow>
             if \<not> validOptionalPort colonPort then None
             else (case str_cut before ''%25'' of
                 Some (h, z) \<Rightarrow>
                   (case (unescape encodeHost h, unescape encodeZone (''%25'' @ z),
                       unescape encodeHost ('']'' @ colonPort)) of
                      (Some h1, Some h2, Some h3) \<Rightarrow> Some (h1 @ h2 @ h3) | _ \<Rightarrow> None)
               | None \<Rightarrow> unescape encodeHost host))
      else (case cut_last host CHR '':'' of
          Some (before, port) \<Rightarrow>
            if \<not> validOptionalPort (CHR '':'' # port) then None else unescape encodeHost host
        | None \<Rightarrow> unescape encodeHost host))"

definition parseAuthority :: "string \<Rightarrow> string option" where
  "parseAuthority authority =
     (case cut_last authority CHR ''@'' of
        None \<Rightarrow> parseHost authority
      | Some (userinfo, h) \<Rightarrow>
          (case parseHost h of None \<Rightarrow> None
           | Some host \<Rightarrow>
               if \<not> validUserinfo userinfo then None
               else (case str_cut userinfo '':'' of
                   None \<Rightarrow> if unescape encodeUserPassword userinfo = None then None else Some host
                 | Some (u, p) \<Rightarrow>
                     if unescape encodeUserPassword u = None \<or> unescape encodeUserPassword p = None
                     then None else Some host)))"

text \<open>\<open>getScheme\<close>: \<open>None\<close> for the error; the position counts the characters before.\<close>

fun getScheme_loop :: "string \<Rightarrow> nat \<Rightarrow> string \<Rightarrow> (string \<times> string) option" where
  "getScheme_loop raw i [] = Some ([], raw)"
| "getScheme_loop raw i (c # s) =
     (if is_alpha c then getScheme_loop raw (Suc i) s
      else if is_digit c \<or> c \<in> set ''+-.'' then
        (if i = 0 then Some ([], raw) else getScheme_loop raw (Suc i) s)
      else if c = CHR '':'' then (if i = 0 then None else Some (take i raw, s))
      else Some ([], raw))"

record URL =
  u_Scheme :: string
  u_Host :: string

definition is_ctl :: "char \<Rightarrow> bool" where
  "is_ctl c = (let n = (of_char c :: nat) in n < 32 \<or> n = 127)"

definition url_parse :: "string \<Rightarrow> URL option" where
  "url_parse raw =
     (if list_ex is_ctl raw then None
      else if raw = ''*'' then Some \<lparr>u_Scheme = [], u_Host = []\<rparr>
      else (case getScheme_loop raw 0 raw of None \<Rightarrow> None
        | Some (scheme0, rest0) \<Rightarrow>
            (let scheme = map to_lower scheme0;
                 rest = (if HasSuffix rest0 ''?'' \<and> count_list rest0 CHR ''?'' = 1 then butlast rest0
                   else case str_cut rest0 ''?'' of Some (a, b) \<Rightarrow> a | None \<Rightarrow> rest0)
             in if \<not> HasPrefix rest ''/'' \<and> scheme \<noteq> [] then Some \<lparr>u_Scheme = scheme, u_Host = []\<rparr>
                else if \<not> HasPrefix rest ''/'' \<and>
                  CHR '':'' \<in> set (case str_cut rest ''/'' of Some (a, b) \<Rightarrow> a | None \<Rightarrow> rest) then None
                else if (scheme \<noteq> [] \<or> \<not> HasPrefix rest ''///'') \<and> HasPrefix rest ''//'' then
                  (let (authority, path) = (case str_cut (drop 2 rest) ''/'' of
                       Some (a, b) \<Rightarrow> (a, CHR ''/'' # b) | None \<Rightarrow> (drop 2 rest, []))
                   in case parseAuthority authority of None \<Rightarrow> None
                      | Some host \<Rightarrow> if unescape encodePath path = None then None
                          else Some \<lparr>u_Scheme = scheme, u_Host = host\<rparr>)
                else if unescape encodePath rest = None then None
                else Some \<lparr>u_Scheme = scheme, u_Host = []\<rparr>)))"

definition url_Parse :: "string \<Rightarrow> URL option" where
  "url_Parse raw =
     (case str_cut raw ''#'' of
        None \<Rightarrow> url_parse raw
      | Some (u, frag) \<Rightarrow>
          (case url_parse u of None \<Rightarrow> None
           | Some url \<Rightarrow> if frag \<noteq> [] \<and> unescape encodeFragment frag = None then None else Some url))"

definition Hostname :: "URL \<Rightarrow> string" where
  "Hostname u =
     (let h = (case cut_last (u_Host u) CHR '':'' of
           Some (before, port) \<Rightarrow> if validOptionalPort (CHR '':'' # port) then before else u_Host u
         | None \<Rightarrow> u_Host u)
      in if HasPrefix h ''['' \<and> HasSuffix h '']'' then butlast (drop 1 h) else h)"

end
