(* ===== verification/Endpoint.thy ===== *)
theory Endpoint
  imports Go_Net
begin

text \<open>
  \<open>internal/endpoint/endpoint.go\<close>: how the endpoint names of the configuration become addresses
  for gRPC, server names for the certificate check, and a requirement for credentials; and
  \<open>internal/resolver/resolver.go\<close>: the resolver that publishes the addresses to a connection.
\<close>

section \<open>Endpoints\<close>

datatype CredsRequirement = CredsRequire | CredsDrop | CredsOptional

definition extractHostFromHostPort :: "string \<Rightarrow> string" where
  "extractHostFromHostPort ep = (case SplitHostPort ep of None \<Rightarrow> ep | Some (host, _) \<Rightarrow> host)"

definition extractHostFromPath :: "string \<Rightarrow> string" where
  "extractHostFromPath pathStr = extractHostFromHostPort (path_Base pathStr)"

definition mustSplit2 :: "string \<Rightarrow> string \<Rightarrow> (string \<times> string) go" where
  "mustSplit2 s sep =
     (let spl = SplitN2 s sep in
      if length spl < 2
      then Panic (''token '' @ s @ '' expected to have separator sep: '' @ sep)
      else Ret (spl ! 0, spl ! 1))"

definition schemeToCredsRequirement :: "string \<Rightarrow> CredsRequirement" where
  "schemeToCredsRequirement schema =
     (if schema = ''https'' \<or> schema = ''unixs'' then CredsRequire
      else if schema = ''http'' then CredsDrop
      else if schema = ''unix'' then CredsOptional
      else if schema = '''' then CredsOptional
      else CredsOptional)"

definition translateEndpoint :: "string \<Rightarrow> (string \<times> string \<times> CredsRequirement) go" where
  "translateEndpoint ep =
     (if HasPrefix ep ''unix:'' \<or> HasPrefix ep ''unixs:'' then
        (if HasPrefix ep ''unix:///'' \<or> HasPrefix ep ''unixs:///'' then
           go_bind (mustSplit2 ep ''://'') (\<lambda>(schema, absolutePath).
             Ret (''unix://'' @ absolutePath, extractHostFromPath absolutePath,
               schemeToCredsRequirement schema))
         else if HasPrefix ep ''unix://'' \<or> HasPrefix ep ''unixs://'' then
           go_bind (mustSplit2 ep ''://'') (\<lambda>(schema, localPath).
             Ret (''unix:'' @ localPath, extractHostFromPath localPath,
               schemeToCredsRequirement schema))
         else
           go_bind (mustSplit2 ep '':'') (\<lambda>(schema, localPath).
             Ret (''unix:'' @ localPath, extractHostFromPath localPath,
               schemeToCredsRequirement schema)))
      else if str_Contains ep ''://'' then
        (case url_Parse ep of
           None \<Rightarrow> Ret (ep, extractHostFromHostPort ep, CredsOptional)
         | Some url \<Rightarrow>
             if u_Scheme url = ''http'' \<or> u_Scheme url = ''https''
             then Ret (u_Host url, Hostname url, schemeToCredsRequirement (u_Scheme url))
             else Ret (ep, Hostname url, schemeToCredsRequirement (u_Scheme url)))
      else Ret (ep, extractHostFromHostPort ep, CredsOptional))"

definition RequiresCredentials :: "string \<Rightarrow> CredsRequirement go" where
  "RequiresCredentials ep =
     go_bind (translateEndpoint ep) (\<lambda>(_, _, requireCreds). Ret requireCreds)"

definition Interpret :: "string \<Rightarrow> (string \<times> string) go" where
  "Interpret ep = go_bind (translateEndpoint ep) (\<lambda>(addr, serverName, _). Ret (addr, serverName))"

section \<open>Facts\<close>

lemma mustSplit2_total: "HasPrefix s (p @ sep) \<Longrightarrow> \<exists>r. mustSplit2 s sep = Ret r"
  using str_cut_not_None [of s p sep]
  by (auto simp: mustSplit2_def SplitN2_def Let_def split: option.splits)

lemma translateEndpoint_total_aux: "\<exists>r. translateEndpoint ep = Ret r"
proof -
  have abs: "\<exists>r. mustSplit2 ep ''://'' = Ret r"
    if "HasPrefix ep ''unix://'' \<or> HasPrefix ep ''unixs://''"
    using that mustSplit2_total [of ep "''unix''" "''://''"] mustSplit2_total [of ep "''unixs''" "''://''"]
    by auto
  have colon: "\<exists>r. mustSplit2 ep '':'' = Ret r" if "HasPrefix ep ''unix:'' \<or> HasPrefix ep ''unixs:''"
    using that mustSplit2_total [of ep "''unix''" "'':''"] mustSplit2_total [of ep "''unixs''" "'':''"]
    by auto
  have pre: "HasPrefix ep ''unix://'' \<or> HasPrefix ep ''unixs://''"
    if "HasPrefix ep ''unix:///'' \<or> HasPrefix ep ''unixs:///''"
    using that by (auto simp: HasPrefix_iff)
  from abs colon pre show ?thesis
    by (auto simp: translateEndpoint_def split: option.splits)
qed

lemma unix_scheme_split:
  assumes "sc \<in> {''unix'', ''unixs''}"
  shows "mustSplit2 (sc @ ''://'' @ p) ''://'' = Ret (sc, p)"
    and "mustSplit2 (sc @ '':'' @ p) '':'' = Ret (sc, p)"
  using assms by (auto simp: mustSplit2_def SplitN2_def)

section \<open>Properties of endpoints\<close>

text \<open>Interpreting an endpoint never panics, for any string: the separator that \<open>mustSplit2\<close>
  insists on is always there.\<close>

theorem Interpret_total:
  "(\<exists>a n. Interpret ep = Ret (a, n)) \<and> (\<exists>q. RequiresCredentials ep = Ret q)"
  using translateEndpoint_total_aux [of ep] by (auto simp: Interpret_def RequiresCredentials_def)

text \<open>Every unix endpoint, in its three notations, keeps its path in the notation gRPC
  expects, takes its server name from the path's last segment without the port, and needs
  credentials exactly with the scheme \<open>unixs\<close>.\<close>

theorem unix_endpoints:
  assumes "sc \<in> {''unix'', ''unixs''}" and "\<not> HasPrefix p ''/''"
  shows "translateEndpoint (sc @ '':///'' @ p) =
      Ret (''unix:///'' @ p, extractHostFromPath (''/'' @ p), schemeToCredsRequirement sc)
    \<and> translateEndpoint (sc @ ''://'' @ p) =
      Ret (''unix:'' @ p, extractHostFromPath p, schemeToCredsRequirement sc)
    \<and> translateEndpoint (sc @ '':'' @ p) =
      Ret (''unix:'' @ p, extractHostFromPath p, schemeToCredsRequirement sc)
    \<and> (schemeToCredsRequirement sc = CredsRequire \<longleftrightarrow> sc = ''unixs'')"
proof -
  from assms(1) consider "sc = ''unix''" | "sc = ''unixs''" by auto
  moreover have "\<not> HasPrefix p ''//''" "\<not> HasPrefix p ''///''"
    using assms(2) by (cases p; simp)+
  ultimately show ?thesis
    using unix_scheme_split [OF assms(1), of p] unix_scheme_split(1) [OF assms(1), of "''/'' @ p"]
      assms(2)
    by cases (simp_all add: translateEndpoint_def schemeToCredsRequirement_def)
qed

theorem unix_endpoints_witness:
  "translateEndpoint ''unixs:///tmp/abc:1234'' = Ret (''unix:///tmp/abc:1234'', ''abc'', CredsRequire)"
proof -
  have "extractHostFromPath ''/tmp/abc:1234'' = ''abc''" by code_simp
  with unix_endpoints [of "''unixs''" "''tmp/abc:1234''"] show ?thesis
    by (simp add: schemeToCredsRequirement_def)
qed

text \<open>The table of endpoints of the package's own test: for each the address, the server name
  and the requirement for credentials.\<close>

theorem endpoint_test_table:
  "map translateEndpoint
    [''127.0.0.1'', ''localhost'', ''localhost:8080'',
     ''unix:127.0.0.1'', ''unix:127.0.0.1:8080'', ''unix://127.0.0.1'', ''unix://127.0.0.1:8080'',
     ''unixs:127.0.0.1'', ''unixs:127.0.0.1:8080'', ''unixs://127.0.0.1'', ''unixs://127.0.0.1:8080'',
     ''http://127.0.0.1'', ''http://127.0.0.1:8080'', ''https://127.0.0.1'',
     ''https://127.0.0.1:8080'', ''https://localhost:20000'',
     ''unix:///tmp/abc'', ''unixs:///tmp/abc'', ''unix:///tmp/abc:1234'', ''unixs:///tmp/abc:1234'',
     ''regatta.io'', ''http://regatta.io/abc'', ''dns://something-other'',
     ''http://[2001:db8:1f70::999:de8:7648:6e8]:100/'', ''[2001:db8:1f70::999:de8:7648:6e8]:100'',
     ''unix:unexpected-file_name#123$456''] =
   map Ret
    [(''127.0.0.1'', ''127.0.0.1'', CredsOptional), (''localhost'', ''localhost'', CredsOptional),
     (''localhost:8080'', ''localhost'', CredsOptional),
     (''unix:127.0.0.1'', ''127.0.0.1'', CredsOptional), (''unix:127.0.0.1:8080'', ''127.0.0.1'', CredsOptional),
     (''unix:127.0.0.1'', ''127.0.0.1'', CredsOptional), (''unix:127.0.0.1:8080'', ''127.0.0.1'', CredsOptional),
     (''unix:127.0.0.1'', ''127.0.0.1'', CredsRequire), (''unix:127.0.0.1:8080'', ''127.0.0.1'', CredsRequire),
     (''unix:127.0.0.1'', ''127.0.0.1'', CredsRequire), (''unix:127.0.0.1:8080'', ''127.0.0.1'', CredsRequire),
     (''127.0.0.1'', ''127.0.0.1'', CredsDrop), (''127.0.0.1:8080'', ''127.0.0.1'', CredsDrop),
     (''127.0.0.1'', ''127.0.0.1'', CredsRequire), (''127.0.0.1:8080'', ''127.0.0.1'', CredsRequire),
     (''localhost:20000'', ''localhost'', CredsRequire),
     (''unix:///tmp/abc'', ''abc'', CredsOptional), (''unix:///tmp/abc'', ''abc'', CredsRequire),
     (''unix:///tmp/abc:1234'', ''abc'', CredsOptional), (''unix:///tmp/abc:1234'', ''abc'', CredsRequire),
     (''regatta.io'', ''regatta.io'', CredsOptional), (''regatta.io'', ''regatta.io'', CredsDrop),
     (''dns://something-other'', ''something-other'', CredsOptional),
     (''[2001:db8:1f70::999:de8:7648:6e8]:100'', ''2001:db8:1f70::999:de8:7648:6e8'', CredsDrop),
     (''[2001:db8:1f70::999:de8:7648:6e8]:100'', ''2001:db8:1f70::999:de8:7648:6e8'', CredsOptional),
     (''unix:unexpected-file_name#123$456'', ''unexpected-file_name#123$456'', CredsOptional)]"
  by code_simp

text \<open>An \<open>https\<close> endpoint that \<open>url.Parse\<close> rejects, here for its port, is not refused: it is
  passed on as it is, and credentials become optional.\<close>

theorem malformed_https_not_refused:
  "translateEndpoint ''https://db.example:port'' =
     Ret (''https://db.example:port'', ''https://db.example:port'', CredsOptional)"
  by code_simp

end
