(* ===== verification/Resolver.thy ===== *)
theory Resolver
  imports Endpoint Go_Errors
begin

text \<open>
  \<open>internal/resolver/resolver.go\<close>: the resolver whose endpoints the client can change. The
  package \<open>manual\<close> of gRPC that it extends, the connection it publishes to and the service
  configuration are a parameter: a record of the operations the code calls.
\<close>

section \<open>Model\<close>

definition Schema :: string where "Schema = ''regatta-endpoints''"

record Address =
  ad_Addr :: string
  ad_ServerName :: string

record 'sc State =
  rst_Addresses :: "Address list"
  rst_ServiceConfig :: "'sc option"

record ('m, 'cc, 'sc, 'w) manual_pkg =
  mp_New :: "string \<Rightarrow> 'm"
  mp_CC :: "'m \<Rightarrow> 'cc option"
  mp_Build :: "'cc \<Rightarrow> 'm \<Rightarrow> 'w \<Rightarrow> err option \<times> 'm \<times> 'w"
  mp_UpdateState :: "'sc State \<Rightarrow> 'm \<Rightarrow> 'w \<Rightarrow> 'm \<times> 'w"
  mp_ParseServiceConfig :: "'cc \<Rightarrow> string \<Rightarrow> 'w \<Rightarrow> 'sc \<times> 'w"
  mp_Err :: "'sc \<Rightarrow> err option"

record ('m, 'sc) RegattaManualResolver =
  rm_Resolver :: 'm
  rm_endpoints :: "string list"
  rm_serviceConfig :: "'sc option"

definition resolver_New ::
  "('m, 'cc, 'sc, 'w) manual_pkg \<Rightarrow> string list \<Rightarrow> ('m, 'sc) RegattaManualResolver" where
  "resolver_New P endpoints = \<lparr>rm_Resolver = mp_New P Schema, rm_endpoints = endpoints,
     rm_serviceConfig = None\<rparr>"

definition updateState ::
  "('m, 'cc, 'sc, 'w) manual_pkg \<Rightarrow> ('m, 'sc) RegattaManualResolver \<Rightarrow> 'w \<Rightarrow>
     unit go \<times> ('m, 'sc) RegattaManualResolver \<times> 'w" where
  "updateState P r w =
     (if mp_CC P (rm_Resolver r) \<noteq> None then
        (case go_map (\<lambda>ep. go_bind (Interpret ep) (\<lambda>(addr, serverName).
             Ret \<lparr>ad_Addr = addr, ad_ServerName = serverName\<rparr>)) (rm_endpoints r) of
           Panic m \<Rightarrow> (Panic m, r, w)
         | Ret addresses \<Rightarrow>
             (case mp_UpdateState P \<lparr>rst_Addresses = addresses,
                  rst_ServiceConfig = rm_serviceConfig r\<rparr> (rm_Resolver r) w of
                (m, w1) \<Rightarrow> (Ret (), r\<lparr>rm_Resolver := m\<rparr>, w1)))
      else (Ret (), r, w))"

definition resolver_SetEndpoints where
  "resolver_SetEndpoints P endpoints r w = updateState P (r\<lparr>rm_endpoints := endpoints\<rparr>) w"

definition resolver_Build ::
  "('m, 'cc, 'sc, 'w) manual_pkg \<Rightarrow> 'cc \<Rightarrow> ('m, 'sc) RegattaManualResolver \<Rightarrow> 'w \<Rightarrow>
     err option go \<times> ('m, 'sc) RegattaManualResolver \<times> 'w" where
  "resolver_Build P cc r w =
     (case mp_ParseServiceConfig P cc (''{'' @ [CHR 0x22] @ ''loadBalancingPolicy'' @ [CHR 0x22] @
          '': '' @ [CHR 0x22] @ ''round_robin'' @ [CHR 0x22] @ ''}'') w of
        (sc, w1) \<Rightarrow>
          (let r1 = r\<lparr>rm_serviceConfig := Some sc\<rparr> in
           if mp_Err P sc \<noteq> None then (Ret (mp_Err P sc), r1, w1)
           else (case mp_Build P cc (rm_Resolver r1) w1 of
               (Some e, m, w2) \<Rightarrow> (Ret (Some e), r1\<lparr>rm_Resolver := m\<rparr>, w2)
             | (None, m, w2) \<Rightarrow>
                 (case updateState P (r1\<lparr>rm_Resolver := m\<rparr>) w2 of
                    (Panic p, r2, w3) \<Rightarrow> (Panic p, r2, w3)
                  | (Ret _, r2, w3) \<Rightarrow> (Ret None, r2, w3)))))"

section \<open>The documented behaviour of the parameter\<close>

text \<open>\<open>seen w\<close> is the state the connection was last given.\<close>

definition manual_ok ::
  "('m, 'cc, 'sc, 'w) manual_pkg \<Rightarrow> ('w \<Rightarrow> 'sc State option) \<Rightarrow> bool" where
  "manual_ok P seen \<longleftrightarrow>
     (\<forall>s. mp_CC P (mp_New P s) = None) \<and>
     (\<forall>cc m w. case mp_Build P cc m w of
        (None, m1, w1) \<Rightarrow> mp_CC P m1 = Some cc
      | (Some e, m1, w1) \<Rightarrow> mp_CC P m1 = mp_CC P m \<and> seen w1 = seen w) \<and>
     (\<forall>s m w. case mp_UpdateState P s m w of (m1, w1) \<Rightarrow>
        mp_CC P m1 = mp_CC P m \<and> (mp_CC P m \<noteq> None \<longrightarrow> seen w1 = Some s)) \<and>
     (\<forall>cc j w. seen (snd (mp_ParseServiceConfig P cc j w)) = seen w)"

definition addresses_of :: "string list \<Rightarrow> Address list \<Rightarrow> bool" where
  "addresses_of eps as = list_all2 (\<lambda>ep a. Interpret ep = Ret (ad_Addr a, ad_ServerName a)) eps as"

text \<open>What gRPC and the client do with a resolver, in any order.\<close>

inductive resolver_reachable ::
  "('m, 'cc, 'sc, 'w) manual_pkg \<Rightarrow> string list \<Rightarrow> 'w \<Rightarrow> ('m, 'sc) RegattaManualResolver \<Rightarrow> 'w \<Rightarrow> bool"
  for P eps0 w0 where
  start: "resolver_reachable P eps0 w0 (resolver_New P eps0) w0"
| set_endpoints: "resolver_reachable P eps0 w0 r w \<Longrightarrow>
    resolver_SetEndpoints P eps r w = (Ret (), r1, w1) \<Longrightarrow> resolver_reachable P eps0 w0 r1 w1"
| build: "resolver_reachable P eps0 w0 r w \<Longrightarrow> resolver_Build P cc r w = (Ret e, r1, w1) \<Longrightarrow>
    resolver_reachable P eps0 w0 r1 w1"

section \<open>Facts\<close>

lemma interpret_addresses:
  "\<exists>as. go_map (\<lambda>ep. go_bind (Interpret ep) (\<lambda>(addr, serverName).
     Ret \<lparr>ad_Addr = addr, ad_ServerName = serverName\<rparr>)) eps = Ret as \<and> addresses_of eps as"
proof -
  have one: "\<exists>a. Interpret ep = Ret (ad_Addr a, ad_ServerName a) \<and>
      go_bind (Interpret ep) (\<lambda>(addr, serverName).
        Ret \<lparr>ad_Addr = addr, ad_ServerName = serverName\<rparr>) = Ret a" for ep
  proof -
    obtain x n where "Interpret ep = Ret (x, n)"
      using translateEndpoint_total_aux [of ep] by (auto simp: Interpret_def)
    then show ?thesis by (intro exI [of _ "\<lparr>ad_Addr = x, ad_ServerName = n\<rparr>"]) simp
  qed
  show ?thesis
  proof (induction eps)
    case (Cons ep eps)
    with one [of ep] show ?case by (fastforce simp: addresses_of_def)
  qed (simp add: addresses_of_def)
qed

definition published :: "('m, 'cc, 'sc, 'w) manual_pkg \<Rightarrow> ('w \<Rightarrow> 'sc State option) \<Rightarrow>
    ('m, 'sc) RegattaManualResolver \<Rightarrow> 'w \<Rightarrow> bool" where
  "published P seen r w \<longleftrightarrow> (\<exists>s. seen w = Some s \<and> addresses_of (rm_endpoints r) (rst_Addresses s))"

lemma manual_new: "manual_ok P seen \<Longrightarrow> mp_CC P (mp_New P s) = None"
  by (simp add: manual_ok_def)

lemma manual_build:
  "manual_ok P seen \<Longrightarrow> mp_Build P cc m w = (None, m1, w1) \<Longrightarrow> mp_CC P m1 = Some cc"
  "manual_ok P seen \<Longrightarrow> mp_Build P cc m w = (Some e, m1, w1) \<Longrightarrow>
     mp_CC P m1 = mp_CC P m \<and> seen w1 = seen w"
  unfolding manual_ok_def by (drule conjunct2, drule conjunct1, drule spec [of _ cc], drule spec [of _ m],
      drule spec [of _ w], simp)+

lemma manual_update:
  "manual_ok P seen \<Longrightarrow> mp_UpdateState P s m w = (m1, w1) \<Longrightarrow>
     mp_CC P m1 = mp_CC P m \<and> (mp_CC P m \<noteq> None \<longrightarrow> seen w1 = Some s)"
  unfolding manual_ok_def by (drule conjunct2, drule conjunct2, drule conjunct1, drule spec [of _ s],
      drule spec [of _ m], drule spec [of _ w], simp)

lemma manual_parse:
  "manual_ok P seen \<Longrightarrow> mp_ParseServiceConfig P cc j w = (sc, w1) \<Longrightarrow> seen w1 = seen w"
  unfolding manual_ok_def by (metis snd_conv)

lemma updateState_ok:
  assumes "manual_ok P seen"
  shows "\<exists>r1 w1. updateState P r w = (Ret (), r1, w1) \<and> rm_endpoints r1 = rm_endpoints r \<and>
    rm_serviceConfig r1 = rm_serviceConfig r \<and>
    mp_CC P (rm_Resolver r1) = mp_CC P (rm_Resolver r) \<and>
    (if mp_CC P (rm_Resolver r) = None then seen w1 = seen w else published P seen r1 w1)"
proof -
  obtain as where as: "go_map (\<lambda>ep. go_bind (Interpret ep) (\<lambda>(addr, serverName).
     Ret \<lparr>ad_Addr = addr, ad_ServerName = serverName\<rparr>)) (rm_endpoints r) = Ret as"
    "addresses_of (rm_endpoints r) as" using interpret_addresses by blast
  let ?s = "\<lparr>rst_Addresses = as, rst_ServiceConfig = rm_serviceConfig r\<rparr>"
  obtain m w1 where up: "mp_UpdateState P ?s (rm_Resolver r) w = (m, w1)" by fastforce
  from manual_update [OF assms up]
  have "mp_CC P m = mp_CC P (rm_Resolver r)" "mp_CC P (rm_Resolver r) \<noteq> None \<Longrightarrow> seen w1 = Some ?s"
    by auto
  with as up show ?thesis by (auto simp: updateState_def published_def)
qed

lemma build_ok:
  assumes "manual_ok P seen" and "resolver_Build P cc r w = (Ret e, r1, w1)"
    and "mp_CC P (rm_Resolver r) \<noteq> None \<Longrightarrow> published P seen r w"
  shows "rm_endpoints r1 = rm_endpoints r \<and>
    (if mp_CC P (rm_Resolver r1) = None then mp_CC P (rm_Resolver r) = None \<and> seen w1 = seen w
     else published P seen r1 w1)"
proof -
  let ?json = "''{'' @ [CHR 0x22] @ ''loadBalancingPolicy'' @ [CHR 0x22] @
          '': '' @ [CHR 0x22] @ ''round_robin'' @ [CHR 0x22] @ ''}''"
  obtain sc w2 where parse: "mp_ParseServiceConfig P cc ?json w = (sc, w2)" by fastforce
  obtain b m w3 where build: "mp_Build P cc (rm_Resolver r) w2 = (b, m, w3)" by (metis prod_cases3)
  have seen2: "seen w2 = seen w" by (rule manual_parse [OF assms(1) parse])
  have pub: "published P seen (r\<lparr>rm_serviceConfig := x, rm_Resolver := y\<rparr>) w' \<longleftrightarrow> published P seen r w"
    if "seen w' = seen w" for x y w' using that by (simp add: published_def)
  show ?thesis
  proof (cases "mp_Err P sc")
    case (Some e')
    with assms(2) parse have "r1 = r\<lparr>rm_serviceConfig := Some sc\<rparr>" "w1 = w2"
      by (simp_all add: resolver_Build_def Let_def)
    with assms(3) seen2 show ?thesis by (auto simp: published_def)
  next
    case None
    show ?thesis
    proof (cases b)
      case (Some e')
      with assms(2) parse build None
      have "r1 = r\<lparr>rm_serviceConfig := Some sc, rm_Resolver := m\<rparr>" "w1 = w3"
        by (simp_all add: resolver_Build_def Let_def)
      with assms(3) seen2 manual_build(2) [OF assms(1)] build Some pub show ?thesis by auto
    next
      case b: None
      let ?r = "r\<lparr>rm_serviceConfig := Some sc, rm_Resolver := m\<rparr>"
      have "mp_CC P (rm_Resolver ?r) = Some cc"
        using manual_build(1) [OF assms(1)] build b by simp
      then obtain r2 w4 where up: "updateState P ?r w3 = (Ret (), r2, w4)"
        "rm_endpoints r2 = rm_endpoints r" "mp_CC P (rm_Resolver r2) = Some cc" "published P seen r2 w4"
        using updateState_ok [OF assms(1), of ?r w3] by auto
      from assms(2) parse build None b up(1) have "r1 = r2" "w1 = w4"
        by (simp_all add: resolver_Build_def Let_def)
      with up show ?thesis by simp
    qed
  qed
qed

lemma reachable_published:
  assumes "manual_ok P seen" and "resolver_reachable P eps0 w0 r w"
  shows "if mp_CC P (rm_Resolver r) = None then seen w = seen w0 else published P seen r w"
  using assms(2)
proof induction
  case start
  show ?case by (simp add: manual_new [OF assms(1)] resolver_New_def)
next
  case (set_endpoints r w eps r1 w1)
  from updateState_ok [OF assms(1), of "r\<lparr>rm_endpoints := eps\<rparr>" w] set_endpoints
  show ?case by (auto simp: resolver_SetEndpoints_def split: if_splits)
next
  case (build r w cc e r1 w1)
  then have "mp_CC P (rm_Resolver r) \<noteq> None \<Longrightarrow> published P seen r w" by simp
  from build_ok [OF assms(1) build.hyps(2) this] build.IH show ?case by (auto split: if_splits)
qed

section \<open>Property\<close>

text \<open>C24: Whatever the order in which the connection is built and the endpoints are changed, a
  resolver with a connection has last published exactly the addresses and server names of its
  current endpoints, in their order; before there is a connection it has published nothing.\<close>

theorem resolver_publishes_current_endpoints:
  assumes "manual_ok P seen" and "resolver_reachable P eps0 w0 r w"
  shows "if mp_CC P (rm_Resolver r) = None then seen w = seen w0
    else (\<exists>s. seen w = Some s \<and> list_all2 (\<lambda>ep a. Interpret ep = Ret (ad_Addr a, ad_ServerName a))
      (rm_endpoints r) (rst_Addresses s))"
  using reachable_published [OF assms] unfolding published_def addresses_of_def .

text \<open>A manual resolver and connection that behave as documented; the world is the last state.\<close>

definition doc_manual :: "(unit option, unit, unit, unit State option) manual_pkg" where
  "doc_manual = \<lparr>mp_New = (\<lambda>s. None), mp_CC = (\<lambda>m. m), mp_Build = (\<lambda>cc m w. (None, Some cc, w)),
     mp_UpdateState = (\<lambda>s m w. (m, if m = None then w else Some s)),
     mp_ParseServiceConfig = (\<lambda>cc j w. ((), w)), mp_Err = (\<lambda>sc. None)\<rparr>"

theorem resolver_publishes_current_endpoints_witness:
  "\<exists>r s. resolver_reachable doc_manual [''localhost:80''] None r (Some s) \<and>
     rm_endpoints r = [''unix:a''] \<and> map ad_Addr (rst_Addresses s) = [''unix:a'']"
proof -
  have ok: "manual_ok doc_manual (\<lambda>w. w)" by (simp add: manual_ok_def doc_manual_def)
  let ?r = "\<lparr>rm_Resolver = Some (), rm_endpoints = [''localhost:80''], rm_serviceConfig = Some ()\<rparr>"
  obtain r1 w1 where u: "updateState doc_manual ?r None = (Ret (), r1, w1)"
      "mp_CC doc_manual (rm_Resolver r1) = Some ()"
    using updateState_ok [OF ok, of ?r None] by (auto simp: doc_manual_def)
  then have b: "resolver_Build doc_manual () (resolver_New doc_manual [''localhost:80'']) None =
      (Ret None, r1, w1)" "mp_CC doc_manual (rm_Resolver r1) = Some ()"
    by (simp_all add: resolver_Build_def doc_manual_def resolver_New_def)
  obtain r2 w2 where s: "resolver_SetEndpoints doc_manual [''unix:a''] r1 w1 = (Ret (), r2, w2)"
    "mp_CC doc_manual (rm_Resolver r2) = Some ()" "rm_endpoints r2 = [''unix:a'']"
    using updateState_ok [OF ok, of "r1\<lparr>rm_endpoints := [''unix:a'']\<rparr>" w1] b(2)
    by (auto simp: resolver_SetEndpoints_def)
  have reach: "resolver_reachable doc_manual [''localhost:80''] None r2 w2"
    by (rule resolver_reachable.set_endpoints [OF resolver_reachable.build [OF resolver_reachable.start b(1)] s(1)])
  moreover obtain st where "w2 = Some st" "list_all2 (\<lambda>ep a. Interpret ep =
      Ret (ad_Addr a, ad_ServerName a)) [''unix:a''] (rst_Addresses st)"
    using resolver_publishes_current_endpoints [OF ok reach] s(2,3) by auto
  moreover have "Interpret ''unix:a'' = Ret (''unix:a'', ''a'')" by code_simp
  ultimately show ?thesis using s(3)
    by (intro exI [of _ r2] exI [of _ st]) (auto simp: list_all2_Cons1)
qed

end
