(* ===== verification/Loggers.thy ===== *)
theory Loggers
  imports Main
begin

text \<open>
  \<open>log.go\<close>, \<open>plugin/rlogrus\<close> and \<open>plugin/rzap\<close>: the loggers of the package. A logger is the
  record of its methods, each of which takes a format and its arguments, already printed, and
  changes the world. \<open>log.Printf\<close> and the two logging libraries are parameters. The rest of the
  development leaves the calls of the logger out: their effect is none of its business.
\<close>

type_synonym 'w log_method = "string \<Rightarrow> string list \<Rightarrow> 'w \<Rightarrow> 'w"

record 'w Logger =
  lg_Infof :: "'w log_method"
  lg_Debugf :: "'w log_method"
  lg_Warnf :: "'w log_method"
  lg_Errorf :: "'w log_method"

definition NoOpLogger :: "'w Logger" where
  "NoOpLogger = \<lparr>lg_Infof = (\<lambda>s a w. w), lg_Debugf = (\<lambda>s a w. w), lg_Warnf = (\<lambda>s a w. w),
     lg_Errorf = (\<lambda>s a w. w)\<rparr>"

definition defaultLogger :: "'w Logger" where "defaultLogger = NoOpLogger"

definition PrintLogger :: "'w log_method \<Rightarrow> 'w Logger" where
  "PrintLogger Printf = \<lparr>lg_Infof = Printf, lg_Debugf = Printf, lg_Warnf = Printf, lg_Errorf = Printf\<rparr>"

text \<open>The methods of \<open>logrus.Logger\<close> and of the sugared logger of zap that the plugins call.\<close>

record 'w log_library =
  ll_Infof :: "'w log_method"
  ll_Debugf :: "'w log_method"
  ll_Warnf :: "'w log_method"
  ll_Errorf :: "'w log_method"

definition rlogrus_New :: "'w log_library \<Rightarrow> 'w Logger" where
  "rlogrus_New ll = \<lparr>lg_Infof = (\<lambda>s a. ll_Infof ll s a), lg_Debugf = (\<lambda>s a. ll_Debugf ll s a),
     lg_Warnf = (\<lambda>s a. ll_Warnf ll s a), lg_Errorf = (\<lambda>s a. ll_Errorf ll s a)\<rparr>"

definition rzap_New :: "('z \<Rightarrow> 'w log_library) \<Rightarrow> 'z \<Rightarrow> 'w Logger" where
  "rzap_New Sugar z = (let zl = Sugar z in
     \<lparr>lg_Infof = (\<lambda>s a. ll_Infof zl s a), lg_Debugf = (\<lambda>s a. ll_Debugf zl s a),
      lg_Warnf = (\<lambda>s a. ll_Warnf zl s a), lg_Errorf = (\<lambda>s a. ll_Errorf zl s a)\<rparr>)"

end
