(* ===== verification/Credentials.thy ===== *)
theory Credentials
  imports Go_Errors
begin

text \<open>
  \<open>credentials/credentials.go\<close>: the bundle of transport and per-call credentials. gRPC's own
  transport credentials are values \<open>'g\<close> with the methods of the record \<open>transport_api\<close>; the
  transport credentials that a bundle starts with are determined by its TLS configuration, nil
  or not, which stands for them in \<open>creds_bundle\<close>.
\<close>

section \<open>Transport credentials\<close>

record ('g, 'raw, 'conn, 'auth, 'info, 'w) transport_api =
  ti_NewTLS :: "string option \<Rightarrow> 'g"
  ti_ClientHandshake :: "'g \<Rightarrow> string \<Rightarrow> 'raw \<Rightarrow> 'w \<Rightarrow> (err + 'conn \<times> 'auth) \<times> 'w"
  ti_ServerHandshake :: "'g \<Rightarrow> 'raw \<Rightarrow> 'w \<Rightarrow> (err + 'conn \<times> 'auth) \<times> 'w"
  ti_Info :: "'g \<Rightarrow> 'info"
  ti_Clone :: "'g \<Rightarrow> 'g"
  ti_OverrideServerName :: "'g \<Rightarrow> string \<Rightarrow> err option \<times> 'g"

record 'g transportCredential =
  tcr_gtc :: 'g

definition newTransportCredential where
  "newTransportCredential A cfg = \<lparr>tcr_gtc = ti_NewTLS A cfg\<rparr>"

definition ClientHandshake where
  "ClientHandshake A tc authority rawConn w = ti_ClientHandshake A (tcr_gtc tc) authority rawConn w"

definition ServerHandshake where
  "ServerHandshake A tc rawConn w = ti_ServerHandshake A (tcr_gtc tc) rawConn w"

definition Info where
  "Info A tc = ti_Info A (tcr_gtc tc)"

definition Clone :: "('g, 'raw, 'conn, 'auth, 'info, 'w) transport_api \<Rightarrow> 'g transportCredential \<Rightarrow>
    'g transportCredential" where
  "Clone A tc = \<lparr>tcr_gtc = ti_Clone A (tcr_gtc tc)\<rparr>"

definition OverrideServerName :: "('g, 'raw, 'conn, 'auth, 'info, 'w) transport_api \<Rightarrow> string \<Rightarrow>
    'g transportCredential \<Rightarrow> err option \<times> 'g transportCredential" where
  "OverrideServerName A name tc = (case ti_OverrideServerName A (tcr_gtc tc) name of
     (e, g) \<Rightarrow> (e, tc\<lparr>tcr_gtc := g\<rparr>))"

section \<open>Per-call credentials and the bundle\<close>

record 't creds_bundle =
  bu_tc :: "'t option"
  bu_rc :: "string option"

definition newPerRPCCredential :: string where "newPerRPCCredential = []"

definition NewBundle :: "'t option \<Rightarrow> 't creds_bundle" where
  "NewBundle tls = \<lparr>bu_tc = tls, bu_rc = Some newPerRPCCredential\<rparr>"

definition TransportCredentials :: "'t creds_bundle \<Rightarrow> 't option" where
  "TransportCredentials b = bu_tc b"

definition PerRPCCredentials :: "'t creds_bundle \<Rightarrow> string option" where
  "PerRPCCredentials b = bu_rc b"

definition NewWithMode :: "'t creds_bundle \<Rightarrow> string \<Rightarrow> 't creds_bundle option \<times> err option" where
  "NewWithMode b mode = (None, None)"

definition RequireTransportSecurity :: "string \<Rightarrow> bool" where
  "RequireTransportSecurity rc = False"

definition UpdateAuthToken :: "string \<Rightarrow> 't creds_bundle \<Rightarrow> 't creds_bundle" where
  "UpdateAuthToken token b =
     (if bu_rc b = None then b else b\<lparr>bu_rc := Some token\<rparr>)"

definition TokenFieldNameGRPC :: string where "TokenFieldNameGRPC = ''token''"

definition GetRequestMetadata :: "string \<Rightarrow> string \<rightharpoonup> string" where
  "GetRequestMetadata authToken =
     (if authToken = [] then Map.empty else [TokenFieldNameGRPC \<mapsto> authToken])"

text \<open>
  What a call carries after any number of updates of the token: the last one that was set, and
  nothing while it is empty. The transport credentials are not touched by the updates.
\<close>

lemma metadata_after_updates:
  "map_option GetRequestMetadata (PerRPCCredentials (fold UpdateAuthToken tokens (NewBundle tls))) =
     Some (if tokens = [] \<or> List.last tokens = [] then Map.empty
       else [TokenFieldNameGRPC \<mapsto> List.last tokens]) \<and>
   TransportCredentials (fold UpdateAuthToken tokens (NewBundle tls)) = tls"
proof -
  have "fold UpdateAuthToken ts b = b\<lparr>bu_rc := if ts = [] then bu_rc b else Some (List.last ts)\<rparr>"
    if "bu_rc b \<noteq> None" for ts and b :: "'a creds_bundle"
    using that by (induction ts arbitrary: b) (auto simp: UpdateAuthToken_def)
  from this [of "NewBundle tls" tokens] show ?thesis
    by (simp add: NewBundle_def newPerRPCCredential_def PerRPCCredentials_def TransportCredentials_def
        GetRequestMetadata_def)
qed

end
