(* ===== verification/Client_Config.thy ===== *)
theory Client_Config
  imports Client_Hooks Client_TLS Client_Retry Client_Cluster Resolver Loggers Credentials
    "HOL-Library.Multiset"
begin

text \<open>
  \<open>config.go\<close> and \<open>client.go\<close>: the configuration and its options, and the life of a client:
  construction, dialling, endpoints, synchronisation with the membership, the version check and
  closing. gRPC is a parameter: a record of the functions of connections and generated clients
  that the code calls. Mutexes only guard single assignments here and are left out, as are the
  calls of the logger.
\<close>

section \<open>Configuration\<close>

record ('cert, 'x509, 'w) config =
  cf_Endpoints :: "string list"
  cf_AutoSyncInterval :: duration
  cf_DialKeepAliveTime :: duration
  cf_DialKeepAliveTimeout :: duration
  cf_InitialConnectionTimeout :: duration
  cf_MaxCallSendMsgSize :: int
  cf_MaxCallRecvMsgSize :: int
  cf_TLS :: "('cert, 'x509, 'w) tls_Config option"
  cf_DialOptions :: "string list"
  cf_Context :: "'w ctx option"
  cf_Logger :: "'w Logger option"
  cf_PermitWithoutStream :: bool
  cf_RejectOldCluster :: bool
  cf_Hooks :: "'w Hook list"

definition zero_config :: "('cert, 'x509, 'w) config" where
  "zero_config = \<lparr>cf_Endpoints = [], cf_AutoSyncInterval = 0, cf_DialKeepAliveTime = 0,
     cf_DialKeepAliveTimeout = 0, cf_InitialConnectionTimeout = 0, cf_MaxCallSendMsgSize = 0,
     cf_MaxCallRecvMsgSize = 0, cf_TLS = None, cf_DialOptions = [], cf_Context = None, cf_Logger = None,
     cf_PermitWithoutStream = False, cf_RejectOldCluster = False, cf_Hooks = []\<rparr>"

text \<open>
  An option changes the configuration; \<open>WithSecureConfig\<close> reads files, may panic, and does not
  return when decoding the certificates does not.
\<close>

type_synonym ('cert, 'x509, 'w) Option =
  "('cert, 'x509, 'w) config \<Rightarrow> 'w \<Rightarrow> ('cert, 'x509, 'w) config go option"

definition set_option :: "(('cert, 'x509, 'w) config \<Rightarrow> ('cert, 'x509, 'w) config) \<Rightarrow>
    ('cert, 'x509, 'w) Option" where
  "set_option u c w = Some (Ret (u c))"

definition WithDialOptions where
  "WithDialOptions dial = set_option (\<lambda>c. c\<lparr>cf_DialOptions := dial\<rparr>)"
definition WithEndpoints where
  "WithEndpoints endpoints = set_option (\<lambda>c. c\<lparr>cf_Endpoints := endpoints\<rparr>)"
definition WithDialTimeout where
  "WithDialTimeout t = set_option (\<lambda>c. c\<lparr>cf_InitialConnectionTimeout := t\<rparr>)"
definition WithInitialConnectionTimeout where
  "WithInitialConnectionTimeout t = set_option (\<lambda>c. c\<lparr>cf_InitialConnectionTimeout := t\<rparr>)"
definition WithKeepalive where
  "WithKeepalive keepaliveTime keepaliveTimeout = set_option (\<lambda>c.
     c\<lparr>cf_DialKeepAliveTime := keepaliveTime, cf_DialKeepAliveTimeout := keepaliveTimeout\<rparr>)"
definition WithAutoSyncInterval where
  "WithAutoSyncInterval interval = set_option (\<lambda>c. c\<lparr>cf_AutoSyncInterval := interval\<rparr>)"
definition WithLogger where
  "WithLogger logger = set_option (\<lambda>c. c\<lparr>cf_Logger := logger\<rparr>)"
definition WithHooks where
  "WithHooks hooks = set_option (\<lambda>c. c\<lparr>cf_Hooks := hooks\<rparr>)"
definition WithSecureConfig ::
  "('cert, 'x509, 'w) tls_env \<Rightarrow> SecureConfig option \<Rightarrow> ('cert, 'x509, 'w) Option" where
  "WithSecureConfig E sc = (\<lambda>c w. map_option
     (\<lambda>g. go_bind g (\<lambda>t. Ret (c\<lparr>cf_TLS := t\<rparr>))) (newTLSConfig E w sc))"
definition WithMaxCallRecvMsgSize where
  "WithMaxCallRecvMsgSize n = set_option (\<lambda>c. c\<lparr>cf_MaxCallRecvMsgSize := n\<rparr>)"
definition WithMaxCallSendMsgSize where
  "WithMaxCallSendMsgSize n = set_option (\<lambda>c. c\<lparr>cf_MaxCallSendMsgSize := n\<rparr>)"
definition WithRejectOldCluster where
  "WithRejectOldCluster roc = set_option (\<lambda>c. c\<lparr>cf_RejectOldCluster := roc\<rparr>)"

fun apply_options ::
  "('cert, 'x509, 'w) Option list \<Rightarrow> ('cert, 'x509, 'w) Option" where
  "apply_options [] c w = Some (Ret c)"
| "apply_options (opt # opts) c w =
     (case opt c w of None \<Rightarrow> None | Some (Panic m) \<Rightarrow> Some (Panic m)
      | Some (Ret c1) \<Rightarrow> apply_options opts c1 w)"

section \<open>Limits of message sizes\<close>

text \<open>Decimal digits, as \<open>%d\<close> prints them.\<close>

fun dec_nat :: "nat \<Rightarrow> string" where
  "dec_nat n = (if n < 10 then [char_of (48 + n)] else dec_nat (n div 10) @ [char_of (48 + n mod 10)])"

declare dec_nat.simps [simp del]

definition dec_int :: "int \<Rightarrow> string" where
  "dec_int i = (if i < 0 then CHR ''-'' # dec_nat (nat (- i)) else dec_nat (nat i))"

definition MaxCallSendMsgSize :: "int \<Rightarrow> 'w CallOption" where
  "MaxCallSendMsgSize n = GrpcCallOption (''MaxCallSendMsgSize('' @ dec_int n @ '')'')"
definition MaxCallRecvMsgSize :: "int \<Rightarrow> 'w CallOption" where
  "MaxCallRecvMsgSize n = GrpcCallOption (''MaxCallRecvMsgSize('' @ dec_int n @ '')'')"

definition defaultWaitForReady :: "'w CallOption" where
  "defaultWaitForReady = GrpcCallOption ''WaitForReady(true)''"
definition defaultMaxCallSendMsgSize :: "'w CallOption" where
  "defaultMaxCallSendMsgSize = GrpcCallOption ''MaxCallSendMsgSize(2097152)''"
definition defaultMaxCallRecvMsgSize :: "'w CallOption" where
  "defaultMaxCallRecvMsgSize = GrpcCallOption ''MaxCallRecvMsgSize(2147483647)''"

text \<open>The part of \<open>newClient\<close> that chooses the call options.\<close>

definition client_callOpts :: "('cert, 'x509, 'w) config \<Rightarrow> err + 'w CallOption list" where
  "client_callOpts c =
     (let send = cf_MaxCallSendMsgSize c; recv = cf_MaxCallRecvMsgSize c in
      if 0 < send \<or> 0 < recv then
        (if 0 < recv \<and> recv < send then
           Inl (TextErr (''gRPC message recv limit ('' @ dec_int recv @
             '' bytes) must be greater than send limit ('' @ dec_int send @ '' bytes)''))
         else Inr [defaultWaitForReady,
           (if 0 < send then MaxCallSendMsgSize send else defaultMaxCallSendMsgSize),
           (if 0 < recv then MaxCallRecvMsgSize recv else defaultMaxCallRecvMsgSize)])
      else Inr defaultCallOpts)"

section \<open>Backoff\<close>

text \<open>\<open>Endpoints\<close> reads the endpoints of the client at the time of the call.\<close>

definition roundRobinQuorumBackoff ::
  "'w jitterFunc \<Rightarrow> ('w \<Rightarrow> string list) \<Rightarrow> duration \<Rightarrow> decimal \<Rightarrow> 'w backoffFunc" where
  "roundRobinQuorumBackoff jitter Endpoints waitBetween jitterFraction attempt w =
     (let n = of_nat (length (Endpoints w)) :: uint64;
          quorum = n div 2 + 1
      in if attempt mod quorum = 0 then jitter waitBetween jitterFraction w else (0, w))"

section \<open>The client\<close>

datatype ('cert, 'x509, 'm, 'sc, 'w) DialOption =
    DKeepalive duration duration bool
  | DTransportCredentials "('cert, 'x509, 'w) tls_Config option option"
  | DStreamInterceptor "'w retryOption list"
  | DUnaryInterceptor "'w retryOption list"
  | DStatsHandler
  | DResolver "('m, 'sc) RegattaManualResolver"
  | DPerRPCCredentials
  | DUser string

record ('cert, 'x509, 'm, 'sc, 'conn, 'w) Client =
  cl_cfg :: "('cert, 'x509, 'w) config"
  cl_creds :: "('cert, 'x509, 'w) tls_Config option option"
  cl_conn :: "'conn option"
  cl_resolver :: "('m, 'sc) RegattaManualResolver"
  cl_endpoints :: "string list"
  cl_authTokenBundle :: bool
  cl_callOpts :: "'w CallOption list"
  cl_ctx :: "'w ctx"
  cl_lg :: "'w Logger"

datatype connectivity = Idle | Connecting | Ready | TransientFailure | Shutdown

text \<open>What gRPC, the status package and the clock provide.\<close>

record ('cert, 'x509, 'm, 'cc, 'sc, 'conn, 's, 'w) grpc_env =
  ge_NewClient :: "string \<Rightarrow> ('cert, 'x509, 'm, 'sc, 'w) DialOption list \<Rightarrow> 'w \<Rightarrow> (err + 'conn) \<times> 'w"
  ge_WaitForStateChange :: "'conn \<Rightarrow> connectivity \<Rightarrow> duration \<Rightarrow> 'w \<Rightarrow> bool \<times> 'w"
  ge_Close :: "'conn \<Rightarrow> 'w \<Rightarrow> err option \<times> 'w"
  ge_NewKVClient :: "'conn \<Rightarrow> 'w KVClient"
  ge_NewClusterClient :: "'conn \<Rightarrow> ('w, 's) ClusterClient"
  ge_NewTablesClient :: "'conn \<Rightarrow> ('w, 's) TablesClient"
  ge_background :: "'w ctx"
  ge_cancel :: "'w \<Rightarrow> 'w"
  ge_pointer :: string
  ge_status :: status_pkg
  ge_jitter :: "'w jitterFunc"
  ge_manual :: "('m, 'cc, 'sc, 'w) manual_pkg"
  ge_endpoints_now :: "'w \<Rightarrow> string list"

definition client_Endpoints :: "('cert, 'x509, 'm, 'sc, 'conn, 'w) Client \<Rightarrow> string list" where
  "client_Endpoints cl = cl_endpoints cl"

definition client_Ctx :: "('cert, 'x509, 'm, 'sc, 'conn, 'w) Client \<Rightarrow> 'w ctx" where
  "client_Ctx cl = cl_ctx cl"

definition ActiveConnection :: "('cert, 'x509, 'm, 'sc, 'conn, 'w) Client \<Rightarrow> 'conn option" where
  "ActiveConnection cl = cl_conn cl"

text \<open>As a statistics handler the client tags no contexts.\<close>

definition TagRPC :: "('cert, 'x509, 'm, 'sc, 'conn, 'w) Client \<Rightarrow> 'w ctx \<Rightarrow> 'i \<Rightarrow> 'w ctx" where
  "TagRPC cl c info = c"

definition TagConn :: "('cert, 'x509, 'm, 'sc, 'conn, 'w) Client \<Rightarrow> 'w ctx \<Rightarrow> 'i \<Rightarrow> 'w ctx" where
  "TagConn cl c info = c"

definition SetLogger where
  "SetLogger lg cl = cl\<lparr>cl_lg := lg\<rparr>"

definition client_SetEndpoints where
  "client_SetEndpoints G eps cl w =
     (let cl1 = cl\<lparr>cl_endpoints := eps\<rparr> in
      case resolver_SetEndpoints (ge_manual G) eps (cl_resolver cl1) w of
        (g, r, w1) \<Rightarrow> (g, cl1\<lparr>cl_resolver := r\<rparr>, w1))"

definition authority :: "string \<Rightarrow> string" where
  "authority endpoint =
     (let spl = SplitN2 endpoint ''://'' in
      if length spl < 2 then
        (if HasPrefix endpoint ''unix:'' then drop (length ''unix:'') endpoint
         else if HasPrefix endpoint ''unixs:'' then drop (length ''unixs:'') endpoint
         else endpoint)
      else spl ! 1)"

definition credentialsForEndpoint where
  "credentialsForEndpoint cl ep =
     go_bind (RequiresCredentials ep) (\<lambda>r.
       case r of
         CredsDrop \<Rightarrow> Ret None
       | CredsOptional \<Rightarrow> Ret (cl_creds cl)
       | CredsRequire \<Rightarrow>
           if cl_creds cl \<noteq> None then Ret (cl_creds cl) else Ret (Some (TransportCredentials (NewBundle None))))"

definition dialSetupOpts where
  "dialSetupOpts G cl creds dopts =
     (let rrBackoff = roundRobinQuorumBackoff (ge_jitter G) (ge_endpoints_now G)
            defaultBackoffWaitBetween defaultBackoffJitterFraction
      in (if 0 < cf_DialKeepAliveTime (cl_cfg cl)
          then [DKeepalive (cf_DialKeepAliveTime (cl_cfg cl)) (cf_DialKeepAliveTimeout (cl_cfg cl))
            (cf_PermitWithoutStream (cl_cfg cl))] else [])
         @ dopts
         @ [DTransportCredentials creds]
         @ [DStreamInterceptor (dial_stream_options rrBackoff),
            DUnaryInterceptor (dial_unary_options rrBackoff)])"

definition client_dial where
  "client_dial G cl creds dopts w =
     (let opts = dialSetupOpts G cl creds dopts
            @ (if cl_authTokenBundle cl then [DPerRPCCredentials] else [])
            @ map DUser (cf_DialOptions (cl_cfg cl))
      in case cl_endpoints cl of
           [] \<Rightarrow> (Panic ''runtime error: index out of range [0] with length 0'', w)
         | ep0 # _ \<Rightarrow>
             (case ge_NewClient G (Schema @ ''://'' @ ge_pointer G @ ''/'' @ authority ep0) opts w of
                (Inl e, w1) \<Rightarrow> (Ret (Inl e), w1)
              | (Inr conn, w1) \<Rightarrow>
                  if 0 < cf_InitialConnectionTimeout (cl_cfg cl) then
                    (case ge_WaitForStateChange G conn Ready (cf_InitialConnectionTimeout (cl_cfg cl)) w1 of
                       (changed, w2) \<Rightarrow>
                         if \<not> changed then (Ret (Inl (TextErr ''cannot obtain ready connection'')), w2)
                         else (Ret (Inr conn), w2))
                  else (Ret (Inr conn), w1)))"

definition client_Dial where
  "client_Dial G cl ep w =
     (case credentialsForEndpoint cl ep of Panic m \<Rightarrow> (Panic m, w)
      | Ret creds \<Rightarrow> client_dial G cl creds [DResolver (resolver_New (ge_manual G) [ep])] w)"

definition dialWithBalancer where
  "dialWithBalancer G cl w =
     (case client_Endpoints cl of
        [] \<Rightarrow> (Panic ''runtime error: index out of range [0] with length 0'', w)
      | ep0 # _ \<Rightarrow>
          (case credentialsForEndpoint cl ep0 of Panic m \<Rightarrow> (Panic m, w)
           | Ret creds \<Rightarrow> client_dial G cl creds [DStatsHandler, DResolver (cl_resolver cl)] w))"

text \<open>
  \<open>newCluster\<close>. The closure \<open>dial\<close> dials the endpoint and makes the client of its result from
  \<open>c.conn\<close>.
\<close>

definition newCluster where
  "newCluster G cl conn = \<lparr>
     cs_remote = retryClusterClient (ge_NewClusterClient G conn),
     cs_dial = (\<lambda>endpoint w.
       case client_Dial G cl endpoint w of
         (Panic m, w1) \<Rightarrow> (Panic m, w1)
       | (Ret (Inl e), w1) \<Rightarrow> (Ret (Inl (TextErr (''failed to dial endpoint '' @ endpoint @
           '' with maintenance client''))), w1)
       | (Ret (Inr dialled), w1) \<Rightarrow>
           (Ret (Inr (retryClusterClient (ge_NewClusterClient G conn),
             (\<lambda>w. snd (ge_Close G dialled w)))), w1)),
     cs_callOpts = cl_callOpts cl,
     cs_status = ge_status G\<rparr>"

definition client_KV where
  "client_KV G cl conn = newKV (ge_NewKVClient G conn) (cl_callOpts cl) (ge_status G)
     (getHooks hm_OnKVCall (cf_Hooks (cl_cfg cl)))"

definition client_Tables where
  "client_Tables G cl conn = newTables (ge_status G) (ge_NewTablesClient G conn) (cl_callOpts cl)"

section \<open>Synchronisation with the membership\<close>

fun sync_endpoints :: "Member list \<Rightarrow> string list \<Rightarrow> string list" where
  "sync_endpoints [] eps = eps"
| "sync_endpoints (m # ms) eps =
     sync_endpoints ms (if length (mb_Name m) \<noteq> 0 then eps @ mb_ClientURLs m else eps)"

definition client_Sync where
  "client_Sync G k c cl w =
     (case cluster_MemberList k c w of
        (Panic m, w1) \<Rightarrow> (Panic m, cl, w1)
      | (Ret (Some mresp, None), w1) \<Rightarrow>
          (case client_SetEndpoints G (sync_endpoints (ml_Members mresp) []) cl w1 of
             (Panic m, cl1, w2) \<Rightarrow> (Panic m, cl1, w2)
           | (Ret _, cl1, w2) \<Rightarrow> (Ret None, cl1, w2))
      | (Ret (None, None), w1) \<Rightarrow> (Panic nil_deref, cl, w1)
      | (Ret (_, Some e), w1) \<Rightarrow> (Ret (Some e), cl, w1))"

text \<open>
  One round of \<open>autoSync\<close>: an error is only logged. The context \<open>c\<close> of the round has a timeout.
  The loop follows what \<open>select\<close> finds, until the client is closed; the list is the part of
  these events that has happened.
\<close>

definition autoSync_round where
  "autoSync_round G k c cl w = (case client_Sync G k c cl w of
     (Panic m, cl1, w1) \<Rightarrow> (Panic m, cl1, w1) | (Ret e, cl1, w1) \<Rightarrow> (Ret (), cl1, w1))"

datatype sync_event = ClientDone | TimerFired

fun autoSync_loop where
  "autoSync_loop G k c cl w [] = (Ret (), cl, w)"
| "autoSync_loop G k c cl w (ClientDone # evs) = (Ret (), cl, w)"
| "autoSync_loop G k c cl w (TimerFired # evs) =
     (case autoSync_round G k c cl w of
        (Panic m, cl1, w1) \<Rightarrow> (Panic m, cl1, w1)
      | (Ret _, cl1, w1) \<Rightarrow> autoSync_loop G k c cl1 w1 evs)"

definition autoSync where
  "autoSync G k c cl w evs =
     (if cf_AutoSyncInterval (cl_cfg cl) = 0 then (Ret (), cl, w)
      else autoSync_loop G k c cl w evs)"

section \<open>The version check\<close>

text \<open>\<open>strconv.Atoi\<close>: an optional sign and at least one digit, in the range of int64.\<close>

definition digit_value :: "char \<Rightarrow> int" where
  "digit_value c = int (of_char c) - 48"

fun digits_value :: "string \<Rightarrow> int \<Rightarrow> int" where
  "digits_value [] acc = acc"
| "digits_value (c # s) acc = digits_value s (acc * 10 + digit_value c)"

definition Atoi :: "string \<Rightarrow> int option" where
  "Atoi s =
     (let (neg, ds) = (case s of c # r \<Rightarrow> if c = CHR ''-'' then (True, r)
            else if c = CHR ''+'' then (False, r) else (False, s) | [] \<Rightarrow> (False, s))
      in if ds = [] \<or> \<not> list_all is_digit ds then None
         else (let v = (if neg then - digits_value ds 0 else digits_value ds 0)
               in if v < - (2 ^ 63) \<or> 2 ^ 63 \<le> v then None else Some v))"

definition ErrNoAvailableEndpoints :: err where
  "ErrNoAvailableEndpoints = TextErr ''regattaclient: no available endpoints''"
definition ErrOldCluster :: err where
  "ErrOldCluster = TextErr ''regattaclient: old cluster version''"

definition atoi_error :: "string \<Rightarrow> err" where
  "atoi_error s = TextErr (''strconv.Atoi: parsing '' @ s)"

text \<open>What the goroutine of one endpoint sends on the channel, from the result of \<open>Status\<close>.\<close>

definition old_version :: "int \<Rightarrow> int \<Rightarrow> err option" where
  "old_version maj minor = (if maj < 0 \<or> (maj = 0 \<and> minor < 5) then Some ErrOldCluster else None)"

definition version_error :: "err option \<Rightarrow> string \<Rightarrow> err option" where
  "version_error rerr version =
     (if rerr \<noteq> None then rerr
      else (let vs = str_Split version ''.'' in
        if 2 \<le> length vs then
          (case Atoi (vs ! 0) of None \<Rightarrow> Some (atoi_error (vs ! 0))
           | Some maj \<Rightarrow>
               (case Atoi (vs ! 1) of None \<Rightarrow> Some (atoi_error (vs ! 1))
                | Some minor \<Rightarrow> old_version maj minor))
        else old_version 0 0))"

text \<open>The loop that waits for the results, in the order in which they arrive.\<close>

fun await_versions :: "err option list \<Rightarrow> err option" where
  "await_versions [] = None"
| "await_versions (e # es) = (if e \<noteq> None then e else await_versions es)"

fun run_status where
  "run_status status [] w = (Ret [], w)"
| "run_status status (ep # eps) w =
     (case status ep w of
        (Panic m, w1) \<Rightarrow> (Panic m, w1)
      | (Ret (resp, rerr), w1) \<Rightarrow>
          (case run_status status eps w1 of
             (Panic m, w2) \<Rightarrow> (Panic m, w2)
           | (Ret es, w2) \<Rightarrow>
               (Ret (version_error rerr (case resp of Some r \<Rightarrow> sta_Version r | None \<Rightarrow> []) # es), w2)))"

text \<open>
  \<open>order\<close> is a permutation of the endpoints: the order in which the goroutines run and their
  results arrive. All of them are waited for before the first error, if any, is returned.
\<close>

definition checkVersion where
  "checkVersion status order w =
     (case run_status status order w of
        (Panic m, w1) \<Rightarrow> (Panic m, w1)
      | (Ret es, w1) \<Rightarrow> (Ret (await_versions es), w1))"

section \<open>Construction and closing\<close>

definition client_Close where
  "client_Close G cl w =
     (let w1 = ge_cancel G w;
          (e, w2) = (case cl_conn cl of
              Some conn \<Rightarrow> (case ge_Close G conn w1 of (e, w2) \<Rightarrow> (toErr (ge_status G) (cl_ctx cl) w2 e, w2))
            | None \<Rightarrow> (ctx_Err (cl_ctx cl) w1, w1))
      in (e, callHooks hm_OnClientClosed (cf_Hooks (cl_cfg cl)) (\<lambda>h. h) w2))"

text \<open>\<open>arrange\<close> schedules the goroutines of the version check.\<close>

definition newClient where
  "newClient G AsMap arrange cfg w =
     (if length (cf_Endpoints cfg) = 0 then (Ret (Inl ErrNoAvailableEndpoints), w)
      else
        (let creds = (if cf_TLS cfg \<noteq> None then Some (TransportCredentials (NewBundle (cf_TLS cfg))) else None);
             baseCtx = (case cf_Context cfg of Some c \<Rightarrow> c | None \<Rightarrow> ge_background G)
         in case client_callOpts cfg of Inl e \<Rightarrow> (Ret (Inl e), w)
            | Inr opts \<Rightarrow>
              (case processHooks (cf_Hooks cfg) of Inl e \<Rightarrow> (Ret (Inl e), w)
               | Inr processedHooks \<Rightarrow>
                 (let cl0 = \<lparr>cl_cfg = cfg, cl_creds = creds, cl_conn = None,
                        cl_resolver = resolver_New (ge_manual G) (cf_Endpoints cfg),
                        cl_endpoints = [], cl_authTokenBundle = False, cl_callOpts = opts,
                        cl_ctx = baseCtx,
                        cl_lg = (case cf_Logger cfg of Some l \<Rightarrow> l | None \<Rightarrow> defaultLogger)\<rparr>;
                      w1 = callHooks hm_OnNewClient processedHooks (\<lambda>h. h) w
                  in case client_SetEndpoints G (cf_Endpoints cfg) cl0 w1 of
                       (Panic m, cl1, w2) \<Rightarrow> (Panic m, w2)
                     | (Ret _, cl1, w2) \<Rightarrow>
                       (case dialWithBalancer G cl1 w2 of
                          (Panic m, w3) \<Rightarrow> (Panic m, w3)
                        | (Ret (Inl e), w3) \<Rightarrow> (Ret (Inl e), ge_cancel G w3)
                        | (Ret (Inr conn), w3) \<Rightarrow>
                            (let cl2 = cl1\<lparr>cl_conn := Some conn\<rparr> in
                             if cf_RejectOldCluster cfg then
                               (case checkVersion
                                    (\<lambda>ep. cluster_Status AsMap (newCluster G cl2 conn) (cl_ctx cl2) ep)
                                    (arrange (client_Endpoints cl2)) w3 of
                                  (Panic m, w4) \<Rightarrow> (Panic m, w4)
                                | (Ret (Some e), w4) \<Rightarrow> (Ret (Inl e), snd (client_Close G cl2 w4))
                                | (Ret None, w4) \<Rightarrow> (Ret (Inr cl2), w4))
                             else (Ret (Inr cl2), w3)))))))"

definition client_New where
  "client_New G AsMap arrange cfg0 opts w =
     map_option (\<lambda>g. case g of Panic m \<Rightarrow> (Panic m, w) | Ret cfg \<Rightarrow> newClient G AsMap arrange cfg w)
       (apply_options opts cfg0 w)"

text \<open>\<open>New\<close>, \<open>NewFromURL\<close> and \<open>NewFromURLs\<close> differ in the configuration they start from.\<close>

definition New where
  "New G AsMap arrange opts = client_New G AsMap arrange zero_config opts"
definition NewFromURL where
  "NewFromURL G AsMap arrange url opts =
     client_New G AsMap arrange (zero_config\<lparr>cf_Endpoints := [url]\<rparr>) opts"
definition NewFromURLs where
  "NewFromURLs G AsMap arrange urls opts =
     client_New G AsMap arrange (zero_config\<lparr>cf_Endpoints := urls\<rparr>) opts"

section \<open>Facts\<close>

lemma SetEndpoints_cfg:
  "client_SetEndpoints G eps cl w = (g, cl1, w1) \<Longrightarrow>
     cl_cfg cl1 = cl_cfg cl \<and> cl_callOpts cl1 = cl_callOpts cl \<and> cl_endpoints cl1 = eps \<and>
     cl_creds cl1 = cl_creds cl \<and> cl_conn cl1 = cl_conn cl"
  by (auto simp: client_SetEndpoints_def Let_def split: prod.splits)

lemma resolver_SetEndpoints_total:
  "\<exists>r w1. resolver_SetEndpoints P eps rs w = (Ret (), r, w1) \<and> rm_endpoints r = eps"
proof -
  obtain as where "go_map (\<lambda>ep. go_bind (Interpret ep) (\<lambda>(addr, serverName).
     Ret \<lparr>ad_Addr = addr, ad_ServerName = serverName\<rparr>)) eps = Ret as" using interpret_addresses by blast
  then show ?thesis
    by (auto simp: resolver_SetEndpoints_def updateState_def split: prod.splits)
qed

lemma credentials_total: "\<exists>r. credentialsForEndpoint cl ep = Ret r"
proof -
  obtain q where "RequiresCredentials ep = Ret q"
    using translateEndpoint_total_aux [of ep] by (auto simp: RequiresCredentials_def)
  then show ?thesis by (cases q) (auto simp: credentialsForEndpoint_def)
qed

lemma sync_endpoints_eq:
  "sync_endpoints ms eps = eps @ concat (map mb_ClientURLs (filter (\<lambda>m. mb_Name m \<noteq> []) ms))"
  by (induction ms arbitrary: eps) auto

lemma client_callOpts_grpc:
  "client_callOpts cfg = Inr opts \<Longrightarrow> \<exists>gs. opts = map GrpcCallOption gs"
proof -
  assume "client_callOpts cfg = Inr opts"
  then have "\<forall>x \<in> set opts. \<exists>g. x = GrpcCallOption g"
    by (auto simp: client_callOpts_def Let_def defaultCallOpts_def MaxCallSendMsgSize_def
        MaxCallRecvMsgSize_def defaultWaitForReady_def defaultMaxCallSendMsgSize_def
        defaultMaxCallRecvMsgSize_def split: if_splits)
  then show ?thesis by (metis ex_map_conv)
qed

lemma newClient_result:
  fixes cl :: "('cert, 'x509, 'm, 'sc, 'conn, 'w) Client"
  assumes "newClient G AsMap arrange cfg w = (Ret (Inr cl), w1)"
  shows "cl_cfg cl = cfg \<and> cl_endpoints cl = cf_Endpoints cfg \<and> cl_conn cl \<noteq> None \<and>
    client_callOpts cfg = Inr (cl_callOpts cl) \<and>
    cl_creds cl = (if cf_TLS cfg \<noteq> None then Some (TransportCredentials (NewBundle (cf_TLS cfg))) else None)"
proof -
  from assms obtain opts hooks where ne: "cf_Endpoints cfg \<noteq> []" and opts: "client_callOpts cfg = Inr opts"
    and hooks: "processHooks (cf_Hooks cfg) = Inr hooks"
    by (auto simp: newClient_def Let_def split: if_splits sum.splits)
  let ?cl0 = "\<lparr>cl_cfg = cfg, cl_creds = (if cf_TLS cfg \<noteq> None then Some (TransportCredentials (NewBundle (cf_TLS cfg))) else None),
    cl_conn = None :: 'conn option, cl_resolver = resolver_New (ge_manual G) (cf_Endpoints cfg),
    cl_endpoints = [], cl_authTokenBundle = False, cl_callOpts = opts,
    cl_ctx = (case cf_Context cfg of Some c \<Rightarrow> c | None \<Rightarrow> ge_background G),
    cl_lg = (case cf_Logger cfg of Some l \<Rightarrow> l | None \<Rightarrow> defaultLogger)\<rparr>"
  obtain g cl1 w2 where set: "client_SetEndpoints G (cf_Endpoints cfg) ?cl0
      (callHooks hm_OnNewClient hooks (\<lambda>h. h) w) = (g, cl1, w2)" by (metis prod_cases3)
  obtain d w3 where dial: "dialWithBalancer G cl1 w2 = (d, w3)" by fastforce
  from SetEndpoints_cfg [OF set] have cl1: "cl_cfg cl1 = cfg" "cl_callOpts cl1 = opts"
    "cl_endpoints cl1 = cf_Endpoints cfg"
    "cl_creds cl1 = (if cf_TLS cfg \<noteq> None then Some (TransportCredentials (NewBundle (cf_TLS cfg))) else None)"
    by simp_all
  from assms ne opts hooks set dial obtain conn where "cl = cl1\<lparr>cl_conn := Some conn\<rparr>"
    by (auto simp: newClient_def Let_def split: if_splits sum.splits go.splits option.splits prod.splits)
  with cl1 opts show ?thesis by simp
qed

lemma dialWithBalancer_total:
  assumes "cl_endpoints cl \<noteq> []" and "cf_InitialConnectionTimeout (cl_cfg cl) = 0"
    and "\<And>target opts w. \<exists>conn w1. ge_NewClient G target opts w = (Inr conn, w1)"
  shows "\<exists>conn w1. dialWithBalancer G cl w = (Ret (Inr conn), w1)"
proof -
  from assms(1) obtain ep eps where eps: "cl_endpoints cl = ep # eps" by (cases "cl_endpoints cl") auto
  obtain creds where "credentialsForEndpoint cl ep = Ret creds" using credentials_total by blast
  moreover have "\<exists>conn w1. client_dial G cl creds dopts w = (Ret (Inr conn), w1)" for dopts
  proof -
    obtain conn w1 where "ge_NewClient G (Schema @ ''://'' @ ge_pointer G @ ''/'' @ authority ep)
        (dialSetupOpts G cl creds dopts @ (if cl_authTokenBundle cl then [DPerRPCCredentials] else [])
          @ map DUser (cf_DialOptions (cl_cfg cl))) w = (Inr conn, w1)" using assms(3) by blast
    then show ?thesis using assms(2) eps by (simp add: client_dial_def Let_def)
  qed
  ultimately show ?thesis using eps by (simp add: dialWithBalancer_def client_Endpoints_def)
qed

lemma newClient_total:
  fixes G :: "('cert, 'x509, 'm, 'cc, 'sc, 'conn, 's, 'w, 'z) grpc_env_scheme"
  assumes "cf_Endpoints cfg \<noteq> []" and "client_callOpts cfg = Inr opts"
    and "processHooks (cf_Hooks cfg) = Inr hooks" and "\<not> cf_RejectOldCluster cfg"
    and "cf_InitialConnectionTimeout cfg = 0"
    and "\<And>target opts w. \<exists>conn w1. ge_NewClient G target opts w = (Inr conn, w1)"
  shows "\<exists>cl w1. newClient G AsMap arrange cfg w = (Ret (Inr cl), w1)"
proof -
  let ?cl0 = "\<lparr>cl_cfg = cfg, cl_creds = (if cf_TLS cfg \<noteq> None then Some (TransportCredentials (NewBundle (cf_TLS cfg))) else None),
    cl_conn = None :: 'conn option, cl_resolver = resolver_New (ge_manual G) (cf_Endpoints cfg),
    cl_endpoints = [], cl_authTokenBundle = False, cl_callOpts = opts,
    cl_ctx = (case cf_Context cfg of Some c \<Rightarrow> c | None \<Rightarrow> ge_background G),
    cl_lg = (case cf_Logger cfg of Some l \<Rightarrow> l | None \<Rightarrow> defaultLogger)\<rparr>"
  obtain cl1 w2 where set: "client_SetEndpoints G (cf_Endpoints cfg) ?cl0
      (callHooks hm_OnNewClient hooks (\<lambda>h. h) w) = (Ret (), cl1, w2)"
    using resolver_SetEndpoints_total [of "ge_manual G" "cf_Endpoints cfg"
        "resolver_New (ge_manual G) (cf_Endpoints cfg)" "callHooks hm_OnNewClient hooks (\<lambda>h. h) w"]
    by (auto simp: client_SetEndpoints_def Let_def)
  from SetEndpoints_cfg [OF set] assms(1,5) have "cl_endpoints cl1 \<noteq> []"
    "cf_InitialConnectionTimeout (cl_cfg cl1) = 0" by simp_all
  from dialWithBalancer_total [OF this assms(6)] obtain conn w3 where
    "dialWithBalancer G cl1 w2 = (Ret (Inr conn), w3)" by blast
  with set assms(1-4) show ?thesis by (simp add: newClient_def Let_def)
qed

lemma getHooks_slices: "list_all (\<lambda>h. \<exists>hs. h = HookSlice hs) hooks \<Longrightarrow> getHooks sel hooks = []"
  by (induction hooks) auto

lemma run_status_pure:
  assumes "\<And>ep. status ep w = (Ret (f ep), w)"
  shows "run_status status eps w = (Ret (map (\<lambda>ep. version_error (snd (f ep))
    (case fst (f ep) of Some r \<Rightarrow> sta_Version r | None \<Rightarrow> [])) eps), w)"
  by (induction eps) (auto simp: assms split: prod.split)

lemma await_versions_None: "await_versions es = None \<longleftrightarrow> list_all (\<lambda>e. e = None) es"
  by (induction es) auto

text \<open>The remote call of \<open>MemberList\<close> returns, with a message or an error.\<close>

definition members_return :: "('w, 's) cluster \<Rightarrow> 'w ctx \<Rightarrow> bool" where
  "members_return k c \<longleftrightarrow> (\<forall>w. \<exists>x w1. rc_MemberList (cs_remote k) c ()
     (cs_callOpts k @ [RetryCallOption withRepeatable]) w = (Ret x, w1))"

lemma client_Sync_in_step:
  assumes "members_return k c" and "rm_endpoints (cl_resolver cl) = cl_endpoints cl"
  shows "\<exists>e cl1 w1. client_Sync G k c cl w = (Ret e, cl1, w1) \<and>
    rm_endpoints (cl_resolver cl1) = cl_endpoints cl1 \<and> cl_cfg cl1 = cl_cfg cl"
proof -
  obtain x w1 where rpc: "rc_MemberList (cs_remote k) c ()
      (cs_callOpts k @ [RetryCallOption withRepeatable]) w = (Ret x, w1)"
    using assms(1) unfolding members_return_def by blast
  let ?pe = "case x of Inl y \<Rightarrow> (None, toErr (cs_status k) c w1 (Some y)) | Inr r \<Rightarrow> (Some r, None)"
  obtain p e where pe: "?pe = (p, e)" by fastforce
  with rpc have call: "cluster_MemberList k c w = (Ret (p, e), w1)"
    by (auto simp: cluster_MemberList_def split: sum.splits)
  from pe have shape: "e \<noteq> None \<or> p \<noteq> None" by (cases x) auto
  show ?thesis
  proof (cases e)
    case None
    with shape obtain resp where "p = Some resp" by auto
    moreover obtain r w2 where "resolver_SetEndpoints (ge_manual G)
        (sync_endpoints (ml_Members resp) []) (cl_resolver cl) w1 = (Ret (), r, w2)"
      "rm_endpoints r = sync_endpoints (ml_Members resp) []"
      using resolver_SetEndpoints_total [of "ge_manual G" "sync_endpoints (ml_Members resp) []"
          "cl_resolver cl" w1] by auto
    ultimately show ?thesis using call None
      by (simp add: client_Sync_def client_SetEndpoints_def Let_def)
  next
    case (Some x)
    with call assms(2) show ?thesis by (cases p) (simp_all add: client_Sync_def)
  qed
qed

text \<open>
  The documented behaviour of gRPC's connections, whose state is \<open>state\<close>: a new one is idle, and
  waiting for a change from a state that it is not in succeeds at once.
\<close>

definition connections_start_idle where
  "connections_start_idle G state \<longleftrightarrow>
     (\<forall>target opts w conn w1. ge_NewClient G target opts w = (Inr conn, w1) \<longrightarrow> state conn w1 = Idle) \<and>
     (\<forall>conn source d w. state conn w \<noteq> source \<longrightarrow> ge_WaitForStateChange G conn source d w = (True, w))"

lemma connections_start_idle_wait:
  "connections_start_idle G state \<Longrightarrow> ge_NewClient G target opts w = (Inr conn, w1) \<Longrightarrow>
     ge_WaitForStateChange G conn Ready d w1 = (True, w1)"
  by (metis connections_start_idle_def connectivity.distinct(3))

section \<open>A gRPC that behaves as documented\<close>

text \<open>Every connection works, the status of every endpoint is the given version, and the world is
  the state last published by the resolver.\<close>

definition doc_grpc :: "string \<Rightarrow> (nat, nat, unit option, unit, unit, unit, unit, unit State option) grpc_env" where
  "doc_grpc version = \<lparr>ge_NewClient = (\<lambda>target opts w. (Inr (), w)),
     ge_WaitForStateChange = (\<lambda>conn source d w. (True, w)), ge_Close = (\<lambda>conn w. (None, w)),
     ge_NewKVClient = (\<lambda>conn. empty_client),
     ge_NewClusterClient = (\<lambda>conn. \<lparr>
       rc_MemberList = (\<lambda>c r opts w. (Ret (Inr \<lparr>ml_Cluster = [], ml_Members = []\<rparr>), w)),
       rc_Status = (\<lambda>c r opts w. (Ret (Inr \<lparr>st_Id = [], st_Version = version, st_Info = [],
         st_Tables = Map.empty, st_Config = (), st_Errors = []\<rparr>), w))\<rparr>),
     ge_NewTablesClient = (\<lambda>conn. \<lparr>tc_Create = (\<lambda>c r opts w. (Ret (Inr r), w)),
       tc_Delete = (\<lambda>c r opts w. (Ret (Inr ()), w)), tc_List = (\<lambda>c r opts w. (Ret (Inr []), w))\<rparr>),
     ge_background = fresh_ctx, ge_cancel = (\<lambda>w. w), ge_pointer = ''0xc0'', ge_status = doc_status,
     ge_jitter = (\<lambda>d f w. (d, w)), ge_manual = doc_manual, ge_endpoints_now = (\<lambda>w. [])\<rparr>"

definition hook_calling :: "'w HookKVOpDo \<Rightarrow> 'w hook_methods" where
  "hook_calling h = \<lparr>hm_OnNewClient = None, hm_OnClientClosed = None, hm_OnHandleRPC = None,
     hm_OnHandleConn = None, hm_OnKVCall = Some h\<rparr>"

lemma newClient_doc:
  assumes "cf_RejectOldCluster cfg = False" and "cf_InitialConnectionTimeout cfg = 0"
    and "cf_Endpoints cfg = [''localhost:80'']" and "client_callOpts cfg = Inr opts"
    and "processHooks (cf_Hooks cfg) = Inr ps"
  shows "\<exists>cl. newClient (doc_grpc v) AsMap arrange cfg w =
    (Ret (Inr cl), callHooks hm_OnNewClient ps (\<lambda>h. h) w)"
proof -
  have "RequiresCredentials ''localhost:80'' = Ret CredsOptional" by code_simp
  with assms show ?thesis
    by (simp add: newClient_def Let_def client_SetEndpoints_def resolver_SetEndpoints_def
        updateState_def doc_grpc_def doc_manual_def resolver_New_def dialWithBalancer_def
        client_Endpoints_def credentialsForEndpoint_def client_dial_def)
qed

text \<open>A cluster client whose membership is fixed, and a client with one endpoint.\<close>

definition members_cluster :: "Member list \<Rightarrow> (unit State option, unit) cluster" where
  "members_cluster ms = \<lparr>cs_remote = \<lparr>
       rc_MemberList = (\<lambda>c r opts w. (Ret (Inr \<lparr>ml_Cluster = [], ml_Members = ms\<rparr>), w)),
       rc_Status = (\<lambda>c r opts w. (Ret (Inl IoEOF), w))\<rparr>,
     cs_dial = (\<lambda>ep w. (Ret (Inl IoEOF), w)), cs_callOpts = [], cs_status = doc_status\<rparr>"

definition one_client :: "(nat, nat, unit option, unit, unit, unit State option) Client" where
  "one_client = \<lparr>cl_cfg = zero_config, cl_creds = None, cl_conn = Some (),
     cl_resolver = resolver_New doc_manual [''localhost:80''], cl_endpoints = [''localhost:80''],
     cl_authTokenBundle = False, cl_callOpts = [], cl_ctx = fresh_ctx, cl_lg = defaultLogger\<rparr>"

section \<open>Properties\<close>

text \<open>Limits for message sizes: construction fails on two given limits of which the receive
  limit is the smaller one, and otherwise uses the given limits and the defaults for the others.
  As soon as one limit is given the calls are no longer compressed.\<close>

theorem message_limits:
  assumes "0 \<le> cf_MaxCallSendMsgSize cfg" and "0 \<le> cf_MaxCallRecvMsgSize cfg"
  shows "(\<exists>e. client_callOpts cfg = Inl e) =
      (0 < cf_MaxCallRecvMsgSize cfg \<and> cf_MaxCallRecvMsgSize cfg < cf_MaxCallSendMsgSize cfg)
    \<and> (case client_callOpts cfg of Inl e \<Rightarrow> True | Inr opts \<Rightarrow>
        defaultWaitForReady \<in> set opts \<and>
        (GrpcCallOption ''UseCompressor(snappy)'' \<in> set opts) =
          (cf_MaxCallSendMsgSize cfg = 0 \<and> cf_MaxCallRecvMsgSize cfg = 0))"
  using assms
  by (auto simp: client_callOpts_def Let_def defaultCallOpts_def MaxCallSendMsgSize_def
      MaxCallRecvMsgSize_def defaultWaitForReady_def defaultMaxCallSendMsgSize_def
      defaultMaxCallRecvMsgSize_def)

theorem message_limits_witness:
  "\<exists>opts. client_callOpts (zero_config\<lparr>cf_MaxCallRecvMsgSize := 1000\<rparr> ::
       (nat, nat, unit) config) = Inr opts \<and> GrpcCallOption ''UseCompressor(snappy)'' \<notin> set opts"
  using message_limits [of "zero_config\<lparr>cf_MaxCallRecvMsgSize := 1000\<rparr> :: (nat, nat, unit) config"]
  by (auto simp: zero_config_def split: sum.splits)

text \<open>The error message demands a receive limit greater than the send limit, but a receive
  limit given alone is accepted below the default send limit.\<close>

theorem recv_limit_below_send_limit_accepted:
  assumes "0 < n"
  shows "client_callOpts (zero_config\<lparr>cf_MaxCallRecvMsgSize := n\<rparr>) =
    Inr [defaultWaitForReady, defaultMaxCallSendMsgSize, MaxCallRecvMsgSize n]"
  using assms by (simp add: client_callOpts_def zero_config_def Let_def)

theorem recv_limit_below_send_limit_accepted_witness:
  "client_callOpts (zero_config\<lparr>cf_MaxCallRecvMsgSize := 1000\<rparr> :: (nat, nat, unit) config) =
     Inr [defaultWaitForReady, defaultMaxCallSendMsgSize, MaxCallRecvMsgSize 1000]"
  by (rule recv_limit_below_send_limit_accepted) simp

text \<open>A client keeps the hooks as they were given, not the flattened ones: hooks inside slices
  are called at construction, but neither around KV calls nor on closing.\<close>

theorem nested_hooks_lost:
  assumes "newClient G AsMap arrange cfg w = (Ret (Inr cl), w1)"
    and "list_all (\<lambda>h. \<exists>hs. h = HookSlice hs) (cf_Hooks cfg)"
  shows "client_KV G cl conn c table x w = newKV (ge_NewKVClient G conn) (cl_callOpts cl) (ge_status G) [] c table x w
    \<and> callHooks hm_OnClientClosed (cf_Hooks (cl_cfg cl)) f w = w
    \<and> HandleRPC (cf_Hooks (cl_cfg cl)) c st w = w"
  using newClient_result [OF assms(1)]
  by (simp add: client_KV_def callHooks_fold HandleRPC_def getHooks_slices [OF assms(2)])

theorem nested_hooks_lost_witness:
  "\<exists>cl w. newClient (doc_grpc ''0.5.0'') (\<lambda>s. s) (\<lambda>eps. eps)
        (zero_config\<lparr>cf_Endpoints := [''localhost:80''],
          cf_Hooks := [HookSlice [HookValue (hook_calling (\<lambda>c table x Do w. (Panic ''hook'', w)))]]\<rparr>) None =
        (Ret (Inr cl), w) \<and>
     client_KV (doc_grpc ''0.5.0'') cl () fresh_ctx [7] (mkOp (zero_fields\<lparr>op_t := tRange\<rparr>)) None \<noteq>
       (Panic ''hook'', None)"
proof -
  let ?cfg = "zero_config\<lparr>cf_Endpoints := [''localhost:80''],
      cf_Hooks := [HookSlice [HookValue (hook_calling (\<lambda>c table x Do w. (Panic ''hook'', w)))]]\<rparr>
      :: (nat, nat, unit State option) config"
  obtain opts where "client_callOpts ?cfg = Inr opts" by (simp add: client_callOpts_def zero_config_def)
  moreover have "processHooks (cf_Hooks ?cfg) =
      Inr [HookValue (hook_calling (\<lambda>c table x Do w. (Panic ''hook'', w)))]"
    by (simp add: processHooks_def hook_calling_def)
  ultimately obtain cl where cl: "newClient (doc_grpc ''0.5.0'') (\<lambda>s. s) (\<lambda>eps. eps) ?cfg None =
      (Ret (Inr cl), None)"
    using newClient_doc [of ?cfg opts _ "''0.5.0''" "\<lambda>s. s" "\<lambda>eps. eps" None]
    by (auto simp: zero_config_def hook_calling_def)
  from nested_hooks_lost [OF cl, where conn = "()" and c = fresh_ctx and table = "[7]"
      and x = "mkOp (zero_fields\<lparr>op_t := tRange\<rparr>)"] cl
  show ?thesis
    by (auto simp: doc_grpc_def newKV_def kv_Do_def do_call_def retryKVClient_def retryKV_Range_def
        empty_client_def toRangeRequest_def zero_fields_def Let_def)
qed



text \<open>A version is accepted exactly when it has at least two dot-separated parts, the first two
  are integers, and they are 0.5 or later.\<close>

theorem version_accepted_iff:
  "version_error None v = None \<longleftrightarrow>
     (case str_Split v ''.'' of
        a # b # rest \<Rightarrow>
          (case (Atoi a, Atoi b) of
             (Some maj, Some minor) \<Rightarrow> 0 < maj \<or> (maj = 0 \<and> 5 \<le> minor)
           | _ \<Rightarrow> False)
      | _ \<Rightarrow> False)"
  by (auto simp: version_error_def old_version_def Let_def split: list.split option.split)

text \<open>C26: After a successful \<open>Sync\<close> the endpoints of the client and of its resolver are the client
  URLs of the members that have a name, in the order of the membership.\<close>

theorem Sync_outcome:
  assumes "rc_MemberList (cs_remote k) c () (cs_callOpts k @ [RetryCallOption withRepeatable]) w =
      (Ret (Inr resp), w1)"
  shows "\<exists>cl1 w2. client_Sync G k c cl w = (Ret None, cl1, w2) \<and>
    client_Endpoints cl1 = concat (map mb_ClientURLs (filter (\<lambda>m. mb_Name m \<noteq> []) (ml_Members resp))) \<and>
    rm_endpoints (cl_resolver cl1) = client_Endpoints cl1"
proof -
  let ?eps = "concat (map mb_ClientURLs (filter (\<lambda>m. mb_Name m \<noteq> []) (ml_Members resp)))"
  obtain r w2 where "resolver_SetEndpoints (ge_manual G) ?eps (cl_resolver cl) w1 = (Ret (), r, w2)"
    "rm_endpoints r = ?eps"
    using resolver_SetEndpoints_total [of "ge_manual G" ?eps "cl_resolver cl" w1] by auto
  with assms show ?thesis
    by (simp add: client_Sync_def cluster_MemberList_def sync_endpoints_eq client_SetEndpoints_def
        client_Endpoints_def Let_def)
qed

theorem Sync_outcome_witness:
  "\<exists>cl1 w. client_Sync (doc_grpc []) (members_cluster
       [\<lparr>mb_Id = ''1'', mb_Name = ''a'', mb_PeerURLs = [], mb_ClientURLs = [''x:1'', ''x:2'']\<rparr>,
        \<lparr>mb_Id = ''2'', mb_Name = [], mb_PeerURLs = [], mb_ClientURLs = [''y:1'']\<rparr>])
       fresh_ctx one_client None = (Ret None, cl1, w) \<and> client_Endpoints cl1 = [''x:1'', ''x:2'']"
  using Sync_outcome [where k = "members_cluster
       [\<lparr>mb_Id = ''1'', mb_Name = ''a'', mb_PeerURLs = [], mb_ClientURLs = [''x:1'', ''x:2'']\<rparr>,
        \<lparr>mb_Id = ''2'', mb_Name = [], mb_PeerURLs = [], mb_ClientURLs = [''y:1'']\<rparr>]"
      and c = fresh_ctx and w = None and G = "doc_grpc []" and cl = one_client]
  by (auto simp: members_cluster_def)

text \<open>When no member has a name, \<open>Sync\<close> succeeds with no endpoints left, and the next dial
  panics.\<close>

theorem Sync_can_remove_all_endpoints:
  assumes "rc_MemberList (cs_remote k) c () (cs_callOpts k @ [RetryCallOption withRepeatable]) w =
      (Ret (Inr resp), w1)"
    and "list_all (\<lambda>m. mb_Name m = []) (ml_Members resp)"
  shows "\<exists>cl1 w2 m. client_Sync G k c cl w = (Ret None, cl1, w2) \<and> client_Endpoints cl1 = [] \<and>
    client_Dial G cl1 ep w2 = (Panic m, w2)"
proof -
  obtain r w2 where set: "resolver_SetEndpoints (ge_manual G) [] (cl_resolver cl) w1 = (Ret (), r, w2)"
    using resolver_SetEndpoints_total [of "ge_manual G" "[]" "cl_resolver cl" w1] by auto
  have none: "filter (\<lambda>m. mb_Name m \<noteq> []) (ml_Members resp) = []"
    using assms(2) by (simp add: list_all_iff filter_empty_conv)
  obtain a where "credentialsForEndpoint (cl\<lparr>cl_endpoints := [], cl_resolver := r\<rparr>) ep = Ret a"
    using credentials_total by blast
  with assms(1) set none show ?thesis
    by (simp add: client_Sync_def cluster_MemberList_def sync_endpoints_eq client_SetEndpoints_def
        client_Endpoints_def client_Dial_def client_dial_def Let_def)
qed

theorem Sync_can_remove_all_endpoints_witness:
  "\<exists>cl1 w m. client_Sync (doc_grpc []) (members_cluster []) fresh_ctx one_client None =
       (Ret None, cl1, w) \<and> client_Dial (doc_grpc []) cl1 ''localhost:80'' w = (Panic m, w)"
  using Sync_can_remove_all_endpoints [where k = "members_cluster []" and c = fresh_ctx and w = None
      and G = "doc_grpc []" and cl = one_client and ep = "''localhost:80''"]
  by (auto simp: members_cluster_def)



text \<open>The client that \<open>Status\<close> makes for an endpoint uses the connection of the whole client:
  once the endpoint can be dialled, the answer does not depend on the endpoint.\<close>

theorem Status_ignores_endpoint:
  assumes "client_Dial G cl ep w = (Ret (Inr dialled), w1)"
  shows "fst (cluster_Status AsMap (newCluster G cl conn) c ep w) =
    (case rc_Status (ge_NewClusterClient G conn) c True
       (cl_callOpts cl @ [RetryCallOption withRepeatable, RetryCallOption withRepeatable]) w1 of
       (Panic m, w2) \<Rightarrow> Panic m
     | (Ret (Inl e), w2) \<Rightarrow> Ret (None, toErr (ge_status G) c w2 (Some e))
     | (Ret (Inr resp), w2) \<Rightarrow> Ret (Some (mapProtoStatusResponse AsMap resp), None))"
  using assms
  by (auto simp: cluster_Status_def newCluster_def retryClusterClient_def retryCluster_Status_def
      split: prod.split sum.split go.split)

theorem Status_ignores_endpoint_witness:
  "fst (cluster_Status (\<lambda>s. s) (newCluster (doc_grpc ''0.5.0'') one_client ()) fresh_ctx ''other:80'' None) =
     Ret (Some \<lparr>sta_Id = [], sta_Version = ''0.5.0'', sta_Info = [], sta_Tables = Map.empty,
       sta_Errors = [], sta_Config = ()\<rparr>, None)"
proof -
  have "RequiresCredentials ''other:80'' = Ret CredsOptional" by code_simp
  then have "client_Dial (doc_grpc ''0.5.0'') one_client ''other:80'' None = (Ret (Inr ()), None)"
    by (simp add: client_Dial_def credentialsForEndpoint_def client_dial_def doc_grpc_def
        one_client_def zero_config_def)
  from Status_ignores_endpoint [OF this, of "\<lambda>s. s" "()" fresh_ctx] show ?thesis
    by (simp add: doc_grpc_def mapProtoStatusResponse_def)
qed

text \<open>C27: As long as the remote calls return, the automatic synchronisation never panics, and whatever the membership answers and
  however often it runs, the endpoints of the client and those of its resolver agree.\<close>

theorem autoSync_keeps_endpoints:
  assumes "members_return k c" and "rm_endpoints (cl_resolver cl) = cl_endpoints cl"
  shows "\<exists>cl1 w1. autoSync G k c cl w evs = (Ret (), cl1, w1) \<and>
    rm_endpoints (cl_resolver cl1) = cl_endpoints cl1 \<and> cl_cfg cl1 = cl_cfg cl"
proof -
  have "\<exists>cl1 w1. autoSync_loop G k c cl w evs = (Ret (), cl1, w1) \<and>
      rm_endpoints (cl_resolver cl1) = cl_endpoints cl1 \<and> cl_cfg cl1 = cl_cfg cl"
    using assms(2)
  proof (induction evs arbitrary: cl w)
    case (Cons ev evs)
    obtain e cl2 w2 where round: "client_Sync G k c cl w = (Ret e, cl2, w2)"
      and "rm_endpoints (cl_resolver cl2) = cl_endpoints cl2" "cl_cfg cl2 = cl_cfg cl"
      using client_Sync_in_step [OF assms(1) Cons.prems, of G w] by auto
    with Cons.IH [of cl2 w2] Cons.prems show ?case
      by (cases ev) (auto simp: autoSync_round_def)
  qed simp
  with assms show ?thesis by (auto simp: autoSync_def)
qed

theorem autoSync_keeps_endpoints_witness:
  "\<exists>cl1 w1. autoSync (doc_grpc []) (members_cluster
       [\<lparr>mb_Id = ''1'', mb_Name = ''a'', mb_PeerURLs = [], mb_ClientURLs = [''x:1'']\<rparr>]) fresh_ctx
       (one_client\<lparr>cl_cfg := zero_config\<lparr>cf_AutoSyncInterval := 1\<rparr>\<rparr>) None [TimerFired, ClientDone] =
     (Ret (), cl1, w1) \<and> rm_endpoints (cl_resolver cl1) = cl_endpoints cl1"
  using autoSync_keeps_endpoints [where cl = "one_client\<lparr>cl_cfg := zero_config\<lparr>cf_AutoSyncInterval := 1\<rparr>\<rparr>"
      and G = "doc_grpc []" and c = fresh_ctx and w = None and evs = "[TimerFired, ClientDone]"
      and k = "members_cluster
       [\<lparr>mb_Id = ''1'', mb_Name = ''a'', mb_PeerURLs = [], mb_ClientURLs = [''x:1'']\<rparr>]"]
  by (auto simp: one_client_def resolver_New_def members_return_def members_cluster_def)

text \<open>The timeout for the initial connection has no effect: a new connection is idle, so that
  waiting for its state to change from \<open>Ready\<close> ends at once.\<close>

theorem dial_ignores_connection_timeout:
  assumes "connections_start_idle G state"
  shows "client_dial G cl creds dopts w =
    client_dial G (cl\<lparr>cl_cfg := (cl_cfg cl)\<lparr>cf_InitialConnectionTimeout := 0\<rparr>\<rparr>) creds dopts w"
  using connections_start_idle_wait [OF assms]
  by (auto simp: client_dial_def dialSetupOpts_def Let_def split: list.splits prod.splits sum.splits)

theorem dial_ignores_connection_timeout_witness:
  "client_dial (doc_grpc []) (one_client\<lparr>cl_cfg := zero_config\<lparr>cf_InitialConnectionTimeout := 5\<rparr>\<rparr>)
     None [] None = (Ret (Inr ()), None)"
  using dial_ignores_connection_timeout [of "doc_grpc []" "\<lambda>conn w. Idle"
      "one_client\<lparr>cl_cfg := zero_config\<lparr>cf_InitialConnectionTimeout := 5\<rparr>\<rparr>" None "[]" None]
  by (simp add: connections_start_idle_def doc_grpc_def client_dial_def one_client_def zero_config_def)

end
