(* ===== verification/Plugins.thy ===== *)
theory Plugins
  imports Client_Hooks
begin

text \<open>
  \<open>plugin/rprom\<close> and \<open>plugin/rotel\<close>: the metrics and the tracing that can be hooked into a
  client. The world of a hooked client is what the plugin keeps, its metrics or its spans,
  beside the rest. Prometheus and OpenTelemetry appear as what is observed of them: counters,
  gauges and observations; started and ended spans. Metric values are float64 in the code and
  natural numbers here, which agree up to \<open>2 ^ 53\<close>.
\<close>

section \<open>rprom: configuration\<close>

datatype Histogram = ReadTime | WriteTime

record 'r rprom_cfg =
  pc_namespace :: string
  pc_subsystem :: string
  pc_reg :: 'r
  pc_gatherer :: 'r
  pc_withClientLabel :: bool
  pc_histograms :: "Histogram \<rightharpoonup> decimal list"
  pc_defBuckets :: "decimal list"

definition DefBuckets :: "decimal list" where
  "DefBuckets = [(1, 3), (2, 3), (4, 3), (8, 3), (16, 3), (32, 3), (64, 3), (128, 3), (256, 3),
     (512, 3), (1024, 3), (2048, 3)]"

definition DefNamespace :: string where "DefNamespace = ''regatta''"

type_synonym 'r rprom_Opt = "'r rprom_cfg \<Rightarrow> 'r rprom_cfg"

definition Namespace :: "string \<Rightarrow> 'r rprom_Opt" where
  "Namespace namespace c = c\<lparr>pc_namespace := namespace\<rparr>"
definition Registry :: "'r \<Rightarrow> 'r rprom_Opt" where
  "Registry rg c = c\<lparr>pc_reg := rg, pc_gatherer := rg\<rparr>"
definition Registerer :: "'r \<Rightarrow> 'r rprom_Opt" where
  "Registerer reg c = c\<lparr>pc_reg := reg\<rparr>"
definition Gatherer :: "'r \<Rightarrow> 'r rprom_Opt" where
  "Gatherer gatherer c = c\<lparr>pc_gatherer := gatherer\<rparr>"
definition WithClientLabel :: "'r rprom_Opt" where
  "WithClientLabel c = c\<lparr>pc_withClientLabel := True\<rparr>"
definition Subsystem :: "string \<Rightarrow> 'r rprom_Opt" where
  "Subsystem ss c = c\<lparr>pc_subsystem := ss\<rparr>"
definition Buckets :: "decimal list \<Rightarrow> 'r rprom_Opt" where
  "Buckets buckets c = c\<lparr>pc_defBuckets := buckets\<rparr>"

record HistogramOpts =
  ho_Enable :: Histogram
  ho_Buckets :: "decimal list"

fun histograms_loop :: "HistogramOpts list \<Rightarrow> (Histogram \<rightharpoonup> decimal list) \<Rightarrow> (Histogram \<rightharpoonup> decimal list)"
where
  "histograms_loop [] m = m"
| "histograms_loop (h # hs) m = histograms_loop hs (m(ho_Enable h \<mapsto> ho_Buckets h))"

definition HistogramsFromOpts :: "HistogramOpts list \<Rightarrow> 'r rprom_Opt" where
  "HistogramsFromOpts hs c = c\<lparr>pc_histograms := histograms_loop hs Map.empty\<rparr>"

definition Histograms :: "Histogram list \<Rightarrow> 'r rprom_Opt" where
  "Histograms hs = HistogramsFromOpts (map (\<lambda>h. \<lparr>ho_Enable = h, ho_Buckets = []\<rparr>) hs)"

definition newCfg :: "'r \<Rightarrow> 'r rprom_Opt list \<Rightarrow> 'r rprom_cfg" where
  "newCfg default_registry opts = fold (\<lambda>opt c. opt c) opts
     \<lparr>pc_namespace = DefNamespace, pc_subsystem = [], pc_reg = default_registry,
      pc_gatherer = default_registry, pc_withClientLabel = False, pc_histograms = Map.empty,
      pc_defBuckets = DefBuckets\<rparr>"

text \<open>\<open>NewMetrics\<close> keeps the configuration; the instruments are made by \<open>OnNewClient\<close>.\<close>

definition NewMetrics :: "'r \<Rightarrow> 'r rprom_Opt list \<Rightarrow> 'r rprom_cfg" where
  "NewMetrics default_registry opts = newCfg default_registry opts"

section \<open>rprom: registration\<close>

text \<open>
  A registry is the list of the metrics in it; a second metric with the same full name makes
  the registration panic, as \<open>promauto\<close> does.
\<close>

record metric_opts =
  mo_Namespace :: string
  mo_Subsystem :: string
  mo_Name :: string
  mo_ConstLabels :: "(string \<times> string) list"
  mo_Buckets :: "decimal list"
  mo_Labels :: "string list"

text \<open>The full name joins the parts with underscores, without the empty ones.\<close>

definition name_prefix :: "string \<Rightarrow> string" where
  "name_prefix p = (if p = [] then [] else p @ ''_'')"

definition full_name :: "metric_opts \<Rightarrow> string" where
  "full_name m = (if mo_Name m = [] then []
     else name_prefix (mo_Namespace m) @ name_prefix (mo_Subsystem m) @ mo_Name m)"

fun register_all :: "metric_opts list \<Rightarrow> metric_opts list \<Rightarrow> metric_opts list go" where
  "register_all [] reg = Ret reg"
| "register_all (m # ms) reg =
     (if full_name m \<in> set (map full_name reg)
      then Panic ''duplicate metrics collector registration attempted''
      else register_all ms (reg @ [m]))"

definition getHistogramBuckets :: "'r rprom_cfg \<Rightarrow> Histogram \<Rightarrow> decimal list" where
  "getHistogramBuckets c h =
     (case pc_histograms c h of
        Some buckets \<Rightarrow> if length buckets \<noteq> 0 then buckets else pc_defBuckets c
      | None \<Rightarrow> pc_defBuckets c)"

definition simple_metric :: "'r rprom_cfg \<Rightarrow> string \<Rightarrow> metric_opts" where
  "simple_metric c name = \<lparr>mo_Namespace = pc_namespace c, mo_Subsystem = pc_subsystem c,
     mo_Name = name, mo_ConstLabels = [], mo_Buckets = [], mo_Labels = []\<rparr>"

definition rprom_metrics_of :: "'r rprom_cfg \<Rightarrow> metric_opts list" where
  "rprom_metrics_of c =
     [simple_metric c ''connects_total'', simple_metric c ''disconnects_total'',
      simple_metric c ''connect_active'', simple_metric c ''write_bytes_total'',
      simple_metric c ''read_bytes_total'',
      (simple_metric c ''request_duration_seconds'')
        \<lparr>mo_Buckets := getHistogramBuckets c ReadTime, mo_Labels := [''table'', ''op'']\<rparr>,
      (simple_metric c ''request_errors_total'')\<lparr>mo_Labels := [''table'', ''op'']\<rparr>]"

definition rprom_OnNewClient :: "'r rprom_cfg \<Rightarrow> metric_opts list \<Rightarrow> metric_opts list go" where
  "rprom_OnNewClient c reg = register_all (rprom_metrics_of c) reg"

definition rprom_OnClientClose :: "'r rprom_cfg \<Rightarrow> metric_opts list \<Rightarrow> metric_opts list" where
  "rprom_OnClientClose c reg =
     filter (\<lambda>m. full_name m \<notin> set (map full_name (rprom_metrics_of c))) reg"

section \<open>rprom: observation\<close>

record metrics =
  me_connectsTotal :: nat
  me_disconnectsTotal :: nat
  me_connectActive :: int
  me_writeBytesTotal :: nat
  me_readBytesTotal :: nat
  me_requestDuration :: "bytes \<times> string \<Rightarrow> duration list"
  me_requestErrors :: "bytes \<times> string \<Rightarrow> nat"

definition rprom_OnHandleConn :: "ConnStats \<Rightarrow> metrics \<Rightarrow> metrics" where
  "rprom_OnHandleConn cs m = (case cs of
     ConnBegin \<Rightarrow> m\<lparr>me_connectsTotal := me_connectsTotal m + 1,
       me_connectActive := me_connectActive m + 1\<rparr>
   | ConnEnd \<Rightarrow> m\<lparr>me_disconnectsTotal := me_disconnectsTotal m + 1,
       me_connectActive := me_connectActive m - 1\<rparr>)"

definition rprom_OnHandleRPC :: "RPCStats \<Rightarrow> metrics \<Rightarrow> metrics" where
  "rprom_OnHandleRPC rs m = (case rs of
     InPayload n \<Rightarrow> m\<lparr>me_readBytesTotal := me_readBytesTotal m + n\<rparr>
   | OutPayload n \<Rightarrow> m\<lparr>me_writeBytesTotal := me_writeBytesTotal m + n\<rparr>
   | OtherRPCStats \<Rightarrow> m)"

definition getOpLabel :: "Op \<Rightarrow> string" where
  "getOpLabel x =
     (if IsGet x then ''get'' else if IsIterate x then ''iterate'' else if IsPut x then ''put''
      else if IsDelete x then ''delete'' else if IsTxn x then ''txn'' else ''unknown'')"

definition observe :: "bytes \<Rightarrow> Op \<Rightarrow> duration \<Rightarrow> bool \<Rightarrow> metrics \<Rightarrow> metrics" where
  "observe table x d failed m =
     (let l = (table, getOpLabel x);
          m1 = m\<lparr>me_requestDuration := (me_requestDuration m)(l := me_requestDuration m l @ [d])\<rparr>
      in if failed then m1\<lparr>me_requestErrors := (me_requestErrors m1)(l := me_requestErrors m1 l + 1)\<rparr>
         else m1)"

text \<open>
  \<open>now\<close> reads the clock. The deferred function runs after a panic as well; the error it sees is
  then still nil.
\<close>

definition rprom_OnKVCall :: "('v \<Rightarrow> int) \<Rightarrow> (metrics \<times> 'v) HookKVOpDo" where
  "rprom_OnKVCall now c table x Do w =
     (let start = now (snd w) in
      case Do c table x w of
        (Panic p, (m, v)) \<Rightarrow> (Panic p, (observe table x (now v - start) False m, v))
      | (Ret (r, e), (m, v)) \<Rightarrow> (Ret (r, e), (observe table x (now v - start) (e \<noteq> None) m, v)))"

section \<open>rotel\<close>

text \<open>\<open>utf8.Valid\<close>: what is left after one valid character, as long as there is one.\<close>

definition utf8_two :: "bytes \<Rightarrow> bool" where
  "utf8_two s = (2 \<le> length s \<and> 0x80 \<le> s ! 1 \<and> s ! 1 \<le> 0xBF)"

definition utf8_three :: "bytes \<Rightarrow> bool" where
  "utf8_three s = (3 \<le> length s \<and> (if s ! 0 = 0xE0 then 0xA0 else 0x80) \<le> s ! 1 \<and>
     s ! 1 \<le> (if s ! 0 = 0xED then 0x9F else 0xBF) \<and> 0x80 \<le> s ! 2 \<and> s ! 2 \<le> 0xBF)"

definition utf8_four :: "bytes \<Rightarrow> bool" where
  "utf8_four s = (4 \<le> length s \<and> (if s ! 0 = 0xF0 then 0x90 else 0x80) \<le> s ! 1 \<and>
     s ! 1 \<le> (if s ! 0 = 0xF4 then 0x8F else 0xBF) \<and> 0x80 \<le> s ! 2 \<and> s ! 2 \<le> 0xBF \<and>
     0x80 \<le> s ! 3 \<and> s ! 3 \<le> 0xBF)"

definition utf8_next :: "bytes \<Rightarrow> bytes option" where
  "utf8_next s =
     (if s = [] then None
      else if s ! 0 < 0x80 then Some (drop 1 s)
      else if 0xC2 \<le> s ! 0 \<and> s ! 0 \<le> 0xDF then (if utf8_two s then Some (drop 2 s) else None)
      else if 0xE0 \<le> s ! 0 \<and> s ! 0 \<le> 0xEF then (if utf8_three s then Some (drop 3 s) else None)
      else if 0xF0 \<le> s ! 0 \<and> s ! 0 \<le> 0xF4 then (if utf8_four s then Some (drop 4 s) else None)
      else None)"

lemma utf8_next_length: "utf8_next s = Some r \<Longrightarrow> length r < length s"
  by (auto simp: utf8_next_def split: if_splits)

function utf8_Valid :: "bytes \<Rightarrow> bool" where
  "utf8_Valid s = (case utf8_next s of None \<Rightarrow> s = [] | Some r \<Rightarrow> utf8_Valid r)"
  by pat_completeness auto
termination by (relation "measure length") (auto dest: utf8_next_length)

declare utf8_Valid.simps [simp del]

text \<open>A provider and a tracer of OpenTelemetry are values \<open>'p\<close> and \<open>'t\<close>; nil is \<open>None\<close>.\<close>

record ('p, 't) Tracing =
  tr_tracerProvider :: "'p option"
  tr_tracer :: "'t option"
  tr_keyFormatter :: "(bytes \<Rightarrow> err + bytes) option"

type_synonym ('p, 't) rotel_Opt = "('p, 't) Tracing \<Rightarrow> ('p, 't) Tracing"

definition TracerProvider :: "'p option \<Rightarrow> ('p, 't) rotel_Opt" where
  "TracerProvider provider t = t\<lparr>tr_tracerProvider := provider\<rparr>"

definition KeyFormatter :: "(bytes \<Rightarrow> err + bytes) option \<Rightarrow> ('p, 't) rotel_Opt" where
  "KeyFormatter fn t = t\<lparr>tr_keyFormatter := fn\<rparr>"

definition instrumentationName :: string where
  "instrumentationName = ''github.com/jamf/regatta-go/plugin/rotel''"

text \<open>The build information is the paths and versions of the dependencies, if it is there.\<close>

fun dep_version :: "(string \<times> string) list \<Rightarrow> string option" where
  "dep_version [] = None"
| "dep_version ((path, v) # deps) = (if path = instrumentationName then Some v else dep_version deps)"

definition rotel_version :: "(string \<times> string) list option \<Rightarrow> string" where
  "rotel_version info = (case info of None \<Rightarrow> ''unknown''
     | Some deps \<Rightarrow> (case dep_version deps of Some v \<Rightarrow> v | None \<Rightarrow> ''unknown''))"

definition semVersion :: "(string \<times> string) list option \<Rightarrow> string" where
  "semVersion info = ''semver:'' @ rotel_version info"

definition NewTracing ::
  "(string \<times> string) list option \<Rightarrow> 'p \<Rightarrow> ('p \<Rightarrow> string \<Rightarrow> string \<Rightarrow> 't) \<Rightarrow> ('p, 't) rotel_Opt list \<Rightarrow>
     ('p, 't) Tracing" where
  "NewTracing info global_provider Tracer opts =
     (let t = fold (\<lambda>opt t. opt t) opts
            \<lparr>tr_tracerProvider = None, tr_tracer = None, tr_keyFormatter = None\<rparr>;
          provider = (case tr_tracerProvider t of None \<Rightarrow> global_provider | Some p \<Rightarrow> p)
      in t\<lparr>tr_tracerProvider := Some provider,
           tr_tracer := Some (Tracer provider instrumentationName (semVersion info))\<rparr>)"

definition formatKey :: "('p, 't) Tracing \<Rightarrow> slice \<Rightarrow> bytes" where
  "formatKey t p = (case p of None \<Rightarrow> []
     | Some bs \<Rightarrow>
         (case tr_keyFormatter t of
            Some f \<Rightarrow> (case f bs of Inl e \<Rightarrow> [] | Inr k \<Rightarrow> if \<not> utf8_Valid k then [] else k)
          | None \<Rightarrow> if \<not> utf8_Valid bs then [] else bs))"

definition str :: "string \<Rightarrow> bytes" where
  "str s = map (\<lambda>c. word_of_nat (of_char c)) s"

definition opAttrs :: "('p, 't) Tracing \<Rightarrow> (string \<times> bytes) list \<Rightarrow> Op \<Rightarrow> string \<times> (string \<times> bytes) list" where
  "opAttrs t attrs x =
     (let key = formatKey t (op_KeyBytes x); rangeEnd = formatKey t (op_RangeBytes x) in
      if IsGet x then (''regatta/get'', attrs @ [(''db.operation'', str ''get''), (''db.statement'',
        str ''regatta.v1.kv/Range key: '' @ key @ str '' rangeEnd: '' @ rangeEnd)])
      else if IsIterate x then (''regatta/iterate'', attrs @ [(''db.operation'', str ''iterate''),
        (''db.statement'', str ''regatta.v1.kv/IterateRange key: '' @ key @ str '' rangeEnd: '' @ rangeEnd)])
      else if IsPut x then (''regatta/put'', attrs @ [(''db.operation'', str ''put''), (''db.statement'',
        str ''regatta.v1.kv/Put key: '' @ key)])
      else if IsDelete x then (''regatta/delete'', attrs @ [(''db.operation'', str ''delete''),
        (''db.statement'', str ''regatta.v1.kv/DeleteRange key: '' @ key @ str '' rangeEnd: '' @ rangeEnd)])
      else if IsTxn x then (''regatta/txn'', attrs @ [(''db.operation'', str ''txn''), (''db.statement'',
        str ''regatta.v1.kv/Txn ops'')])
      else (''regatta/unknown'', attrs))"

text \<open>A span: its name and attributes, the error recorded on it, and whether it has ended.\<close>

record span =
  sp_name :: string
  sp_attrs :: "(string \<times> bytes) list"
  sp_error :: "err option"
  sp_ended :: bool

text \<open>\<open>start\<close> derives the context of the span.\<close>

definition rotel_OnKVCall ::
  "('p, 't) Tracing \<Rightarrow> ((span list \<times> 'v) ctx \<Rightarrow> (span list \<times> 'v) ctx) \<Rightarrow> (span list \<times> 'v) HookKVOpDo" where
  "rotel_OnKVCall t start c table x Do w =
     (case opAttrs t [(''db.system'', str ''regatta''), (''db.name'', table)] x of
        (spanName, attrs) \<Rightarrow>
          (let i = length (fst w);
               sp = \<lparr>sp_name = spanName, sp_attrs = attrs, sp_error = None, sp_ended = False\<rparr>
           in case Do (start c) table x (fst w @ [sp], snd w) of
                (Panic p, (spans, v)) \<Rightarrow> (Panic p, (spans[i := (spans ! i)\<lparr>sp_ended := True\<rparr>], v))
              | (Ret (r, e), (spans, v)) \<Rightarrow>
                  (Ret (r, e), (spans[i := (spans ! i)\<lparr>sp_error := e, sp_ended := True\<rparr>], v))))"

section \<open>The plugins are well-behaved hooks\<close>

interpretation rprom: kv_hook "rprom_OnKVCall now" for now
proof
  fix c table x Do and w :: "metrics \<times> 'a"
  have "fst (rprom_OnKVCall now c table x Do w) = fst (Do c table x w)"
    by (auto simp: rprom_OnKVCall_def Let_def split: prod.splits go.splits)
  then show "\<exists>c' w'. fst (rprom_OnKVCall now c table x Do w) = fst (Do c' table x w')" by blast
qed

interpretation rotel: kv_hook "rotel_OnKVCall t start"
  for t :: "('p, 't) Tracing" and start :: "(span list \<times> 'v) ctx \<Rightarrow> (span list \<times> 'v) ctx"
proof
  fix c table x Do and w :: "span list \<times> 'v"
  obtain n as where "opAttrs t [(''db.system'', str ''regatta''), (''db.name'', table)] x = (n, as)"
    by fastforce
  then have "fst (rotel_OnKVCall t start c table x Do w) = fst (Do (start c) table x
      (fst w @ [\<lparr>sp_name = n, sp_attrs = as, sp_error = None, sp_ended = False\<rparr>], snd w))"
    by (auto simp: rotel_OnKVCall_def Let_def split: prod.splits go.splits)
  then show "\<exists>c' w'. fst (rotel_OnKVCall t start c table x Do w) = fst (Do c' table x w')" by blast
qed

section \<open>Facts\<close>

lemma utf8_more:
  "utf8_two s \<Longrightarrow> utf8_two (s @ t) \<and> 2 \<le> length s"
  "utf8_three s \<Longrightarrow> utf8_three (s @ t) \<and> 3 \<le> length s"
  "utf8_four s \<Longrightarrow> utf8_four (s @ t) \<and> 4 \<le> length s"
  unfolding utf8_two_def utf8_three_def utf8_four_def by (simp_all only: nth_append length_append) auto

lemma utf8_next_append:
  assumes "utf8_next s = Some r"
  shows "utf8_next (s @ t) = Some (r @ t)"
proof -
  have ne: "s \<noteq> []" using assms by (auto simp: utf8_next_def)
  then have hd: "(s @ t) ! 0 = s ! 0" by (simp add: nth_append)
  have len: "Suc 0 \<le> length s" using ne by (cases s) auto
  from assms ne len show ?thesis
    unfolding utf8_next_def hd by (simp split: if_splits add: utf8_more) blast+
qed

lemma utf8_Nil [simp]: "utf8_Valid []"
  by (simp add: utf8_Valid.simps utf8_next_def)

lemma utf8_append: "utf8_Valid a \<Longrightarrow> utf8_Valid b \<Longrightarrow> utf8_Valid (a @ b)"
proof (induction a rule: utf8_Valid.induct)
  case (1 s)
  show ?case
  proof (cases "utf8_next s")
    case None
    with 1 show ?thesis by (simp add: utf8_Valid.simps [of s])
  next
    case (Some r)
    with 1 show ?thesis
      by (simp add: utf8_Valid.simps [of s] utf8_Valid.simps [of "s @ b"] utf8_next_append)
  qed
qed

lemma utf8_ascii: "c < 0x80 \<Longrightarrow> utf8_Valid (c # s) = utf8_Valid s"
  by (simp add: utf8_Valid.simps [of "c # s"] utf8_next_def)

lemma formatKey_valid: "utf8_Valid (formatKey t p)"
  by (auto simp: formatKey_def split: option.split sum.split)

lemma str_valid: "list_all (\<lambda>c. (of_char c :: nat) < 128) s \<Longrightarrow> utf8_Valid (str s)"
proof (induction s)
  case (Cons c s)
  have "unat (word_of_nat (of_char c) :: byte) = of_char c"
    using Cons.prems by (simp add: unat_of_nat take_bit_nat_eq_self)
  then have "(word_of_nat (of_char c) :: byte) < 0x80" using Cons.prems by (simp add: word_less_nat_alt)
  with Cons show ?case by (simp add: str_def utf8_ascii)
qed (simp add: str_def)

lemma register_all_Ret:
  "register_all ms reg = Ret reg' \<longleftrightarrow> reg' = reg @ ms \<and> distinct (map full_name ms) \<and>
     set (map full_name ms) \<inter> set (map full_name reg) = {}"
  by (induction ms arbitrary: reg) auto

lemma rprom_names_distinct: "distinct (map full_name (rprom_metrics_of c))"
  by (simp add: rprom_metrics_of_def simple_metric_def full_name_def)

lemma rprom_names_nonempty: "set (map full_name (rprom_metrics_of c)) \<noteq> {}"
  by (simp add: rprom_metrics_of_def)

section \<open>Properties\<close>


definition zero_metrics :: metrics where
  "zero_metrics = \<lparr>me_connectsTotal = 0, me_disconnectsTotal = 0, me_connectActive = 0,
     me_writeBytesTotal = 0, me_readBytesTotal = 0, me_requestDuration = (\<lambda>l. []),
     me_requestErrors = (\<lambda>l. 0)\<rparr>"


text \<open>The gauge of active connections is the number of connects less the number of disconnects,
  whatever the order in which connections come and go.\<close>

theorem rprom_active_connections:
  "me_connectActive (fold rprom_OnHandleConn css zero_metrics) =
     int (me_connectsTotal (fold rprom_OnHandleConn css zero_metrics)) -
     int (me_disconnectsTotal (fold rprom_OnHandleConn css zero_metrics))"
proof -
  have "me_connectActive (fold rprom_OnHandleConn css m) =
      me_connectActive m + int (me_connectsTotal (fold rprom_OnHandleConn css m)) -
      int (me_connectsTotal m) - int (me_disconnectsTotal (fold rprom_OnHandleConn css m)) +
      int (me_disconnectsTotal m)" for m
    by (induction css arbitrary: m) (auto simp: rprom_OnHandleConn_def split: ConnStats.split)
  from this [of zero_metrics] show ?thesis by (simp add: zero_metrics_def)
qed

text \<open>A registry that has the metrics of one client refuses those of a second one: its
  construction panics. Had they been unregistered, it would succeed; but the method that does so
  is \<open>OnClientClose\<close>, which is not the one the client calls on closing.\<close>

theorem rprom_second_client_panics:
  assumes "rprom_OnNewClient c reg = Ret reg1"
  shows "(\<exists>p. rprom_OnNewClient c reg1 = Panic p) \<and>
    rprom_OnNewClient c (rprom_OnClientClose c reg1) = Ret (reg @ rprom_metrics_of c)"
proof -
  let ?ms = "rprom_metrics_of c"
  from assms have reg1: "reg1 = reg @ ?ms" and dis: "set (map full_name ?ms) \<inter> set (map full_name reg) = {}"
    by (simp_all add: rprom_OnNewClient_def register_all_Ret)
  have "rprom_OnNewClient c reg1 \<noteq> Ret r" for r
    using rprom_names_nonempty [of c] by (auto simp: rprom_OnNewClient_def register_all_Ret reg1)
  then have "\<exists>p. rprom_OnNewClient c reg1 = Panic p" by (cases "rprom_OnNewClient c reg1") auto
  moreover have "rprom_OnClientClose c reg1 = reg"
    using dis by (auto simp: rprom_OnClientClose_def reg1 filter_empty_conv intro!: filter_True)
  ultimately show ?thesis using dis rprom_names_distinct
    by (simp add: rprom_OnNewClient_def register_all_Ret)
qed

theorem rprom_second_client_panics_witness:
  "\<exists>reg p. rprom_OnNewClient (newCfg () []) [] = Ret reg \<and> rprom_OnNewClient (newCfg () []) reg = Panic p"
proof -
  have "rprom_OnNewClient (newCfg () []) [] = Ret (rprom_metrics_of (newCfg () []))"
    using rprom_names_distinct [of "newCfg () []"] by (simp add: rprom_OnNewClient_def register_all_Ret)
  with rprom_second_client_panics [OF this] show ?thesis by blast
qed

text \<open>Two of the configuration's options have no effect on the metrics: the client label, and
  enabling the \<open>WriteTime\<close> histogram with buckets of its own.\<close>

theorem rprom_options_without_effect:
  "rprom_metrics_of (WithClientLabel c) = rprom_metrics_of c \<and>
   rprom_metrics_of (HistogramsFromOpts [\<lparr>ho_Enable = WriteTime, ho_Buckets = bs\<rparr>] c) =
     rprom_metrics_of (HistogramsFromOpts [] c)"
  by (auto simp: rprom_metrics_of_def simple_metric_def getHistogramBuckets_def WithClientLabel_def
      HistogramsFromOpts_def split: option.split)

text \<open>The statement attached to a span is valid UTF-8 whatever bytes the keys are, and whatever
  the key formatter returns.\<close>

theorem span_statement_valid:
  "list_all (\<lambda>(k, v). utf8_Valid v) (snd (opAttrs t [] x))"
  by (auto simp: opAttrs_def Let_def formatKey_valid str_valid intro!: utf8_append)

text \<open>A table read through any number of metrics hooks that reports no error has a response.\<close>

theorem measured_get_has_response:
  assumes "table_Get S (kv_Table (newKV client callOpts S (map rprom_OnKVCall clocks)) name) c key
      (opts_of os) w = (Ret (res, None), w1)"
  shows "res \<noteq> None"
proof -
  have "\<forall>h \<in> set (map rprom_OnKVCall clocks). kv_hook h" using rprom.kv_hook_axioms by auto
  from kv_iface.get_shape [OF newKV_iface [OF this]] assms show ?thesis
    by (simp add: table_Get_def kv_Table_def)
qed

theorem measured_get_has_response_witness:
  "\<exists>res w1. table_Get doc_status (kv_Table (newKV empty_client [] doc_status
       (map rprom_OnKVCall [\<lambda>v. int v])) [7]) fresh_ctx [1] (opts_of []) (zero_metrics, 0) =
     (Ret (res, None), w1) \<and> res \<noteq> None"
proof -
  obtain res w1 where get: "table_Get doc_status (kv_Table (newKV empty_client [] doc_status
       (map rprom_OnKVCall [\<lambda>v. int v])) [7]) fresh_ctx [1] (opts_of []) (zero_metrics, 0 :: nat) =
     (Ret (res, None), w1)"
    by (simp add: table_Get_def kv_Table_def newKV_def do_op_def OpGet_def hookedKV_Do_def
        rprom_OnKVCall_def kv_Do_def do_call_def retryKVClient_def retryKV_Range_def empty_client_def
        toRangeRequest_def IsOptsWithPrefix_def NewOp_def zero_fields_def Let_def)
  from measured_get_has_response [OF get] get show ?thesis by blast
qed

end
