(* ===== verification/Retry_Spec.thy ===== *)
theory Retry_Spec
  imports Client_Retry
begin

text \<open>
  An abstract specification of a retried call, and the refinement that the unary interceptor
  implements it; and the counterpart for streams: a retrying stream delivers what the first
  working stream has to offer.
\<close>

section \<open>The specification\<close>

text \<open>
  A run of a retried call with \<open>n\<close> attempts left and the last error \<open>l\<close>: the outcomes of the
  attempts it makes, and its result. After an error that may be retried the specification may
  go on; it may give up on every error but one that must be retried; it may be stopped between
  two attempts; and without attempts left it returns the last error.
\<close>

inductive retry_spec ::
  "(err \<Rightarrow> bool) \<Rightarrow> (err \<Rightarrow> bool) \<Rightarrow> (err \<Rightarrow> bool) \<Rightarrow> nat \<Rightarrow> err option \<Rightarrow> err option list \<Rightarrow>
     err option \<Rightarrow> bool"
  for may must stopped where
  exhausted: "retry_spec may must stopped 0 l [] l"
| interrupted: "stopped e \<Longrightarrow> retry_spec may must stopped (Suc n) (Some l) [] (Some e)"
| success: "retry_spec may must stopped (Suc n) l [None] None"
| failure: "\<not> must e \<Longrightarrow> retry_spec may must stopped (Suc n) l [Some e] (Some e)"
| again: "may e \<Longrightarrow> retry_spec may must stopped n (Some e) xs r \<Longrightarrow>
    retry_spec may must stopped (Suc n) l (Some e # xs) r"

code_pred retry_spec .

inductive_simps retry_spec_simps: "retry_spec may must stopped n l (x # xs) r"

text \<open>What the specification promises: a bound, and that only the last attempt can have
  succeeded or failed in a way that must not be retried.\<close>

lemma retry_spec_trace:
  assumes "retry_spec may must stopped n l xs r"
  shows "length xs \<le> n \<and> (\<forall>x \<in> set (butlast xs). \<exists>e. x = Some e \<and> may e)"
  using assms by (induction rule: retry_spec.induct) auto

lemma retry_spec_result:
  assumes "retry_spec may must stopped n l xs r"
  shows "(xs = [] \<and> r = l) \<or> (xs \<noteq> [] \<and> r = List.last xs) \<or> (\<exists>e. r = Some e \<and> stopped e)"
  using assms by (induction rule: retry_spec.induct) auto

section \<open>The unary interceptor\<close>

text \<open>
  A part \<open>log\<close> of the world that grows by one entry with each call, of which \<open>outcome\<close> gives the
  outcome of the call; and a call whose outcomes are recorded beside its world.
\<close>

definition logs :: "('a \<Rightarrow> err option) \<Rightarrow> ('w \<Rightarrow> 'a list) \<Rightarrow> ('w \<Rightarrow> err option \<times> 'w) \<Rightarrow> bool" where
  "logs outcome log call \<longleftrightarrow>
     (\<forall>w x w1. call w = (x, w1) \<longrightarrow> (\<exists>y. log w1 = log w @ [y] \<and> outcome y = x))"

definition logged_call ::
  "('v \<Rightarrow> err option \<times> 'v) \<Rightarrow> err option list \<times> 'v \<Rightarrow> err option \<times> err option list \<times> 'v" where
  "logged_call call w = (case call (snd w) of (x, v) \<Rightarrow> (x, fst w @ [x], v))"

lemma logs_logged_call: "logs (\<lambda>x. x) fst (logged_call call)"
  by (simp add: logs_def logged_call_def split: prod.split)

abbreviation may_retry :: "status_pkg \<Rightarrow> 'w options \<Rightarrow> err \<Rightarrow> bool" where
  "may_retry S co e \<equiv> retryable S co (Some e)"

definition stops_wait :: "status_pkg \<Rightarrow> err \<Rightarrow> bool" where
  "stops_wait S e \<longleftrightarrow> (\<exists>c. contextErrToGrpcErr S c = Ret e)"

lemma safe_not_context: "isSafeRetry S e co \<Longrightarrow> \<not> isContextError S e"
  by (simp add: isSafeRetry_def split: if_splits)

lemma wait_stops:
  assumes "waitRetryBackoff S select c a co w = (Ret (Some e), w1)"
  shows "a \<noteq> 0 \<and> stops_wait S e"
proof -
  from assms have "0 < a" by (auto simp: waitRetryBackoff_def split: if_splits)
  moreover from assms obtain w' where "go_bind (contextErrToGrpcErr S (ctx_Err c w')) (\<lambda>e. Ret (Some e)) =
      Ret (Some e)"
    by (auto simp: waitRetryBackoff_def split: prod.splits if_splits bool.splits)
  ultimately show ?thesis
    by (cases "contextErrToGrpcErr S (ctx_Err c w')") (auto simp: stops_wait_def)
qed

lemma unary_loop_refines:
  assumes "wait_keeps log select co" and "logs outcome log call"
    and "unary_loop S select c co call a l w = (Ret r, w1)" and "a = 0 \<or> l \<noteq> None"
  shows "\<exists>xs. log w1 = log w @ xs \<and>
    retry_spec (may_retry S co) (\<lambda>e. isSafeRetry S e co) (stops_wait S)
      (unat (opt_max co) - unat a) l (map outcome xs) r"
  using assms
proof (induction "unat (opt_max co) - unat a" arbitrary: a l w)
  case 0
  then have "\<not> a < opt_max co" by (simp add: word_less_nat_alt)
  with 0 show ?case by (auto simp: unary_loop.simps intro: retry_spec.exhausted)
next
  case (Suc n)
  then have less: "a < opt_max co" by (simp add: word_less_nat_alt)
  obtain g w2 where wait: "waitRetryBackoff S select c a co w = (g, w2)" by (rule prod.exhaust)
  from wait_keepsD [OF Suc.prems(1) wait] have w2: "log w2 = log w" .
  obtain x w3 where step: "call w2 = (x, w3)" by (rule prod.exhaust)
  with Suc.prems(2) w2 obtain y where w3: "log w3 = log w @ [y]" "outcome y = x"
    unfolding logs_def by metis
  note unfold = unary_loop.simps [of S select c co call a l w]
  show ?case
  proof (cases g)
    case (Panic m)
    with Suc.prems(3) less wait show ?thesis by (simp add: unfold)
  next
    case (Ret q)
    show ?thesis
    proof (cases q)
      case (Some e)
      with Ret Suc.prems(3) less wait have "r = Some e" "w1 = w2" by (simp_all add: unfold)
      moreover from wait_stops [of S select c a co w e] wait Ret Some have "a \<noteq> 0" "stops_wait S e"
        by auto
      ultimately show ?thesis using Suc.prems(4) Suc.hyps(2) w2
        by (auto intro: retry_spec.interrupted simp flip: Suc.hyps(2))
    next
      case None
      have run: "unary_loop S select c co call a l w =
        (case x of None \<Rightarrow> (Ret None, w3)
         | Some e \<Rightarrow>
            if isContextError S e then
              (if ctx_Err c w3 \<noteq> None then (Ret (Some e), w3)
               else unary_loop S select c co call (a + 1) (Some e) w3)
            else if \<not> isSafeRetry S e co then (Ret (Some e), w3)
            else unary_loop S select c co call (a + 1) (Some e) w3)"
        unfolding unfold by (simp add: less wait Ret None step split: option.split)
      show ?thesis
      proof (cases x)
        case None
        with run Suc.prems(3) have "r = None" "log w1 = log w @ [y]" by (auto simp: w3)
        with None w3 show ?thesis by (auto intro!: exI [of _ "[y]"] retry_spec.success simp flip: Suc.hyps(2))
      next
        case (Some e)
        let ?next = "unary_loop S select c co call (a + 1) (Some e) w3"
        from run Some Suc.prems(3) consider (stop) "r = Some e" "log w1 = log w @ [y]" "\<not> isSafeRetry S e co"
          | (go_on) "?next = (Ret r, w1)" "may_retry S co e"
          by (auto simp: w3 retryable_def dest: safe_not_context split: if_splits)
        then show ?thesis
        proof cases
          case stop
          with Some w3 show ?thesis by (auto intro!: exI [of _ "[y]"] retry_spec.failure simp flip: Suc.hyps(2))
        next
          case go_on
          have n: "n = unat (opt_max co) - unat (a + 1)"
            using Suc.hyps(2) less by (simp add: unat_Suc_less)
          from Suc.hyps(1) [OF n Suc.prems(1,2) go_on(1)] obtain xs where
            "log w1 = log w @ y # xs" and "retry_spec (may_retry S co)
              (\<lambda>e. isSafeRetry S e co) (stops_wait S) n (Some e) (map outcome xs) r"
            by (auto simp: w3 n Some)
          with go_on(2) Some w3 show ?thesis
            by (auto intro!: exI [of _ "y # xs"] retry_spec.again simp flip: Suc.hyps(2))
        qed
      qed
    qed
  qed
qed

text \<open>The whole interceptor, over any world with such a log.\<close>

lemma interceptor_refines:
  assumes "wait_keeps log select (effective_options jitter optFuncs opts)"
    and "logs outcome log (invoker (withVersion c) (fst (filterCallOptions opts)))"
    and "unaryClientInterceptor S jitter select optFuncs c invoker opts w = (Ret r, w1)"
  shows "\<exists>xs. log w1 = log w @ xs \<and>
    retry_spec (may_retry S (effective_options jitter optFuncs opts))
      (\<lambda>e. isSafeRetry S e (effective_options jitter optFuncs opts)) (stops_wait S)
      (max 1 (unat (opt_max (effective_options jitter optFuncs opts)))) None (map outcome xs) r"
proof -
  let ?co = "effective_options jitter optFuncs opts"
  let ?call = "invoker (withVersion c) (fst (filterCallOptions opts))"
  show ?thesis
  proof (cases "opt_max ?co = 0")
    case True
    obtain x w2 where "?call w = (x, w2)" by (rule prod.exhaust)
    moreover from this assms(2) obtain y where y: "log w2 = log w @ [y]" "outcome y = x"
      unfolding logs_def by metis
    ultimately have "r = x" "log w1 = log w @ [y]" using assms(3) True
      by (auto simp: unaryClientInterceptor_eq Let_def)
    then show ?thesis using True y
      by (cases x) (auto simp: retry_spec_simps retryable_def intro!: exI [of _ "[y]"]
        intro: retry_spec.exhausted)
  next
    case False
    then have "max 1 (unat (opt_max ?co)) = unat (opt_max ?co)"
      using unat_gt_0 [of "opt_max ?co"] by simp
    with False unary_loop_refines [OF assms(1,2), of S "withVersion c" 0 None w r w1] assms(3)
    show ?thesis by (simp add: unaryClientInterceptor_eq Let_def)
  qed
qed

section \<open>Streams\<close>

text \<open>A stream interface on which only receiving can fail: the world counts the receives, and the
  outcome of the next one is looked up in a script. A stream that is opened is named after the
  count.\<close>

definition scripted_stream :: "(nat \<Rightarrow> err option) \<Rightarrow> (nat, 'm, nat) stream_api" where
  "scripted_stream out = \<lparr>sa_SendMsg = (\<lambda>h m w. (None, w)), sa_RecvMsg = (\<lambda>h. scripted out),
     sa_CloseSend = (\<lambda>h w. (None, w))\<rparr>"

definition scripted_open :: "'c \<Rightarrow> nat \<Rightarrow> (err + nat) \<times> nat" where
  "scripted_open c w = (Inr w, w)"

definition delivered :: "err option \<Rightarrow> bool" where
  "delivered x \<longleftrightarrow> x = None \<or> x = Some IoEOF"

lemma scripted_resend: "resend_loop (scripted_stream out) h ms w = (None, w)"
  by (induction ms) (simp_all add: scripted_stream_def)

lemma scripted_reestablish:
  "ss_streamerCall s = scripted_open \<Longrightarrow>
     reestablishStreamAndResendBuffer (scripted_stream out) s w = (Inr w, w)"
  by (simp add: reestablishStreamAndResendBuffer_def scripted_open_def scripted_resend)
    (simp add: scripted_stream_def)

lemma scripted_receive:
  assumes "\<not> ss_receivedGood s" and "\<forall>w. ctx_Err (ss_ctx s) w = None"
  shows "receiveMsgAndIndicateRetry S (scripted_stream out) s w =
    (if delivered (out w) then ((False, out w), s\<lparr>ss_receivedGood := True\<rparr>, Suc w)
     else ((retryable S (ss_callOpts s) (out w), out w), s, Suc w))"
  using assms
  by (auto simp: receiveMsgAndIndicateRetry_def Let_def scripted_stream_def scripted_def delivered_def
      retryable_def isSafeRetry_def split: option.splits)

lemma recv_loop_recovers:
  assumes "quiet select (ss_ctx s) (ss_callOpts s)"
  shows "\<not> ss_receivedGood s \<Longrightarrow> ss_streamerCall s = scripted_open \<Longrightarrow>
    unat a + n < unat (opt_max (ss_callOpts s)) \<Longrightarrow>
    \<forall>i<n. \<not> delivered (out (w + i)) \<and> retryable S (ss_callOpts s) (out (w + i)) \<Longrightarrow>
    delivered (out (w + n)) \<Longrightarrow>
    recv_loop S select (scripted_stream out) a l s w =
      (Ret (out (w + n)), s\<lparr>ss_ClientStream := w + n, ss_receivedGood := True\<rparr>, Suc (w + n))"
  using assms
proof (induction n arbitrary: a l s w)
  case 0
  then have "a < opt_max (ss_callOpts s)" by (simp add: word_less_nat_alt)
  with 0 show ?case
    by (simp add: recv_loop.simps [of S select "scripted_stream out" a] quiet_wait scripted_reestablish
        scripted_receive quiet_def ss_setStream_def)
next
  case (Suc n)
  then have less: "a < opt_max (ss_callOpts s)" by (simp add: word_less_nat_alt)
  from Suc.prems(4) have now: "\<not> delivered (out w)" "retryable S (ss_callOpts s) (out w)"
    and later: "\<forall>i<n. \<not> delivered (out (Suc w + i)) \<and> retryable S (ss_callOpts s) (out (Suc w + i))"
    by (auto dest: spec [of _ 0] spec [of _ "Suc _"])
  let ?s = "s\<lparr>ss_ClientStream := w\<rparr>"
  have "recv_loop S select (scripted_stream out) a l s w =
      recv_loop S select (scripted_stream out) (a + 1) (out w) ?s (Suc w)"
    using less now Suc.prems
    by (simp add: recv_loop.simps [of S select "scripted_stream out" a] quiet_wait scripted_reestablish
        scripted_receive quiet_def ss_setStream_def)
  with Suc.IH [of ?s "a + 1" "Suc w" "out w"] later less Suc.prems show ?case
    by (simp add: unat_Suc_less)
qed

section \<open>Properties\<close>

text \<open>C6: The unary interceptor refines the specification of a retried call: whatever the call
  returns and however the context behaves, the outcomes of its attempts and its result form a
  run of the specification with the configured number of attempts, in which exactly the safe
  errors must and, beside these, context errors may be retried.\<close>

theorem retry_refines_spec:
  assumes "wait_keeps fst select (effective_options jitter optFuncs opts)"
    and "unaryClientInterceptor S jitter select optFuncs c (\<lambda>c gs. logged_call (call c gs)) opts w =
      (Ret r, w1)"
  shows "\<exists>xs. fst w1 = fst w @ xs \<and>
    retry_spec (may_retry S (effective_options jitter optFuncs opts))
      (\<lambda>e. isSafeRetry S e (effective_options jitter optFuncs opts)) (stops_wait S)
      (max 1 (unat (opt_max (effective_options jitter optFuncs opts)))) None xs r"
  using interceptor_refines [OF assms(1) logs_logged_call assms(2)] by simp

theorem retry_refines_spec_witness:
  "\<exists>w1 xs. unaryClientInterceptor doc_status (\<lambda>d f w. (d, w)) (\<lambda>c d w. (False, w)) [withMax 3] fresh_ctx
       (\<lambda>c gs. logged_call (scripted (\<lambda>i. if i = 0 then Some (StatusErr Unavailable ''down'') else None)))
       [RetryCallOption withRepeatable] ([], 0) = (Ret None, w1) \<and> fst w1 = xs \<and>
     retry_spec (may_retry doc_status (effective_options (\<lambda>d f w. (d, w)) [withMax 3]
         [RetryCallOption withRepeatable] :: (err option list \<times> nat) options))
       (\<lambda>e. isSafeRetry doc_status e (effective_options (\<lambda>d f w. (d, w)) [withMax 3]
         [RetryCallOption withRepeatable] :: (err option list \<times> nat) options))
       (stops_wait doc_status) 3 None xs None"
proof -
  let ?co = "effective_options (\<lambda>d f w. (d, w)) [withMax 3] [RetryCallOption withRepeatable]
    :: (err option list \<times> nat) options"
  let ?call = "scripted (\<lambda>i. if i = 0 then Some (StatusErr Unavailable ''down'') else None)"
  have keeps: "wait_keeps fst (\<lambda>c d w. (False, w)) ?co" by (simp add: wait_keeps_def effective_max3)
  have "isSafeRetry doc_status (StatusErr Unavailable ''down'') ?co"
    by (simp add: effective_max3 isSafeRetry_StatusErr [OF doc_status_ok])
  then have run: "unaryClientInterceptor doc_status (\<lambda>d f w. (d, w)) (\<lambda>c d w. (False, w)) [withMax 3]
      fresh_ctx (\<lambda>c gs. logged_call ?call) [RetryCallOption withRepeatable] ([], 0) =
      (Ret None, [Some (StatusErr Unavailable ''down''), None], 2)"
    by (simp add: unaryClientInterceptor_eq Let_def effective_max3 unary_loop.simps waitRetryBackoff_def
        logged_call_def scripted_def isContextError_def doc_status_def)
  from retry_refines_spec [OF keeps run] run show ?thesis by (auto simp: effective_max3)
qed

text \<open>C20: While the context is not done, a receive on a retrying stream that has received nothing
  yet delivers what the first of its attempts that works has to offer, a message or the end of
  the stream, provided the failures before it may be retried and there are fewer of them than
  the limit of attempts.\<close>

theorem stream_recovers:
  assumes "quiet select (ss_ctx s) (ss_callOpts s)" and "\<not> ss_receivedGood s"
    and "ss_streamerCall s = scripted_open"
    and "n < max 1 (unat (opt_max (ss_callOpts s)))"
    and "\<forall>i<n. \<not> delivered (out i) \<and> retryable S (ss_callOpts s) (out i)" and "delivered (out n)"
  shows "\<exists>s1. ss_RecvMsg S select (scripted_stream out) s 0 = (Ret (out n), s1, Suc n) \<and>
    ss_receivedGood s1 \<and> ss_bufferedSends s1 = ss_bufferedSends s"
proof (cases n)
  case 0
  with assms show ?thesis by (simp add: ss_RecvMsg_def scripted_receive quiet_def)
next
  case (Suc k)
  with assms have later: "\<forall>i<k. \<not> delivered (out (1 + i)) \<and> retryable S (ss_callOpts s) (out (1 + i))"
    and now: "\<not> delivered (out 0)" "retryable S (ss_callOpts s) (out 0)" by auto
  have "unat (1 :: 64 word) + k < unat (opt_max (ss_callOpts s))" using assms(4) Suc by simp
  from recv_loop_recovers [OF assms(1-3) this later, of "out 0"] now assms Suc show ?thesis
    by (simp add: ss_RecvMsg_def scripted_receive quiet_def)
qed

text \<open>Two streams break before the third one delivers.\<close>

theorem stream_recovers_witness:
  "\<exists>s1. ss_RecvMsg doc_status (\<lambda>c d w. (False, w))
      (scripted_stream (\<lambda>i. if i < 2 then Some (StatusErr Unavailable ''down'') else None))
      ((third_time_stream 5)\<lparr>ss_streamerCall := scripted_open\<rparr>) 0 = (Ret None, s1, 3)"
proof -
  have "retryable doc_status (ss_callOpts ((third_time_stream 5)\<lparr>ss_streamerCall := scripted_open\<rparr>))
      (Some (StatusErr Unavailable ''down''))"
    by (simp add: doc_Unavailable_retryable third_time_stream_def)
  then show ?thesis
    using stream_recovers [where n = 2 and select = "\<lambda>c d w. (False, w)"
        and s = "(third_time_stream 5)\<lparr>ss_streamerCall := scripted_open\<rparr>" and S = doc_status
        and out = "\<lambda>i. if i < 2 then Some (StatusErr Unavailable ''down'') else None"]
    by (auto simp: quiet_def third_time_stream_def fresh_ctx_def delivered_def)
qed

end
