(* ===== verification/Snappy.thy ===== *)
theory Snappy
  imports Main
begin

text \<open>
  \<open>internal/snappy/grpc.go\<close>: the compressor registered with gRPC, which keeps its writers and
  readers in two pools. The snappy library is left out: what matters of a writer or a reader is
  its identity, a number that stands for its address, and the stream it was last reset to.
  \<open>sync.Pool\<close> may hand out any of its items, or behave as if it were empty; the argument
  \<open>pick\<close> says which.
\<close>

section \<open>Model\<close>

text \<open>A pool, the stream each of the objects ever made was last reset to, and the next address.\<close>

record 't pooled =
  po_items :: "nat list"
  po_target :: "nat \<rightharpoonup> 't"
  po_next :: nat

record ('d, 's) compressor =
  poolCompressor :: "'d pooled"
  poolDecompressor :: "'s pooled"

definition Name :: string where "Name = ''snappy''"

definition pool_Get :: "nat option \<Rightarrow> 't pooled \<Rightarrow> nat option \<times> 't pooled" where
  "pool_Get pick p = (case pick of
     Some i \<Rightarrow> if i < length (po_items p)
       then (Some (po_items p ! i), p\<lparr>po_items := take i (po_items p) @ drop (Suc i) (po_items p)\<rparr>)
       else (None, p)
   | None \<Rightarrow> (None, p))"

definition pool_Put :: "nat \<Rightarrow> 't pooled \<Rightarrow> 't pooled" where
  "pool_Put z p = p\<lparr>po_items := z # po_items p\<rparr>"

definition allocate :: "'t pooled \<Rightarrow> nat \<times> 't pooled" where
  "allocate p = (po_next p, p\<lparr>po_next := Suc (po_next p)\<rparr>)"

definition reset_to :: "nat \<Rightarrow> 't \<Rightarrow> 't pooled \<Rightarrow> 't pooled" where
  "reset_to z t p = p\<lparr>po_target := (po_target p)(z \<mapsto> t)\<rparr>"

text \<open>The function \<open>New\<close> of the writers' pool, which the pool calls when it has nothing to give.\<close>

definition pool_Get_New :: "nat option \<Rightarrow> 't pooled \<Rightarrow> nat \<times> 't pooled" where
  "pool_Get_New pick p = (case pool_Get pick p of
     (Some z, p1) \<Rightarrow> (z, p1) | (None, p1) \<Rightarrow> allocate p1)"

definition Compress :: "nat option \<Rightarrow> 'd \<Rightarrow> ('d, 's) compressor \<Rightarrow> nat \<times> ('d, 's) compressor" where
  "Compress pick w c = (case pool_Get_New pick (poolCompressor c) of
     (z, p) \<Rightarrow> (z, c\<lparr>poolCompressor := reset_to z w p\<rparr>))"

definition Decompress :: "nat option \<Rightarrow> 's \<Rightarrow> ('d, 's) compressor \<Rightarrow> nat \<times> ('d, 's) compressor" where
  "Decompress pick r c = (case pool_Get pick (poolDecompressor c) of
     (None, p) \<Rightarrow> (case allocate p of (z, p1) \<Rightarrow> (z, c\<lparr>poolDecompressor := reset_to z r p1\<rparr>))
   | (Some z, p) \<Rightarrow> (z, c\<lparr>poolDecompressor := reset_to z r p\<rparr>))"

definition writer_Close :: "nat \<Rightarrow> ('d, 's) compressor \<Rightarrow> ('d, 's) compressor" where
  "writer_Close z c = c\<lparr>poolCompressor := pool_Put z (poolCompressor c)\<rparr>"

text \<open>\<open>eof\<close> says whether the library's \<open>Read\<close> returned \<open>io.EOF\<close>.\<close>

definition reader_Read :: "nat \<Rightarrow> bool \<Rightarrow> ('d, 's) compressor \<Rightarrow> ('d, 's) compressor" where
  "reader_Read z eof c =
     (if eof then c\<lparr>poolDecompressor := pool_Put z (poolDecompressor c)\<rparr> else c)"

definition empty_pool :: "'t pooled" where
  "empty_pool = \<lparr>po_items = [], po_target = Map.empty, po_next = 0\<rparr>"

definition compressor_init :: "('d, 's) compressor" where
  "compressor_init = \<lparr>poolCompressor = empty_pool, poolDecompressor = empty_pool\<rparr>"

section \<open>Use by gRPC\<close>

text \<open>
  \<open>W\<close> and \<open>R\<close> are the writers and readers in use, with the streams they were opened for. gRPC
  closes a writer once and does not read past the end of a message.
\<close>

inductive snappy_reachable ::
  "('d, 's) compressor \<Rightarrow> (nat \<rightharpoonup> 'd) \<Rightarrow> (nat \<rightharpoonup> 's) \<Rightarrow> bool" where
  init: "snappy_reachable compressor_init Map.empty Map.empty"
| compress: "snappy_reachable c W R \<Longrightarrow> Compress pick d c = (z, c1) \<Longrightarrow>
    snappy_reachable c1 (W(z \<mapsto> d)) R"
| close: "snappy_reachable c W R \<Longrightarrow> W z = Some d \<Longrightarrow>
    snappy_reachable (writer_Close z c) (W(z := None)) R"
| decompress: "snappy_reachable c W R \<Longrightarrow> Decompress pick s c = (z, c1) \<Longrightarrow>
    snappy_reachable c1 W (R(z \<mapsto> s))"
| read: "snappy_reachable c W R \<Longrightarrow> R z = Some s \<Longrightarrow>
    snappy_reachable (reader_Read z eof c) W (if eof then R(z := None) else R)"

section \<open>The invariant of one pool\<close>

definition pool_inv :: "'t pooled \<Rightarrow> (nat \<rightharpoonup> 't) \<Rightarrow> bool" where
  "pool_inv p inuse \<longleftrightarrow> distinct (po_items p) \<and> set (po_items p) \<inter> dom inuse = {} \<and>
     (\<forall>z \<in> set (po_items p) \<union> dom inuse. z < po_next p) \<and> inuse \<subseteq>\<^sub>m po_target p"

lemma pool_inv_empty: "pool_inv empty_pool Map.empty"
  by (simp add: pool_inv_def empty_pool_def)

lemma pool_inv_Put: "pool_inv p u \<Longrightarrow> u z = Some d \<Longrightarrow> pool_inv (pool_Put z p) (u(z := None))"
  by (auto simp: pool_inv_def pool_Put_def intro: map_le_trans [OF upd_None_map_le])

lemma pool_Get_split:
  assumes "pool_Get pick p = (Some z, p1)"
  obtains xs ys where "po_items p = xs @ z # ys" "p1 = p\<lparr>po_items := xs @ ys\<rparr>"
proof -
  from assms obtain i where "i < length (po_items p)" "z = po_items p ! i"
    "p1 = p\<lparr>po_items := take i (po_items p) @ drop (Suc i) (po_items p)\<rparr>"
    by (auto simp: pool_Get_def split: option.splits if_splits)
  with that [OF _ this(3)] show thesis by (simp add: id_take_nth_drop)
qed

lemma pool_inv_Get:
  assumes "pool_inv p u" and "pool_Get pick p = (Some z, p1)"
  shows "u z = None \<and> pool_inv (reset_to z d p1) (u(z \<mapsto> d))"
proof -
  from pool_Get_split [OF assms(2)] obtain xs ys where
    split: "po_items p = xs @ z # ys" "p1 = p\<lparr>po_items := xs @ ys\<rparr>" .
  from assms(1) have "u z = None" "distinct (xs @ ys)" "z \<notin> set (xs @ ys)"
    "set (xs @ ys) \<inter> dom u = {}" "\<forall>y \<in> set (xs @ ys) \<union> dom u. y < po_next p" "z < po_next p"
    "u \<subseteq>\<^sub>m po_target p"
    by (auto simp: pool_inv_def split)
  then show ?thesis by (auto simp: pool_inv_def reset_to_def split map_le_upd)
qed

lemma pool_inv_allocate:
  assumes "pool_inv p u" and "allocate p = (z, p1)"
  shows "u z = None \<and> pool_inv (reset_to z d p1) (u(z \<mapsto> d))"
proof -
  from assms(2) have p1: "z = po_next p" "p1 = p\<lparr>po_next := Suc z\<rparr>" by (auto simp: allocate_def)
  from assms(1) have "distinct (po_items p)" "set (po_items p) \<inter> dom u = {}"
    and less: "\<forall>y \<in> set (po_items p) \<union> dom u. y < z" and "u \<subseteq>\<^sub>m po_target p"
    by (auto simp: pool_inv_def p1)
  moreover from less have "z \<notin> set (po_items p)" "u z = None" by auto
  ultimately show ?thesis by (auto simp: pool_inv_def reset_to_def p1 map_le_upd intro: less_SucI)
qed

lemma pool_Get_None: "pool_Get pick p = (None, p1) \<Longrightarrow> p1 = p"
  by (auto simp: pool_Get_def split: option.splits if_splits)

section \<open>The interface of a pool\<close>

text \<open>
  What the compressor relies on when it takes an object from a pool, whatever the pool picks: the
  object is not in use, and after a reset it counts as one that is.
\<close>

locale object_pool =
  fixes acquire :: "nat option \<Rightarrow> 't pooled \<Rightarrow> nat \<times> 't pooled"
  assumes acquire_unused: "pool_inv p u \<Longrightarrow> acquire pick p = (z, p1) \<Longrightarrow> u z = None"
    and acquire_reset: "pool_inv p u \<Longrightarrow> acquire pick p = (z, p1) \<Longrightarrow>
      pool_inv (reset_to z t p1) (u(z \<mapsto> t))"
begin

text \<open>A second object is another one, until the first has been put back.\<close>

lemma acquire_twice:
  assumes "pool_inv p u" and "acquire i p = (z, p1)" and "acquire j (reset_to z t p1) = (y, p2)"
  shows "y \<noteq> z"
  using acquire_unused [OF acquire_reset [OF assms(1,2)] assms(3)] by auto

lemma use_and_put:
  assumes "pool_inv p u" and "acquire i p = (z, p1)"
  shows "pool_inv (pool_Put z (reset_to z t p1)) u"
proof -
  from acquire_unused [OF assms] have "(u(z \<mapsto> t))(z := None) = u" by auto
  moreover have "pool_inv (pool_Put z (reset_to z t p1)) ((u(z \<mapsto> t))(z := None))"
    by (rule pool_inv_Put [OF acquire_reset [OF assms]]) simp
  ultimately show ?thesis by simp
qed

end

interpretation go_pool: object_pool pool_Get_New
proof
  fix p p1 :: "'a pooled" and u pick z t
  assume inv: "pool_inv p u" and get: "pool_Get_New pick p = (z, p1)"
  obtain x q where x: "pool_Get pick p = (x, q)" by (rule prod.exhaust)
  have "u z = None \<and> pool_inv (reset_to z t p1) (u(z \<mapsto> t))" for t
  proof (cases x)
    case None
    with x get pool_Get_None [of pick p q] show ?thesis
      by (intro pool_inv_allocate [OF inv]) (simp add: pool_Get_New_def)
  next
    case (Some y)
    with x get show ?thesis by (intro pool_inv_Get [OF inv]) (auto simp: pool_Get_New_def)
  qed
  then show "u z = None" "pool_inv (reset_to z t p1) (u(z \<mapsto> t))" by blast+
qed

section \<open>Facts about the compressor\<close>

lemma Decompress_eq:
  "Decompress pick r c = (case pool_Get_New pick (poolDecompressor c) of
     (z, p) \<Rightarrow> (z, c\<lparr>poolDecompressor := reset_to z r p\<rparr>))"
  by (auto simp: Decompress_def pool_Get_New_def split: prod.splits option.splits)

lemma Compress_inv:
  assumes "pool_inv (poolCompressor c) W" and "Compress pick d c = (z, c1)"
  shows "W z = None \<and> pool_inv (poolCompressor c1) (W(z \<mapsto> d)) \<and> poolDecompressor c1 = poolDecompressor c"
  using assms go_pool.acquire_unused [OF assms(1)] go_pool.acquire_reset [OF assms(1)]
  by (auto simp: Compress_def split: prod.splits)

lemma Decompress_inv:
  assumes "pool_inv (poolDecompressor c) R" and "Decompress pick s c = (z, c1)"
  shows "R z = None \<and> pool_inv (poolDecompressor c1) (R(z \<mapsto> s)) \<and> poolCompressor c1 = poolCompressor c"
  using assms go_pool.acquire_unused [OF assms(1)] go_pool.acquire_reset [OF assms(1)]
  by (auto simp: Decompress_eq split: prod.splits)

lemma reachable_inv:
  assumes "snappy_reachable c W R"
  shows "pool_inv (poolCompressor c) W \<and> pool_inv (poolDecompressor c) R"
  using assms
proof (induction rule: snappy_reachable.induct)
  case init
  show ?case by (simp add: compressor_init_def pool_inv_empty)
next
  case compress
  then show ?case using Compress_inv by metis
next
  case close
  then show ?case by (simp add: writer_Close_def pool_inv_Put del: fun_upd_apply)
next
  case decompress
  then show ?case using Decompress_inv by metis
next
  case read
  then show ?case by (simp add: reader_Read_def pool_inv_Put del: fun_upd_apply)
qed

section \<open>Properties\<close>



text \<open>A reader that is read once more after its end is put into the pool twice, and then two
  streams are given the same reader.\<close>

lemma read_past_end_shares_reader:
  "Decompress None ''a'' (compressor_init :: (string, string) compressor) = (z, c) \<Longrightarrow>
   fst (Decompress (Some 0) ''b'' (reader_Read z True (reader_Read z True c))) =
   fst (Decompress (Some 0) ''c'' (snd (Decompress (Some 0) ''b'' (reader_Read z True (reader_Read z True c)))))"
  by (auto simp: Decompress_def compressor_init_def empty_pool_def pool_Get_def allocate_def
      reset_to_def reader_Read_def pool_Put_def)

end
