(* ===== verification/Op_Types.thy ===== *)
theory Op_Types
  imports Client_KV
begin

text \<open>
  A type discipline for operations: what the constructors of \<open>op.go\<close> build, with whatever options
  and however the exported mutators change it, has the type of its constructor; a transaction
  has a type when its branches hold only typed gets, puts and deletes. Executing a typed
  operation never panics and gives a response of its type.
\<close>

section \<open>Typed operations\<close>

inductive has_type :: "Op \<Rightarrow> opType \<Rightarrow> bool" where
  get: "OpGet key (opts_of os) = Ret x \<Longrightarrow> has_type x tRange"
| iterate: "OpIterate key (opts_of os) = Ret x \<Longrightarrow> has_type x tIterateRange"
| put: "OpPut key val (opts_of os) = Ret x \<Longrightarrow> has_type x tPut"
| delete: "OpDelete key (opts_of os) = Ret x \<Longrightarrow> has_type x tDeleteRange"
| txn: "\<forall>y \<in> set (thenOps @ elseOps). \<exists>t \<in> {tRange, tPut, tDeleteRange}. has_type y t \<Longrightarrow>
    has_type (OpTxn cmps thenOps elseOps) tTxn"
| with_key: "has_type x t \<Longrightarrow> has_type (op_WithKeyBytes k x) t"
| with_range: "has_type x t \<Longrightarrow> has_type (op_WithRangeBytes k x) t"
| with_value: "has_type x t \<Longrightarrow> has_type (op_WithValueBytes k x) t"

lemma has_type_tag:
  assumes "has_type x t"
  shows "op_t (op_f x) = t \<and> t \<noteq> tInvalid \<and> (t = tTxn \<longrightarrow>
    list_all (\<lambda>y. op_t (op_f y) \<in> {tRange, tPut, tDeleteRange}) (op_thenOps x @ op_elseOps x))"
  using assms
proof induction
  case (txn thenOps elseOps cmps)
  then have "\<forall>y \<in> set (thenOps @ elseOps). op_t (op_f y) \<in> {tRange, tPut, tDeleteRange}" by blast
  then show ?case by (auto simp: OpTxn_def zero_fields_def list_all_iff)
qed (auto simp: OpGet_eq OpIterate_eq OpPut_eq OpDelete_eq put_fields_def zero_fields_def frame_simps
    op_accessors split: if_splits)

text \<open>The type of an operation is unique.\<close>

lemma has_type_unique: "has_type x t \<Longrightarrow> has_type x u \<Longrightarrow> t = u"
  by (auto dest: has_type_tag)

lemma typed_txn_request: "has_type x tTxn \<Longrightarrow> \<exists>r. toTxnRequest x table = Ret r"
  by (auto simp: toTxnRequest_total_iff dest: has_type_tag)

lemma typed_range_request: "has_type x t \<Longrightarrow> t \<in> {tRange, tIterateRange} \<Longrightarrow> \<exists>r. toRangeRequest x table = Ret r"
  by (auto simp: toRangeRequest_def Let_def dest!: has_type_tag)

section \<open>Executing a typed operation\<close>

text \<open>A remote side whose calls return, with a message or with an error.\<close>

definition calls_return :: "'w KVClient \<Rightarrow> bool" where
  "calls_return client \<longleftrightarrow>
     (\<forall>c r opts w. \<exists>x w1. c_Range client c r opts w = (Ret x, w1)) \<and>
     (\<forall>c r opts w. \<exists>x w1. c_IterateRange client c r opts w = (Ret x, w1)) \<and>
     (\<forall>c r opts w. \<exists>x w1. c_Put client c r opts w = (Ret x, w1)) \<and>
     (\<forall>c r opts w. \<exists>x w1. c_DeleteRange client c r opts w = (Ret x, w1)) \<and>
     (\<forall>c r opts w. \<exists>x w1. c_Txn client c r opts w = (Ret x, w1))"

lemma do_call_returns:
  assumes "\<exists>x w1. res = (Ret x, w1)" and "\<And>y. \<exists>r. conv y = Ret r"
  shows "\<exists>r e w1. do_call k c res conv = (Ret (r, e), w1)"
proof -
  obtain x w1 where res: "res = (Ret x, w1)" using assms(1) by blast
  show ?thesis
  proof (cases x)
    case (Inr y)
    obtain r where "conv y = Ret r" using assms(2) by blast
    with res Inr show ?thesis by (simp add: do_call_def)
  qed (simp add: do_call_def res)
qed

text \<open>A response without error has the field of the operation's tag set, and no other.\<close>

lemma Do_shape_only:
  assumes "kv_Do k c table x w = (Ret (r, None), w1)"
  shows "resp_matches u r = (u = op_t (op_f x))"
proof -
  from assms have "op_t (op_f x) \<noteq> tInvalid" by (auto simp: kv_Do_def Let_def)
  with assms show ?thesis
    by (cases "op_t (op_f x)"; cases u)
      (auto simp: kv_Do_def Let_def no_OpResponse_def split: go.splits dest!: do_call_Ret)
qed

lemma typed_Do_returns:
  assumes "has_type x t" and "calls_return (kv_remote k)"
  shows "\<exists>r e w1. kv_Do k c table x w = (Ret (r, e), w1)"
proof -
  from has_type_tag [OF assms(1)] have t: "op_t (op_f x) = t" "t \<noteq> tInvalid" by simp_all
  show ?thesis
  proof (cases t)
    case tTxn
    obtain req where "toTxnRequest x table = Ret req" using typed_txn_request assms(1) tTxn by blast
    with t tTxn assms(2) show ?thesis
      by (simp add: kv_Do_def Let_def calls_return_def convResponseOps_eq do_call_returns)
  next
    case tRange
    obtain req where "toRangeRequest x table = Ret req" using typed_range_request assms(1) tRange by blast
    with t tRange assms(2) show ?thesis by (simp add: kv_Do_def Let_def calls_return_def do_call_returns)
  next
    case tIterateRange
    obtain req where "toRangeRequest x table = Ret req"
      using typed_range_request assms(1) tIterateRange by blast
    with t tIterateRange assms(2) show ?thesis
      by (simp add: kv_Do_def Let_def calls_return_def do_call_returns)
  qed (use t assms(2) in \<open>simp_all add: kv_Do_def Let_def calls_return_def do_call_returns\<close>)
qed

section \<open>Properties\<close>

text \<open>C11: Well-typed operations do not go wrong: executing what the constructors built, over a
  remote side whose calls return, never panics, and when it reports no error the response has
  the field of the operation's type, and no other, set.\<close>

theorem typed_op_safe:
  assumes "has_type x t" and "calls_return client"
  shows "\<exists>r e w1. newKV client callOpts S [] c table x w = (Ret (r, e), w1) \<and>
    (e = None \<longrightarrow> (\<forall>u. resp_matches u r = (u = t)))"
proof -
  let ?k = "\<lparr>kv_remote = retryKVClient client, kv_callOpts = callOpts, kv_status = S\<rparr>"
  have "calls_return (retryKVClient client)"
    using assms(2) by (simp add: calls_return_def retryKVClient_def retryKV_Range_def
        retryKV_IterateRange_def retryKV_Put_def retryKV_DeleteRange_def retryKV_Txn_def)
  then obtain r e w1 where run: "kv_Do ?k c table x w = (Ret (r, e), w1)"
    using typed_Do_returns [OF assms(1), of ?k c table w] by auto
  have "resp_matches u r = (u = t)" if "e = None" for u
    using Do_shape_only [OF run [unfolded that]] has_type_tag [OF assms(1)] by simp
  with run show ?thesis by (auto simp: newKV_def)
qed

text \<open>A transaction that gets and puts, with a key changed by a mutator after its construction.\<close>

theorem typed_op_safe_witness:
  "\<exists>g p r w1. OpGet [1] [] = Ret g \<and> OpPut [1] [2] [] = Ret p \<and>
    newKV empty_client [] doc_status [] fresh_ctx [7]
      (OpTxn [] [op_WithKeyBytes (Some [3]) g] [p]) () = (Ret (r, None), w1) \<and> resp_matches tTxn r"
proof -
  let ?g = "mkOp (zero_fields\<lparr>op_t := tRange, op_key := Some [1]\<rparr>)" and ?p = "mkOp (put_fields [1] [2] [])"
  have g: "OpGet [1] (opts_of []) = Ret ?g"
    by (simp add: OpGet_def IsOptsWithPrefix_def NewOp_def zero_fields_def Let_def)
  have p: "OpPut [1] [2] (opts_of []) = Ret ?p" unfolding OpPut_eq by simp
  let ?x = "OpTxn [] [op_WithKeyBytes (Some [3]) ?g] [?p]"
  have "has_type ?x tTxn"
    using has_type.with_key [OF has_type.get [OF g]] has_type.put [OF p] by (intro has_type.txn) auto
  moreover have "calls_return (empty_client :: unit KVClient)" by (simp add: calls_return_def empty_client_def)
  ultimately obtain r e w1 where run: "newKV empty_client [] doc_status [] fresh_ctx [7] ?x () = (Ret (r, e), w1)"
    and "e = None \<longrightarrow> resp_matches tTxn r"
    using typed_op_safe [of ?x tTxn empty_client "[]" doc_status fresh_ctx "[7]" "()"] by blast
  moreover from run have "e = None"
    by (auto simp: newKV_def kv_Do_def do_call_def retryKVClient_def retryKV_Txn_def empty_client_def
        OpTxn_def zero_fields_def toTxnRequest_def put_fields_def op_WithKeyBytes_def convResponseOps_eq)
  ultimately show ?thesis using g p by auto
qed

end
