(* ===== verification/KV_Stub.thy ===== *)
theory KV_Stub
  imports Client_Fake Retry_Spec
begin

text \<open>
  The generated client of the KV service (\<open>internal/proto/regatta_grpc.pb.go\<close>) over the interface
  \<open>grpc.ClientConnInterface\<close>. A call passes gRPC a pointer to the message the reply is written
  to, so that the messages live in a heap, one for each type of reply; the world is the pair of
  this heap and of everything outside the process.
\<close>

section \<open>Messages and the heap\<close>

record kv_heap =
  hp_range :: "nat \<Rightarrow> RangeResponse"
  hp_put :: "nat \<Rightarrow> PbPutResponse"
  hp_delete :: "nat \<Rightarrow> DeleteRangeResponse"
  hp_txn :: "nat \<Rightarrow> PbTxnResponse"
  hp_next :: nat

type_synonym 'u kv_world = "kv_heap \<times> 'u"

datatype kv_request =
  RangeReq RangeRequest | PutReq PutRequest | DeleteReq DeleteRangeRequest | TxnReq TxnRequest

datatype reply_ptr = RangePtr nat | PutPtr nat | DeletePtr nat | TxnPtr nat

text \<open>\<open>new(RangeResponse)\<close> and the other three: a fresh pointer to an empty message.\<close>

definition new_RangeResponse :: "'u kv_world \<Rightarrow> nat \<times> 'u kv_world" where
  "new_RangeResponse w = (case w of (h, u) \<Rightarrow> (hp_next h,
     h\<lparr>hp_range := (hp_range h)(hp_next h := empty_RangeResponse), hp_next := Suc (hp_next h)\<rparr>, u))"

definition new_PutResponse :: "'u kv_world \<Rightarrow> nat \<times> 'u kv_world" where
  "new_PutResponse w = (case w of (h, u) \<Rightarrow> (hp_next h,
     h\<lparr>hp_put := (hp_put h)(hp_next h := empty_PutResponse), hp_next := Suc (hp_next h)\<rparr>, u))"

definition new_DeleteRangeResponse :: "'u kv_world \<Rightarrow> nat \<times> 'u kv_world" where
  "new_DeleteRangeResponse w = (case w of (h, u) \<Rightarrow> (hp_next h,
     h\<lparr>hp_delete := (hp_delete h)(hp_next h := empty_DeleteRangeResponse),
       hp_next := Suc (hp_next h)\<rparr>, u))"

definition new_TxnResponse :: "'u kv_world \<Rightarrow> nat \<times> 'u kv_world" where
  "new_TxnResponse w = (case w of (h, u) \<Rightarrow> (hp_next h,
     h\<lparr>hp_txn := (hp_txn h)(hp_next h := empty_TxnResponse), hp_next := Suc (hp_next h)\<rparr>, u))"

section \<open>The interfaces of gRPC the generated client uses\<close>

record 'w ClientStream =
  cs_SendMsg :: "kv_request \<Rightarrow> 'w \<Rightarrow> err option \<times> 'w"
  cs_RecvMsg :: "reply_ptr \<Rightarrow> 'w \<Rightarrow> err option go \<times> 'w"
  cs_CloseSend :: "'w \<Rightarrow> err option \<times> 'w"

text \<open>\<open>NewStream\<close> is given the field \<open>ClientStreams\<close> of the stream's description.\<close>

record 'w ClientConnInterface =
  cc_Invoke :: "'w ctx \<Rightarrow> string \<Rightarrow> kv_request \<Rightarrow> reply_ptr \<Rightarrow> 'w CallOption list \<Rightarrow> 'w \<Rightarrow>
    err option go \<times> 'w"
  cc_NewStream :: "'w ctx \<Rightarrow> bool \<Rightarrow> string \<Rightarrow> 'w CallOption list \<Rightarrow> 'w \<Rightarrow>
    (err + 'w ClientStream) \<times> 'w"

section \<open>The generated client\<close>

definition KV_Range_FullMethodName :: string where
  "KV_Range_FullMethodName = ''/regatta.v1.KV/Range''"
definition KV_IterateRange_FullMethodName :: string where
  "KV_IterateRange_FullMethodName = ''/regatta.v1.KV/IterateRange''"
definition KV_Put_FullMethodName :: string where
  "KV_Put_FullMethodName = ''/regatta.v1.KV/Put''"
definition KV_DeleteRange_FullMethodName :: string where
  "KV_DeleteRange_FullMethodName = ''/regatta.v1.KV/DeleteRange''"
definition KV_Txn_FullMethodName :: string where
  "KV_Txn_FullMethodName = ''/regatta.v1.KV/Txn''"

definition kVClient_Range ::
  "'u kv_world ClientConnInterface \<Rightarrow> ('u kv_world, RangeRequest, RangeResponse) rpc" where
  "kVClient_Range cc c req opts w = (case new_RangeResponse w of (out, w1) \<Rightarrow>
     (case cc_Invoke cc c KV_Range_FullMethodName (RangeReq req) (RangePtr out) opts w1 of
        (Panic m, w2) \<Rightarrow> (Panic m, w2)
      | (Ret (Some e), w2) \<Rightarrow> (Ret (Inl e), w2)
      | (Ret None, w2) \<Rightarrow> (Ret (Inr (hp_range (fst w2) out)), w2)))"

definition kVIterateRangeClient_Recv :: "'u kv_world ClientStream \<Rightarrow> 'u kv_world Recv" where
  "kVIterateRangeClient_Recv x w = (case new_RangeResponse w of (m, w1) \<Rightarrow>
     (case cs_RecvMsg x (RangePtr m) w1 of
        (Panic p, w2) \<Rightarrow> (Panic p, w2)
      | (Ret (Some e), w2) \<Rightarrow> (Ret (Inl e), w2)
      | (Ret None, w2) \<Rightarrow> (Ret (Inr (hp_range (fst w2) m)), w2)))"

definition kVClient_IterateRange ::
  "'u kv_world ClientConnInterface \<Rightarrow> ('u kv_world, RangeRequest, 'u kv_world Recv) rpc" where
  "kVClient_IterateRange cc c req opts w =
     (case cc_NewStream cc c False KV_IterateRange_FullMethodName opts w of
        (Inl e, w1) \<Rightarrow> (Ret (Inl e), w1)
      | (Inr x, w1) \<Rightarrow>
          (case cs_SendMsg x (RangeReq req) w1 of
             (Some e, w2) \<Rightarrow> (Ret (Inl e), w2)
           | (None, w2) \<Rightarrow>
               (case cs_CloseSend x w2 of
                  (Some e, w3) \<Rightarrow> (Ret (Inl e), w3)
                | (None, w3) \<Rightarrow> (Ret (Inr (kVIterateRangeClient_Recv x)), w3))))"

definition kVClient_Put ::
  "'u kv_world ClientConnInterface \<Rightarrow> ('u kv_world, PutRequest, PbPutResponse) rpc" where
  "kVClient_Put cc c req opts w = (case new_PutResponse w of (out, w1) \<Rightarrow>
     (case cc_Invoke cc c KV_Put_FullMethodName (PutReq req) (PutPtr out) opts w1 of
        (Panic m, w2) \<Rightarrow> (Panic m, w2)
      | (Ret (Some e), w2) \<Rightarrow> (Ret (Inl e), w2)
      | (Ret None, w2) \<Rightarrow> (Ret (Inr (hp_put (fst w2) out)), w2)))"

definition kVClient_DeleteRange ::
  "'u kv_world ClientConnInterface \<Rightarrow> ('u kv_world, DeleteRangeRequest, DeleteRangeResponse) rpc" where
  "kVClient_DeleteRange cc c req opts w = (case new_DeleteRangeResponse w of (out, w1) \<Rightarrow>
     (case cc_Invoke cc c KV_DeleteRange_FullMethodName (DeleteReq req) (DeletePtr out) opts w1 of
        (Panic m, w2) \<Rightarrow> (Panic m, w2)
      | (Ret (Some e), w2) \<Rightarrow> (Ret (Inl e), w2)
      | (Ret None, w2) \<Rightarrow> (Ret (Inr (hp_delete (fst w2) out)), w2)))"

definition kVClient_Txn ::
  "'u kv_world ClientConnInterface \<Rightarrow> ('u kv_world, TxnRequest, PbTxnResponse) rpc" where
  "kVClient_Txn cc c req opts w = (case new_TxnResponse w of (out, w1) \<Rightarrow>
     (case cc_Invoke cc c KV_Txn_FullMethodName (TxnReq req) (TxnPtr out) opts w1 of
        (Panic m, w2) \<Rightarrow> (Panic m, w2)
      | (Ret (Some e), w2) \<Rightarrow> (Ret (Inl e), w2)
      | (Ret None, w2) \<Rightarrow> (Ret (Inr (hp_txn (fst w2) out)), w2)))"

definition NewKVClient :: "'u kv_world ClientConnInterface \<Rightarrow> 'u kv_world KVClient" where
  "NewKVClient cc = \<lparr>c_Range = kVClient_Range cc, c_IterateRange = kVClient_IterateRange cc,
     c_Put = kVClient_Put cc, c_DeleteRange = kVClient_DeleteRange cc, c_Txn = kVClient_Txn cc\<rparr>"

end
