(* ===== verification/Call_Path.thy ===== *)
theory Call_Path
  imports KV_Stub Client_Config
begin

text \<open>
  A call from the client's interface to the server and back: the table view and \<open>Do\<close>, the
  generated stub, the retrying interceptor installed when the client was constructed, and the
  transport, whose documented behaviour is the hypothesis: one attempt of a call asks the server
  once and writes a reply it gets to where the caller wants it.
\<close>

section \<open>The transport\<close>

datatype kv_reply =
  RangeRep RangeResponse | PutRep PbPutResponse | DeleteRep DeleteRangeResponse | TxnRep PbTxnResponse

type_synonym 'u server = "string \<Rightarrow> kv_request \<Rightarrow> 'u \<Rightarrow> (err + kv_reply) \<times> 'u"

fun store_reply :: "reply_ptr \<Rightarrow> kv_reply \<Rightarrow> kv_heap \<Rightarrow> kv_heap" where
  "store_reply (RangePtr p) (RangeRep r) h = h\<lparr>hp_range := (hp_range h)(p := r)\<rparr>"
| "store_reply (PutPtr p) (PutRep r) h = h\<lparr>hp_put := (hp_put h)(p := r)\<rparr>"
| "store_reply (DeletePtr p) (DeleteRep r) h = h\<lparr>hp_delete := (hp_delete h)(p := r)\<rparr>"
| "store_reply (TxnPtr p) (TxnRep r) h = h\<lparr>hp_txn := (hp_txn h)(p := r)\<rparr>"
| "store_reply _ _ h = h"

text \<open>A \<open>wire\<close> makes one attempt of a call.\<close>

type_synonym 'w wire = "string \<Rightarrow> kv_request \<Rightarrow> reply_ptr \<Rightarrow> 'w invoker"

definition wire_of :: "'u server \<Rightarrow> 'u kv_world wire" where
  "wire_of srv meth req p c gs w = (case w of (h, u) \<Rightarrow>
     (case srv meth req u of
        (Inl e, u1) \<Rightarrow> (Some e, (h, u1))
      | (Inr r, u1) \<Rightarrow> (None, (store_reply p r h, u1))))"

text \<open>
  The connection calls the interceptor it was dialled with (\<open>grpc.WithUnaryInterceptor\<close>), which
  does what it wants with one attempt.
\<close>

definition intercepts ::
  "status_pkg \<Rightarrow> 'w jitterFunc \<Rightarrow> 'w select_wait \<Rightarrow> 'w retryOption list \<Rightarrow> 'w wire \<Rightarrow>
     'w ClientConnInterface \<Rightarrow> bool" where
  "intercepts S jitter select fs wire cc \<longleftrightarrow>
     (\<forall>c meth req p opts. cc_Invoke cc c meth req p opts =
        unaryClientInterceptor S jitter select fs c (wire meth req p) opts)"

text \<open>The replies of the server have the type of the method; \<open>outs\<close> records them.\<close>

definition server_ok :: "'u server \<Rightarrow> ('u \<Rightarrow> (err + kv_reply) list) \<Rightarrow> bool" where
  "server_ok srv outs \<longleftrightarrow>
     (\<forall>meth req u. outs (snd (srv meth req u)) = outs u @ [fst (srv meth req u)]) \<and>
     (\<forall>req u r. fst (srv KV_Range_FullMethodName req u) = Inr r \<longrightarrow> (\<exists>m. r = RangeRep m)) \<and>
     (\<forall>req u r. fst (srv KV_Put_FullMethodName req u) = Inr r \<longrightarrow> (\<exists>m. r = PutRep m)) \<and>
     (\<forall>req u r. fst (srv KV_DeleteRange_FullMethodName req u) = Inr r \<longrightarrow> (\<exists>m. r = DeleteRep m)) \<and>
     (\<forall>req u r. fst (srv KV_Txn_FullMethodName req u) = Inr r \<longrightarrow> (\<exists>m. r = TxnRep m))"

definition outcome_error :: "err + 'a \<Rightarrow> err option" where
  "outcome_error x = (case x of Inl e \<Rightarrow> Some e | Inr r \<Rightarrow> None)"

lemma outcome_error_simps [simp]:
  "outcome_error (Inl e) = Some e" "outcome_error (Inr r) = None"
  "outcome_error x = None \<longleftrightarrow> (\<exists>r. x = Inr r)" "outcome_error x = Some e \<longleftrightarrow> x = Inl e"
  by (cases x; simp add: outcome_error_def)+

section \<open>Facts about the interceptor\<close>

text \<open>A success is the success of an attempt, in the world as it was after this attempt.\<close>

lemma unary_loop_success:
  assumes "unary_loop S select c co invoke a l w = (Ret None, w1)" and "a < opt_max co \<or> l \<noteq> None"
  shows "\<exists>w'. invoke w' = (None, w1)"
  using assms
proof (induction S select c co invoke a l w rule: unary_loop.induct)
  case (1 S select c co invoke a l w)
  show ?case
  proof (cases "a < opt_max co")
    case False
    with "1.prems" show ?thesis by (simp add: unary_loop.simps)
  next
    case True
    obtain g w2 where wait: "waitRetryBackoff S select c a co w = (g, w2)" by (rule prod.exhaust)
    obtain x w3 where invoke: "invoke w2 = (x, w3)" by (rule prod.exhaust)
    have IH: "\<exists>w'. invoke w' = (None, w1)"
      if "g = Ret None" "x = Some e" "unary_loop S select c co invoke (a + 1) (Some e) w3 = (Ret None, w1)"
        "isContextError S e \<and> ctx_Err c w3 = None \<or> \<not> isContextError S e \<and> isSafeRetry S e co" for e
      using "1.IH" [OF True wait [symmetric] that(1) _ invoke [symmetric] that(2)] that by auto
    from "1.prems"(1) True wait invoke IH show ?thesis
      by (auto simp: unary_loop.simps [of S select c co invoke a] split: go.splits option.splits if_splits)
  qed
qed

lemma interceptor_success:
  assumes "unaryClientInterceptor S jitter select fs c invoker opts w = (Ret None, w1)"
  shows "\<exists>w'. invoker (withVersion c) (fst (filterCallOptions opts)) w' = (None, w1)"
proof (cases "opt_max (effective_options jitter fs opts) = 0")
  case True
  with assms show ?thesis
    by (auto simp: unaryClientInterceptor_eq Let_def split: prod.splits)
next
  case False
  then have "0 < opt_max (effective_options jitter fs opts)" by (simp add: word_gt_0)
  with assms False show ?thesis
    by (auto simp: unaryClientInterceptor_eq Let_def intro: unary_loop_success)
qed

text \<open>A run that ends in an error has seen no success.\<close>

lemma retry_spec_error:
  assumes "retry_spec may must stopped n l xs r"
  shows "r \<noteq> None \<Longrightarrow> None \<notin> set xs"
  using assms by (induction rule: retry_spec.induct) auto

lemma retry_spec_success:
  assumes "retry_spec may must stopped n l xs r"
  shows "r = None \<Longrightarrow> n \<noteq> 0 \<or> l \<noteq> None \<Longrightarrow> xs \<noteq> [] \<and> List.last xs = None"
  using assms by (induction rule: retry_spec.induct) auto

section \<open>Facts about the path\<close>

lemma wire_of_logs:
  assumes "server_ok srv outs"
  shows "logs outcome_error (\<lambda>w. outs (snd w)) (wire_of srv meth req p c gs)"
  unfolding logs_def
proof (intro allI impI)
  fix w x w1
  assume call: "wire_of srv meth req p c gs w = (x, w1)"
  obtain h u where w: "w = (h, u)" by (rule prod.exhaust)
  obtain o' u1 where srv: "srv meth req u = (o', u1)" by (rule prod.exhaust)
  from assms srv have "outs u1 = outs u @ [o']" unfolding server_ok_def by (metis fst_conv snd_conv)
  with call w srv show "\<exists>y. outs (snd w1) = outs (snd w) @ [y] \<and> outcome_error y = x"
    by (cases o') (auto simp: wire_of_def)
qed

text \<open>
  What \<open>Invoke\<close> does over the wire: the attempts and the result form a run of the specification
  of a retried call, and a success has the server's last answer in the place for the reply.
\<close>

lemma invoke_outcome:
  fixes jitter :: "'u kv_world jitterFunc" and fs opts
  defines "co \<equiv> effective_options jitter fs opts"
  assumes "intercepts S jitter select fs (wire_of srv) cc" and "server_ok srv outs"
    and "wait_keeps (\<lambda>w. outs (snd w)) select co"
    and "cc_Invoke cc c meth req p opts w = (Ret x, w1)"
  shows "\<exists>xs. outs (snd w1) = outs (snd w) @ xs \<and>
    retry_spec (may_retry S co) (\<lambda>e. isSafeRetry S e co) (stops_wait S) (max 1 (unat (opt_max co))) None
      (map outcome_error xs) x \<and>
    (x = None \<longrightarrow> (\<exists>r h' u'. xs \<noteq> [] \<and> List.last xs = Inr r \<and> srv meth req u' = (Inr r, snd w1) \<and>
      fst w1 = store_reply p r h'))"
proof -
  from assms(2,5) have run: "unaryClientInterceptor S jitter select fs c (wire_of srv meth req p) opts w =
      (Ret x, w1)" by (simp add: intercepts_def)
  obtain xs where xs: "outs (snd w1) = outs (snd w) @ xs"
      "retry_spec (may_retry S co) (\<lambda>e. isSafeRetry S e co) (stops_wait S) (max 1 (unat (opt_max co))) None
        (map outcome_error xs) x"
    using interceptor_refines [OF _ wire_of_logs [OF assms(3)] run] assms(4) by (auto simp: co_def)
  have "\<exists>r h' u'. xs \<noteq> [] \<and> List.last xs = Inr r \<and> srv meth req u' = (Inr r, snd w1) \<and>
      fst w1 = store_reply p r h'" if "x = None"
  proof -
    from interceptor_success [OF run [unfolded that]] obtain h' u' where
      last: "wire_of srv meth req p (withVersion c) (fst (filterCallOptions opts)) (h', u') = (None, w1)"
      by auto
    then obtain r u1 where srv: "srv meth req u' = (Inr r, u1)" and w1: "w1 = (store_reply p r h', u1)"
      by (auto simp: wire_of_def split: prod.splits sum.splits)
    from assms(3) srv have "outs u1 = outs u' @ [Inr r]" unfolding server_ok_def by (metis fst_conv snd_conv)
    moreover from retry_spec_success [OF xs(2)] that have "xs \<noteq> []" by simp
    ultimately have "List.last xs = Inr r" using xs(1) w1 by (metis last_appendR last_snoc snd_conv)
    with \<open>xs \<noteq> []\<close> srv w1 show ?thesis by auto
  qed
  with xs show ?thesis by blast
qed

section \<open>The connection of a constructed client\<close>

definition client_backoff where
  "client_backoff G = roundRobinQuorumBackoff (ge_jitter G) (ge_endpoints_now G)
     defaultBackoffWaitBetween defaultBackoffJitterFraction"

lemma client_dial_conn:
  assumes "client_dial G cl creds dopts w = (Ret (Inr conn), w1)"
  shows "\<exists>target pre b w2. ge_NewClient G target (pre
    @ [DStreamInterceptor (dial_stream_options (client_backoff G)),
       DUnaryInterceptor (dial_unary_options (client_backoff G))]
    @ (if b then [DPerRPCCredentials] else []) @ map DUser (cf_DialOptions (cl_cfg cl))) w = (Inr conn, w2)"
proof -
  from assms obtain target w2 where "ge_NewClient G target (dialSetupOpts G cl creds dopts
      @ (if cl_authTokenBundle cl then [DPerRPCCredentials] else [])
      @ map DUser (cf_DialOptions (cl_cfg cl))) w = (Inr conn, w2)"
    by (auto simp: client_dial_def Let_def split: list.splits prod.splits sum.splits if_splits)
  moreover obtain pre where "dialSetupOpts G cl creds dopts = pre
      @ [DStreamInterceptor (dial_stream_options (client_backoff G)),
         DUnaryInterceptor (dial_unary_options (client_backoff G))]"
    by (simp add: dialSetupOpts_def Let_def client_backoff_def)
  ultimately show ?thesis by (metis append_assoc)
qed

text \<open>
  \<open>grpc.NewClient\<close> with the option \<open>WithUnaryInterceptor\<close> and no later one that could replace it
  makes a connection that calls the interceptor; the generated client is that of the connection.
\<close>

definition dials_intercepted where
  "dials_intercepted G select wire \<longleftrightarrow>
     (\<forall>target pre fs post w conn w1. set post \<subseteq> {DPerRPCCredentials} \<longrightarrow>
        ge_NewClient G target (pre @ DUnaryInterceptor fs # post) w = (Inr conn, w1) \<longrightarrow>
        (\<exists>cc. ge_NewKVClient G conn = NewKVClient cc \<and>
           intercepts (ge_status G) (ge_jitter G) select fs wire cc))"

lemma newClient_conn:
  fixes cl :: "('cert, 'x509, 'm, 'sc, 'conn, 'w) Client"
  assumes "newClient G AsMap arrange cfg w = (Ret (Inr cl), w1)"
  shows "\<exists>conn pre b target w2 w3. cl_conn cl = Some conn \<and> ge_NewClient G target (pre
    @ [DStreamInterceptor (dial_stream_options (client_backoff G)),
       DUnaryInterceptor (dial_unary_options (client_backoff G))]
    @ (if b then [DPerRPCCredentials] else []) @ map DUser (cf_DialOptions cfg)) w2 = (Inr conn, w3)"
proof -
  from assms obtain opts hooks where ne: "cf_Endpoints cfg \<noteq> []" and opts: "client_callOpts cfg = Inr opts"
    and hooks: "processHooks (cf_Hooks cfg) = Inr hooks"
    by (auto simp: newClient_def Let_def split: if_splits sum.splits)
  let ?cl0 = "\<lparr>cl_cfg = cfg, cl_creds = (if cf_TLS cfg \<noteq> None then Some (TransportCredentials (NewBundle (cf_TLS cfg))) else None),
    cl_conn = None :: 'conn option, cl_resolver = resolver_New (ge_manual G) (cf_Endpoints cfg),
    cl_endpoints = [], cl_authTokenBundle = False, cl_callOpts = opts,
    cl_ctx = (case cf_Context cfg of Some c \<Rightarrow> c | None \<Rightarrow> ge_background G),
    cl_lg = (case cf_Logger cfg of Some l \<Rightarrow> l | None \<Rightarrow> defaultLogger)\<rparr>"
  obtain g cl1 w2 where set: "client_SetEndpoints G (cf_Endpoints cfg) ?cl0
      (callHooks hm_OnNewClient hooks (\<lambda>h. h) w) = (g, cl1, w2)" by (metis prod_cases3)
  obtain d w3 where dial: "dialWithBalancer G cl1 w2 = (d, w3)" by fastforce
  from SetEndpoints_cfg [OF set] have cl1: "cl_cfg cl1 = cfg" by simp
  from assms ne opts hooks set dial obtain conn where conn: "cl_conn cl = Some conn" "d = Ret (Inr conn)"
    by (auto simp: newClient_def Let_def split: if_splits sum.splits go.splits option.splits prod.splits)
  with dial obtain creds where
    "client_dial G cl1 creds [DStatsHandler, DResolver (cl_resolver cl1)] w2 = (Ret (Inr conn), w3)"
    by (auto simp: dialWithBalancer_def split: list.splits go.splits)
  from client_dial_conn [OF this, unfolded cl1] conn(1) cl1 show ?thesis by blast
qed

lemma newClient_intercepted:
  assumes "newClient G AsMap arrange cfg w = (Ret (Inr cl), w1)" and "dials_intercepted G select wire"
    and "cf_DialOptions cfg = []"
  shows "\<exists>conn cc. cl_conn cl = Some conn \<and> ge_NewKVClient G conn = NewKVClient cc \<and>
    intercepts (ge_status G) (ge_jitter G) select (dial_unary_options (client_backoff G)) wire cc"
proof -
  let ?backoff = "client_backoff G"
  obtain conn pre b target w2 w3 where conn: "cl_conn cl = Some conn" and dial: "ge_NewClient G target
      ((pre @ [DStreamInterceptor (dial_stream_options ?backoff)]) @
        DUnaryInterceptor (dial_unary_options ?backoff) # (if b then [DPerRPCCredentials] else [])) w2 =
      (Inr conn, w3)"
    using newClient_conn [OF assms(1)] by (simp only: assms(3) list.map append_Nil2 append.simps append_assoc) blast
  have "set (if b then [DPerRPCCredentials] else []) \<subseteq> {DPerRPCCredentials}" by auto
  with assms(2) dial conn show ?thesis unfolding dials_intercepted_def by metis
qed

section \<open>Reads\<close>

text \<open>
  A run of \<open>n\<close> attempts that fail in a retryable way and of one that is final, along the worlds
  \<open>ws\<close> they leave behind.
\<close>

lemma unary_loop_run:
  assumes "quiet select c co"
  shows "unat a + n < unat (opt_max co) \<Longrightarrow> \<forall>i\<le>n. invoke (ws i) = (out i, ws (Suc i)) \<Longrightarrow>
     \<forall>i<n. retryable S co (out i) \<Longrightarrow> \<not> retryable S co (out n) \<Longrightarrow>
     unary_loop S select c co invoke a l (ws 0) = (Ret (out n), ws (Suc n))"
proof (induction n arbitrary: a l ws out)
  case 0
  then have "a < opt_max co" by (simp add: word_less_nat_alt)
  with 0 show ?case by (simp add: quiet_step [OF assms])
next
  case (Suc n)
  then have less: "a < opt_max co" by (simp add: word_less_nat_alt)
  from Suc.prems(2,3) have now: "invoke (ws 0) = (out 0, ws 1)" "retryable S co (out 0)" by auto
  from Suc.prems(2,3) have "\<forall>i\<le>n. invoke (ws (Suc i)) = (out (Suc i), ws (Suc (Suc i)))"
    and "\<forall>i<n. retryable S co (out (Suc i))" by auto
  with Suc.IH [of "a + 1" "\<lambda>i. ws (Suc i)" "\<lambda>i. out (Suc i)" "out 0"] Suc.prems less
  have "unary_loop S select c co invoke (a + 1) (out 0) (ws 1) = (Ret (out (Suc n)), ws (Suc (Suc n)))"
    by (simp add: unat_Suc_less)
  with now show ?case by (simp add: quiet_step [OF assms less])
qed

text \<open>A call over a server that fails \<open>n\<close> times in a retryable way and then answers.\<close>

lemma invoke_recovers:
  fixes jitter :: "'u kv_world jitterFunc" and fs opts
  defines "co \<equiv> effective_options jitter fs opts"
  assumes "intercepts S jitter select fs (wire_of srv) cc" and "quiet select (withVersion c) co"
    and "n < unat (opt_max co)"
    and "\<forall>i<n. srv meth req (us i) = (Inl (f i), us (Suc i)) \<and> may_retry S co (f i)"
    and "srv meth req (us n) = (Inr r, us (Suc n))"
  shows "cc_Invoke cc c meth req p opts (h, us 0) = (Ret None, (store_reply p r h, us (Suc n)))"
proof -
  let ?ws = "\<lambda>i. if i \<le> n then (h, us i) else (store_reply p r h, us (Suc n))"
  let ?out = "\<lambda>i. if i < n then Some (f i) else None"
  let ?invoke = "wire_of srv meth req p (withVersion c) (fst (filterCallOptions opts))"
  have "\<forall>i\<le>n. ?invoke (?ws i) = (?out i, ?ws (Suc i))"
    using assms(5,6) by (auto simp: wire_of_def le_less)
  moreover have "\<forall>i<n. retryable S co (?out i)" "\<not> retryable S co (?out n)"
    using assms(5) by (auto simp: retryable_def)
  ultimately have "unary_loop S select (withVersion c) co ?invoke 0 None (?ws 0) = (Ret (?out n), ?ws (Suc n))"
    using unary_loop_run [OF assms(3), of 0 n ?invoke ?ws ?out] assms(4) by simp
  moreover have "opt_max co \<noteq> 0" using assms(4) by auto
  ultimately show ?thesis using assms(2)
    by (simp add: intercepts_def unaryClientInterceptor_eq co_def Let_def)
qed

text \<open>Waiting changes nothing, and no wait is cut short.\<close>

definition undisturbed where
  "undisturbed G select \<longleftrightarrow> (\<forall>d f w. snd (ge_jitter G d f w) = w) \<and> (\<forall>c d w. select c d w = (False, w))"

lemma undisturbed_quiet:
  assumes "undisturbed G select" and "opt_backoffFunc co = client_backoff G" and "\<forall>w. ctx_Err c w = None"
  shows "quiet select (withVersion c) co"
proof -
  have "snd (ge_jitter G d f w) = w" "select c d w = (False, w)" for d f c w
    using assms(1) unfolding undisturbed_def by blast+
  with assms(2,3) show ?thesis
    by (simp add: quiet_def client_backoff_def roundRobinQuorumBackoff_def Let_def frame_simps)
qed

text \<open>The connection of a constructed client, and the options its calls run with.\<close>

lemma constructed_client:
  assumes "newClient G AsMap arrange cfg w0 = (Ret (Inr cl), w1)" and "cf_DialOptions cfg = []"
    and "dials_intercepted G select wire"
  shows "\<exists>conn cc gs. cl_conn cl = Some conn \<and> ge_NewKVClient G conn = NewKVClient cc \<and>
    intercepts (ge_status G) (ge_jitter G) select (dial_unary_options (client_backoff G)) wire cc \<and>
    cl_callOpts cl = map GrpcCallOption gs"
  using newClient_intercepted [OF assms(1,3,2)] newClient_result [OF assms(1)] client_callOpts_grpc
  by blast

section \<open>Properties\<close>

text \<open>The parts of the world that the server records are left alone by waiting.\<close>

definition waits_locally where
  "waits_locally outs jitter select \<longleftrightarrow>
     (\<forall>d f w. outs (snd (snd (jitter d f w))) = outs (snd w)) \<and>
     (\<forall>c d w. outs (snd (snd (select c d w))) = outs (snd w))"

lemma waits_locally_keeps:
  assumes "waits_locally outs (ge_jitter G) select" and "opt_backoffFunc co = client_backoff G"
  shows "wait_keeps (\<lambda>w. outs (snd w)) select co"
proof -
  have "outs (snd (snd (ge_jitter G d f w))) = outs (snd w)" "outs (snd (snd (select c d w))) = outs (snd w)"
    for c d f w using assms(1) unfolding waits_locally_def by blast+
  then show ?thesis
    by (simp add: wait_keeps_def assms(2) client_backoff_def roundRobinQuorumBackoff_def Let_def)
qed

text \<open>C3: A get of a constructed client, while its context is not done: when the server is
  unavailable for fewer than 10 attempts and then answers, the get returns this answer.\<close>

theorem get_end_to_end:
  assumes "newClient G AsMap arrange cfg w0 = (Ret (Inr cl), w1)"
    and "cf_DialOptions cfg = []" and "getHooks hm_OnKVCall (cf_Hooks cfg) = []"
    and "dials_intercepted G select (wire_of srv)" and "status_ok (ge_status G)"
    and "undisturbed G select" and "\<forall>w. ctx_Err c w = None"
    and "OpGet key (opts_of os) = Ret x" and "toRangeRequest x name = Ret req" and "n < 10"
    and "\<forall>i<n. srv KV_Range_FullMethodName (RangeReq req) (us i) =
      (Inl (StatusErr Unavailable (m i)), us (Suc i))"
    and "srv KV_Range_FullMethodName (RangeReq req) (us n) = (Inr (RangeRep r), us (Suc n))"
  shows "\<exists>h'. table_Get (ge_status G) (kv_Table (client_KV G cl (the (cl_conn cl))) name) c key
      (opts_of os) (h, us 0) = (Ret (Some (conv_RangeResponse r), None), (h', us (Suc n)))"
proof -
  let ?S = "ge_status G"
  let ?opts = "cl_callOpts cl @ [RetryCallOption withRepeatable]"
  let ?co = "effective_options (ge_jitter G) (dial_unary_options (client_backoff G)) ?opts"
  obtain conn cc gs where conn: "cl_conn cl = Some conn" "ge_NewKVClient G conn = NewKVClient cc"
    and icpt: "intercepts ?S (ge_jitter G) select (dial_unary_options (client_backoff G)) (wire_of srv) cc"
    and gs: "cl_callOpts cl = map GrpcCallOption gs"
    using constructed_client [OF assms(1,2,4)] by blast
  have co: "?co = \<lparr>opt_retryPolicy = repeatable, opt_max = 10, opt_backoffFunc = client_backoff G,
    opt_retryAuth = True\<rparr>" unfolding gs by (simp add: effective_options_policies)
  have quiet: "quiet select (withVersion c) ?co"
    by (rule undisturbed_quiet [OF assms(6) _ assms(7)]) (simp add: co)
  have "\<forall>i<n. srv KV_Range_FullMethodName (RangeReq req) (us i) =
      (Inl (StatusErr Unavailable (m i)), us (Suc i)) \<and> may_retry ?S ?co (StatusErr Unavailable (m i))"
    using assms(11) by (simp add: retryable_def isSafeRetry_StatusErr [OF assms(5)] co)
  from invoke_recovers [OF icpt quiet _ this assms(12)] assms(10)
  have call: "cc_Invoke cc c KV_Range_FullMethodName (RangeReq req) p ?opts (g, us 0) =
      (Ret None, (store_reply p (RangeRep r) g, us (Suc n)))" for p g by (simp add: co)
  have "\<exists>h'. c_Range (NewKVClient cc) c req ?opts (h, us 0) = (Ret (Inr r), (h', us (Suc n)))"
    by (simp add: NewKVClient_def kVClient_Range_def new_RangeResponse_def call)
  moreover have "req = \<lparr>rr_Table = Some name, rr_Key = op_key (op_f x),
      rr_RangeEnd = op_end (op_f x), rr_Limit = last_limit os 0,
      rr_Linearizable = (OSerializable \<notin> set os), rr_KeysOnly = (OKeysOnly \<in> set os),
      rr_CountOnly = (OCountOnly \<in> set os), rr_MinModRevision = 0,
      rr_MaxModRevision = 0, rr_MinCreateRevision = 0, rr_MaxCreateRevision = 0,
      rr_unknownFields = []\<rparr>"
    using assms(8,9)
    by (auto simp: OpGet_eq applyOpts_simps zero_fields_def toRangeRequest_def Let_def split: if_splits)
  moreover have "cl_cfg cl = cfg" using newClient_result [OF assms(1)] by simp
  ultimately show ?thesis using assms(3,8) conn by (auto simp: client_KV_def table_Get_eq)
qed

subsection \<open>A gRPC over a scripted server\<close>

text \<open>
  The server answers the \<open>i\<close>-th attempt with the \<open>i\<close>-th error of its script, or with an empty
  reply; what it has answered so far is its state. A connection is the list of options of the
  interceptor it was dialled with, and no context is ever done.
\<close>

definition empty_reply :: "string \<Rightarrow> kv_reply" where
  "empty_reply meth =
     (if meth = KV_Range_FullMethodName then RangeRep empty_RangeResponse
      else if meth = KV_Put_FullMethodName then PutRep empty_PutResponse
      else if meth = KV_DeleteRange_FullMethodName then DeleteRep empty_DeleteRangeResponse
      else TxnRep empty_TxnResponse)"

definition script_server :: "(nat \<Rightarrow> err option) \<Rightarrow> (err + kv_reply) list server" where
  "script_server script meth req u =
     (let x = (case script (length u) of Some e \<Rightarrow> Inl e | None \<Rightarrow> Inr (empty_reply meth))
      in (x, u @ [x]))"

lemma method_names_differ:
  "KV_Range_FullMethodName \<noteq> KV_Put_FullMethodName" "KV_DeleteRange_FullMethodName \<noteq> KV_Range_FullMethodName"
  "KV_DeleteRange_FullMethodName \<noteq> KV_Put_FullMethodName" "KV_Txn_FullMethodName \<noteq> KV_Range_FullMethodName"
  "KV_Txn_FullMethodName \<noteq> KV_Put_FullMethodName" "KV_Txn_FullMethodName \<noteq> KV_DeleteRange_FullMethodName"
  by (simp_all add: KV_Range_FullMethodName_def KV_Put_FullMethodName_def
      KV_DeleteRange_FullMethodName_def KV_Txn_FullMethodName_def)

lemma script_server_ok: "server_ok (script_server script) (\<lambda>u. u)"
  using method_names_differ
  by (auto simp: server_ok_def script_server_def Let_def empty_reply_def split: option.splits)

fun unary_interceptors :: "('cert, 'x509, 'm, 'sc, 'w) DialOption list \<Rightarrow> 'w retryOption list list" where
  "unary_interceptors [] = []"
| "unary_interceptors (DUnaryInterceptor fs # opts) = fs # unary_interceptors opts"
| "unary_interceptors (opt # opts) = unary_interceptors opts"

lemma unary_interceptors_append:
  "unary_interceptors (xs @ ys) = unary_interceptors xs @ unary_interceptors ys"
  by (induction xs rule: unary_interceptors.induct) simp_all

lemma unary_interceptors_credentials: "set xs \<subseteq> {DPerRPCCredentials} \<Longrightarrow> unary_interceptors xs = []"
  by (induction xs) auto

definition wired ::
  "(nat \<Rightarrow> err option) \<Rightarrow> (err + kv_reply) list kv_world retryOption list \<Rightarrow>
     (err + kv_reply) list kv_world ClientConnInterface" where
  "wired script fs = \<lparr>
     cc_Invoke = (\<lambda>c meth req p opts. unaryClientInterceptor doc_status (\<lambda>d f w. (d, w))
       (\<lambda>c d w. (False, w)) fs c (wire_of (script_server script) meth req p) opts),
     cc_NewStream = (\<lambda>c cs meth opts w. (Inl IoEOF, w))\<rparr>"

text \<open>What of gRPC the calls do not use; \<open>dial\<close> and \<open>stub\<close> are the rest.\<close>

definition doc_env :: "((nat, nat, unit, unit, 'w) DialOption list \<Rightarrow> 'conn) \<Rightarrow> ('conn \<Rightarrow> 'w KVClient) \<Rightarrow>
    (nat, nat, unit, unit, unit, 'conn, unit, 'w) grpc_env" where
  "doc_env dial stub = \<lparr>
     ge_NewClient = (\<lambda>target opts w. (Inr (dial opts), w)),
     ge_WaitForStateChange = (\<lambda>conn source d w. (True, w)), ge_Close = (\<lambda>conn w. (None, w)),
     ge_NewKVClient = stub,
     ge_NewClusterClient = (\<lambda>conn. \<lparr>rc_MemberList = (\<lambda>c r opts w. (Ret (Inl IoEOF), w)),
       rc_Status = (\<lambda>c r opts w. (Ret (Inl IoEOF), w))\<rparr>),
     ge_NewTablesClient = (\<lambda>conn. \<lparr>tc_Create = (\<lambda>c r opts w. (Ret (Inr r), w)),
       tc_Delete = (\<lambda>c r opts w. (Ret (Inr ()), w)), tc_List = (\<lambda>c r opts w. (Ret (Inr []), w))\<rparr>),
     ge_background = fresh_ctx, ge_cancel = (\<lambda>w. w), ge_pointer = ''0xc0'', ge_status = doc_status,
     ge_jitter = (\<lambda>d f w. (d, w)),
     ge_manual = \<lparr>mp_New = (\<lambda>s. ()), mp_CC = (\<lambda>m. None), mp_Build = (\<lambda>cc m w. (None, m, w)),
       mp_UpdateState = (\<lambda>s m w. (m, w)), mp_ParseServiceConfig = (\<lambda>cc j w. ((), w)),
       mp_Err = (\<lambda>sc. None)\<rparr>,
     ge_endpoints_now = (\<lambda>w. [''localhost:80''])\<rparr>"

definition wired_grpc :: "(nat \<Rightarrow> err option) \<Rightarrow> (nat, nat, unit, unit, unit,
    (err + kv_reply) list kv_world retryOption list, unit, (err + kv_reply) list kv_world) grpc_env" where
  "wired_grpc script = doc_env (\<lambda>opts. case rev (unary_interceptors opts) of [] \<Rightarrow> [] | fs # _ \<Rightarrow> fs)
     (\<lambda>fs. NewKVClient (wired script fs))"

lemma wired_intercepts:
  "dials_intercepted (wired_grpc script) (\<lambda>c d w. (False, w)) (wire_of (script_server script))"
  unfolding dials_intercepted_def
  by (auto simp: wired_grpc_def doc_env_def unary_interceptors_append unary_interceptors_credentials
      intercepts_def wired_def intro!: exI [of _ "wired script _"])

lemma wired_undisturbed: "undisturbed (wired_grpc script) (\<lambda>c d w. (False, w))"
  by (simp add: undisturbed_def wired_grpc_def doc_env_def)

definition wired_config :: "(nat, nat, 'w) config" where
  "wired_config = zero_config\<lparr>cf_Endpoints := [''localhost:80'']\<rparr>"

lemma wired_simps [simp]:
  "ge_status (wired_grpc script) = doc_status" "cf_DialOptions wired_config = []"
  "cf_Hooks wired_config = []" "ctx_Err fresh_ctx w = None"
  by (simp_all add: wired_grpc_def doc_env_def wired_config_def zero_config_def fresh_ctx_def)

lemma wired_client:
  "\<exists>cl w1. newClient (wired_grpc script) (\<lambda>s. s) (\<lambda>eps. eps) wired_config w = (Ret (Inr cl), w1)"
  by (rule newClient_total [where opts = defaultCallOpts and hooks = "[]"])
    (simp_all add: wired_config_def zero_config_def client_callOpts_def processHooks_def wired_grpc_def doc_env_def)

text \<open>The heap a run starts with; every pointer is to an empty message.\<close>

definition empty_heap :: kv_heap where
  "empty_heap = \<lparr>hp_range = (\<lambda>_. empty_RangeResponse), hp_put = (\<lambda>_. empty_PutResponse),
     hp_delete = (\<lambda>_. empty_DeleteRangeResponse), hp_txn = (\<lambda>_. empty_TxnResponse), hp_next = 0\<rparr>"

text \<open>The first two attempts find the server unavailable.\<close>

definition third_answers :: "nat \<Rightarrow> err option" where
  "third_answers i = (if i < 2 then Some (StatusErr Unavailable ''down'') else None)"

theorem get_end_to_end_witness:
  "\<exists>cl w1 h'. newClient (wired_grpc third_answers) (\<lambda>s. s) (\<lambda>eps. eps) wired_config (empty_heap, []) =
      (Ret (Inr cl), w1) \<and>
    table_Get doc_status (kv_Table (client_KV (wired_grpc third_answers) cl (the (cl_conn cl))) [7])
      fresh_ctx [1] (opts_of []) (empty_heap, []) =
      (Ret (Some (conv_RangeResponse empty_RangeResponse), None),
        (h', [Inl (StatusErr Unavailable ''down''), Inl (StatusErr Unavailable ''down''),
          Inr (RangeRep empty_RangeResponse)]))"
proof -
  let ?G = "wired_grpc third_answers" and ?srv = "script_server third_answers"
  let ?us = "\<lambda>i. take i [Inl (StatusErr Unavailable ''down''), Inl (StatusErr Unavailable ''down''),
    Inr (RangeRep empty_RangeResponse)]"
  obtain cl w1 where cl: "newClient ?G (\<lambda>s. s) (\<lambda>eps. eps) wired_config (empty_heap, []) = (Ret (Inr cl), w1)"
    using wired_client by blast
  let ?x = "mkOp (zero_fields\<lparr>op_t := tRange, op_key := Some [1]\<rparr>)"
  have x: "OpGet [1] (opts_of []) = Ret ?x"
    by (simp add: OpGet_def IsOptsWithPrefix_def NewOp_def zero_fields_def Let_def)
  obtain req where req: "toRangeRequest ?x [7] = Ret req"
    by (simp add: toRangeRequest_def zero_fields_def Let_def)
  have "\<forall>i<2. ?srv KV_Range_FullMethodName (RangeReq req) (?us i) =
      (Inl (StatusErr Unavailable ''down''), ?us (Suc i))"
    by (auto simp: script_server_def third_answers_def Let_def less_2_cases_iff)
  moreover have "?srv KV_Range_FullMethodName (RangeReq req) (?us 2) =
      (Inr (RangeRep empty_RangeResponse), ?us (Suc 2))"
    by (simp add: script_server_def third_answers_def Let_def empty_reply_def)
  ultimately have "\<exists>h'. table_Get (ge_status ?G) (kv_Table (client_KV ?G cl (the (cl_conn cl))) [7])
      fresh_ctx [1] (opts_of []) (empty_heap, ?us 0) =
      (Ret (Some (conv_RangeResponse empty_RangeResponse), None), (h', ?us (Suc 2)))"
    by (intro get_end_to_end [OF cl _ _ wired_intercepts _ wired_undisturbed _ x req,
        where m = "\<lambda>_. ''down''"])
      (simp_all add: doc_status_ok)
  with cl show ?thesis by auto
qed

end
