(* ===== verification/Write_Path.thy ===== *)
theory Write_Path
  imports Call_Path Client_Txn
begin

text \<open>
  The writes of a constructed client, puts and transactions, from the table view to the server
  and back: at most one attempt is answered, and what the caller is told is that answer.
\<close>

section \<open>The attempts of a write\<close>

text \<open>The answers of the server to the attempts of one write, which has succeeded or not.\<close>

definition write_run :: "status_pkg \<Rightarrow> (err + kv_reply) list \<Rightarrow> bool \<Rightarrow> bool" where
  "write_run S xs ok \<longleftrightarrow> length xs \<le> 10 \<and>
     (\<forall>x \<in> set (butlast xs). \<exists>e. x = Inl e \<and> (isContextError S e \<or> isSafeRetryMutableRPC S e)) \<and>
     (if ok then xs \<noteq> [] \<and> (\<exists>r. List.last xs = Inr r) else (\<forall>x \<in> set xs. \<exists>e. x = Inl e))"

lemma write_run_spec:
  assumes "retry_spec (may_retry S co) must stopped 10 None (map outcome_error xs) y"
    and "opt_retryPolicy co = nonRepeatable" and "y = None \<Longrightarrow> xs \<noteq> [] \<and> (\<exists>r. List.last xs = Inr r)"
  shows "write_run S xs (y = None)"
proof -
  have may: "may_retry S co e \<Longrightarrow> isContextError S e \<or> isSafeRetryMutableRPC S e" for e
    by (auto simp: assms(2) retryable_def isSafeRetry_def split: if_splits)
  have "\<exists>e. x = Inl e" if "y \<noteq> None" "x \<in> set xs" for x
    using retry_spec_error [OF assms(1) that(1)] that(2) by (cases x) (force simp: image_iff)+
  then show ?thesis
    using retry_spec_trace [OF assms(1)] may assms(3) by (auto simp: write_run_def simp flip: map_butlast)
qed

text \<open>Over this connection every call with these options is such a write.\<close>

definition writes_over where
  "writes_over S srv outs cc opts \<longleftrightarrow>
     (\<forall>c meth req p w y w2. cc_Invoke cc c meth req p opts w = (Ret y, w2) \<longrightarrow>
        (\<exists>xs. outs (snd w2) = outs (snd w) @ xs \<and> write_run S xs (y = None) \<and>
          (y = None \<longrightarrow> (\<exists>r h u. List.last xs = Inr r \<and> srv meth req u = (Inr r, snd w2) \<and>
            fst w2 = store_reply p r h))))"

lemma constructed_write:
  fixes outs :: "'u \<Rightarrow> (err + kv_reply) list"
  assumes "newClient G AsMap arrange cfg w0 = (Ret (Inr cl), w1)" and "cf_DialOptions cfg = []"
    and "dials_intercepted G select (wire_of srv)" and "server_ok srv outs"
    and "waits_locally outs (ge_jitter G) select"
  shows "\<exists>conn cc. cl_conn cl = Some conn \<and> ge_NewKVClient G conn = NewKVClient cc \<and>
    writes_over (ge_status G) srv outs cc (cl_callOpts cl)"
proof -
  let ?S = "ge_status G"
  let ?co = "effective_options (ge_jitter G) (dial_unary_options (client_backoff G)) (cl_callOpts cl)"
  obtain conn cc gs where conn: "cl_conn cl = Some conn" "ge_NewKVClient G conn = NewKVClient cc"
    and icpt: "intercepts ?S (ge_jitter G) select (dial_unary_options (client_backoff G)) (wire_of srv) cc"
    and gs: "cl_callOpts cl = map GrpcCallOption gs"
    using constructed_client [OF assms(1-3)] by blast
  have co: "?co = \<lparr>opt_retryPolicy = nonRepeatable, opt_max = 10, opt_backoffFunc = client_backoff G,
    opt_retryAuth = True\<rparr>" unfolding gs by (simp add: effective_options_policies)
  have keeps: "wait_keeps (\<lambda>w. outs (snd w)) select ?co"
    by (rule waits_locally_keeps [OF assms(5)]) (simp add: co)
  have "\<exists>xs. outs (snd w2) = outs (snd w) @ xs \<and> write_run ?S xs (y = None) \<and>
      (y = None \<longrightarrow> (\<exists>r h u. List.last xs = Inr r \<and> srv meth req u = (Inr r, snd w2) \<and>
        fst w2 = store_reply p r h))"
    if call: "cc_Invoke cc c meth req p (cl_callOpts cl) w = (Ret y, w2)" for c meth req p w y w2
  proof -
    obtain xs where xs: "outs (snd w2) = outs (snd w) @ xs"
      and spec: "retry_spec (may_retry ?S ?co) (\<lambda>e. isSafeRetry ?S e ?co) (stops_wait ?S) 10 None
        (map outcome_error xs) y"
      and success: "y = None \<longrightarrow> (\<exists>r h u. xs \<noteq> [] \<and> List.last xs = Inr r \<and>
        srv meth req u = (Inr r, snd w2) \<and> fst w2 = store_reply p r h)"
      using invoke_outcome [OF icpt assms(4) keeps call] by (auto simp: co)
    have "write_run ?S xs (y = None)" by (rule write_run_spec [OF spec]) (use success in \<open>auto simp: co\<close>)
    with xs success show ?thesis by blast
  qed
  with conn show ?thesis by (auto simp: writes_over_def)
qed

text \<open>A stub reads the message at \<open>p\<close> when the call has succeeded.\<close>

lemma stub_write:
  assumes "writes_over S srv outs cc opts" and "cc_Invoke cc c meth req p opts w = (Ret y, w2)"
    and "\<And>u r. fst (srv meth req u) = Inr r \<Longrightarrow> \<exists>m. r = wrap m"
    and "\<And>m h. read (store_reply p (wrap m) h) = m"
    and "x = (case y of Some e \<Rightarrow> Inl e | None \<Rightarrow> Inr (read (fst w2)))"
  shows "\<exists>xs. outs (snd w2) = outs (snd w) @ xs \<and> write_run S xs (outcome_error x = None) \<and>
    (\<forall>r. x = Inr r \<longrightarrow> List.last xs = Inr (wrap r))"
proof -
  obtain xs where "outs (snd w2) = outs (snd w) @ xs" "write_run S xs (y = None)"
    and success: "y = None \<longrightarrow> (\<exists>r h u. List.last xs = Inr r \<and> srv meth req u = (Inr r, snd w2) \<and>
      fst w2 = store_reply p r h)"
    using assms(1,2) unfolding writes_over_def by metis
  moreover have "(outcome_error x = None) = (y = None)" using assms(5) by (cases y) auto
  moreover have "List.last xs = Inr (wrap r)" if "x = Inr r" for r
  proof -
    from assms(5) that have r: "y = None" "r = read (fst w2)" by (cases y; simp)+
    with success obtain q h u where q: "List.last xs = Inr q" "srv meth req u = (Inr q, snd w2)"
      "fst w2 = store_reply p q h" by auto
    moreover from assms(3) [of u q] q(2) obtain m where "q = wrap m" by auto
    ultimately show ?thesis using r(2) assms(4) by simp
  qed
  ultimately show ?thesis by auto
qed

lemma c_Put_write:
  assumes "writes_over S srv outs cc opts" and "server_ok srv outs"
    and "c_Put (NewKVClient cc) c req opts w = (Ret x, w2)"
  shows "\<exists>xs. outs (snd w2) = outs (snd w) @ xs \<and> write_run S xs (outcome_error x = None) \<and>
    (\<forall>r. x = Inr r \<longrightarrow> List.last xs = Inr (PutRep r))"
proof -
  obtain out h1 where "new_PutResponse w = (out, h1, snd w)" by (cases w) (auto simp: new_PutResponse_def)
  with assms(3) obtain y where "cc_Invoke cc c KV_Put_FullMethodName (PutReq req) (PutPtr out) opts
      (h1, snd w) = (Ret y, w2)" and "x = (case y of Some e \<Rightarrow> Inl e | None \<Rightarrow> Inr (hp_put (fst w2) out))"
    by (auto simp: NewKVClient_def kVClient_Put_def split: prod.splits go.splits option.splits)
  from stub_write [where wrap = PutRep and read = "\<lambda>h. hp_put h out", OF assms(1) this(1) _ _ this(2)] assms(2)
  show ?thesis by (simp add: server_ok_def)
qed

lemma c_Txn_write:
  assumes "writes_over S srv outs cc opts" and "server_ok srv outs"
    and "c_Txn (NewKVClient cc) c req opts w = (Ret x, w2)"
  shows "\<exists>xs. outs (snd w2) = outs (snd w) @ xs \<and> write_run S xs (outcome_error x = None) \<and>
    (\<forall>r. x = Inr r \<longrightarrow> List.last xs = Inr (TxnRep r))"
proof -
  obtain out h1 where "new_TxnResponse w = (out, h1, snd w)" by (cases w) (auto simp: new_TxnResponse_def)
  with assms(3) obtain y where "cc_Invoke cc c KV_Txn_FullMethodName (TxnReq req) (TxnPtr out) opts
      (h1, snd w) = (Ret y, w2)" and "x = (case y of Some e \<Rightarrow> Inl e | None \<Rightarrow> Inr (hp_txn (fst w2) out))"
    by (auto simp: NewKVClient_def kVClient_Txn_def split: prod.splits go.splits option.splits)
  from stub_write [where wrap = TxnRep and read = "\<lambda>h. hp_txn h out", OF assms(1) this(1) _ _ this(2)] assms(2)
  show ?thesis by (simp add: server_ok_def)
qed

section \<open>Properties\<close>

text \<open>C1: A put of a constructed client, from the table view to the server and back. It makes at
  most 10 attempts; all but the last have failed, with a context error or with one of the two
  messages that no connection was made. When the client reports success, the last attempt, and
  only this one, was answered, and the response is built from that answer; when it reports an
  error, no attempt was answered.\<close>

theorem put_end_to_end:
  fixes outs :: "'u \<Rightarrow> (err + kv_reply) list"
  assumes "newClient G AsMap arrange cfg w0 = (Ret (Inr cl), w1)"
    and "cf_DialOptions cfg = []" and "getHooks hm_OnKVCall (cf_Hooks cfg) = []"
    and "dials_intercepted G select (wire_of srv)" and "server_ok srv outs"
    and "waits_locally outs (ge_jitter G) select"
    and "table_Put (ge_status G) (kv_Table (client_KV G cl (the (cl_conn cl))) name) c key val
      (opts_of os) w = (Ret (res, e), w2)"
  shows "\<exists>xs. outs (snd w2) = outs (snd w) @ xs \<and> length xs \<le> 10 \<and>
    (\<forall>x \<in> set (butlast xs). \<exists>e. x = Inl e \<and>
      (isContextError (ge_status G) e \<or> isSafeRetryMutableRPC (ge_status G) e)) \<and>
    (e = None \<longrightarrow> (\<exists>r. xs \<noteq> [] \<and> List.last xs = Inr (PutRep r) \<and>
      res = Some \<lparr>pu_Header = ps_Header r, pu_PrevKv = ps_PrevKv r\<rparr>)) \<and>
    (e \<noteq> None \<longrightarrow> res = None \<and> (\<forall>x \<in> set xs. \<exists>e. x = Inl e))"
proof -
  obtain conn cc where conn: "cl_conn cl = Some conn" "ge_NewKVClient G conn = NewKVClient cc"
    and writes: "writes_over (ge_status G) srv outs cc (cl_callOpts cl)"
    using constructed_write [OF assms(1,2,4-6)] by blast
  from assms(7) assms(3) conn newClient_result [OF assms(1)] obtain req x where
    call: "c_Put (NewKVClient cc) c req (cl_callOpts cl) w = (Ret x, w2)" and
    res: "(res, e) = (case x of Inr r \<Rightarrow> (Some \<lparr>pu_Header = ps_Header r, pu_PrevKv = ps_PrevKv r\<rparr>, None)
      | Inl y \<Rightarrow> (None, toErr (ge_status G) c w2 (Some y)))"
    by (auto simp: client_KV_def table_Put_eq split: go.splits prod.splits sum.splits)
  from c_Put_write [OF writes assms(5) call] res show ?thesis
    by (cases x) (auto simp: write_run_def)
qed

text \<open>C2: A transaction of a constructed client, from its builder to the server and back: it is
  answered at most once, by the last of at most 10 attempts, and only after failures that say
  that no connection was made or that are context errors. The caller is told success exactly
  when it was answered, and then the verdict and the responses are those of this answer.\<close>

theorem commit_end_to_end:
  fixes outs :: "'u \<Rightarrow> (err + kv_reply) list"
  assumes "newClient G AsMap arrange cfg w0 = (Ret (Inr cl), w1)"
    and "cf_DialOptions cfg = []" and "getHooks hm_OnKVCall (cf_Hooks cfg) = []"
    and "dials_intercepted G select (wire_of srv)" and "server_ok srv outs"
    and "waits_locally outs (ge_jitter G) select"
    and "txn_run calls (table_Txn (kv_Table (client_KV G cl (the (cl_conn cl))) name) c) = Ret t"
    and "txn_Commit (ge_status G) t w = (Ret (res, e), w2)"
  shows "\<exists>xs. outs (snd w2) = outs (snd w) @ xs \<and> length xs \<le> 10 \<and>
    (\<forall>x \<in> set (butlast xs). \<exists>e. x = Inl e \<and>
      (isContextError (ge_status G) e \<or> isSafeRetryMutableRPC (ge_status G) e)) \<and>
    (e = None \<longrightarrow> (\<exists>r. xs \<noteq> [] \<and> List.last xs = Inr (TxnRep r) \<and>
      res = Some \<lparr>tx_Header = ts_Header r, tx_Succeeded = ts_Succeeded r,
        tx_Responses = map (Some \<circ> resp_of) (List.map_filter so_Response (ts_Responses r))\<rparr>)) \<and>
    (e \<noteq> None \<longrightarrow> res = None \<and> (\<forall>x \<in> set xs. \<exists>e. x = Inl e))"
proof -
  obtain conn cc where conn: "cl_conn cl = Some conn" "ge_NewKVClient G conn = NewKVClient cc"
    and writes: "writes_over (ge_status G) srv outs cc (cl_callOpts cl)"
    using constructed_write [OF assms(1,2,4-6)] by blast
  have "txn_kv t = newKV (NewKVClient cc) (cl_callOpts cl) (ge_status G) []"
    using txn_run_parts [OF assms(7)] assms(3) conn newClient_result [OF assms(1)]
    by (simp add: table_Txn_def kv_Table_def new_txn_def client_KV_def)
  from assms(8) [unfolded txn_Commit_eq [OF this]] obtain req x where
    call: "c_Txn (NewKVClient cc) (txn_ctx t) req (cl_callOpts cl) w = (Ret x, w2)" and
    res: "(res, e) = (case x of Inr r \<Rightarrow> (Some \<lparr>tx_Header = ts_Header r, tx_Succeeded = ts_Succeeded r,
        tx_Responses = map (Some \<circ> resp_of) (List.map_filter so_Response (ts_Responses r))\<rparr>, None)
      | Inl y \<Rightarrow> (None, toErr (ge_status G) (txn_ctx t) w2 (Some y)))"
    by (auto split: go.splits prod.splits sum.splits)
  from c_Txn_write [OF writes assms(5) call] res show ?thesis
    by (cases x) (auto simp: write_run_def)
qed

text \<open>The first attempt finds no address, the second one is answered.\<close>

definition second_time :: "nat \<Rightarrow> err option" where
  "second_time i = (if i = 0 then Some (StatusErr Unavailable ''there is no address available'') else None)"

lemma wired_invoke:
  assumes "newClient (wired_grpc second_time) (\<lambda>s. s) (\<lambda>eps. eps) wired_config w0 = (Ret (Inr cl), w1)"
  shows "\<exists>conn cc. cl_conn cl = Some conn \<and> client_KV (wired_grpc second_time) cl conn =
      newKV (NewKVClient cc) (cl_callOpts cl) doc_status [] \<and>
    (\<forall>meth req p h. cc_Invoke cc fresh_ctx meth req p (cl_callOpts cl) (h, []) =
      (Ret None, (store_reply p (empty_reply meth) h,
        [Inl (StatusErr Unavailable ''there is no address available''), Inr (empty_reply meth)])))"
proof -
  let ?G = "wired_grpc second_time" and ?select = "\<lambda>c d w. (False, w)"
  let ?srv = "script_server second_time"
  let ?co = "effective_options (ge_jitter ?G) (dial_unary_options (client_backoff ?G)) (cl_callOpts cl)"
  obtain conn cc gs where conn: "cl_conn cl = Some conn" "ge_NewKVClient ?G conn = NewKVClient cc"
    and icpt: "intercepts (ge_status ?G) (ge_jitter ?G) ?select (dial_unary_options (client_backoff ?G))
      (wire_of ?srv) cc" and gs: "cl_callOpts cl = map GrpcCallOption gs"
    using constructed_client [OF assms _ wired_intercepts] by (auto simp: wired_config_def zero_config_def)
  have co: "?co = \<lparr>opt_retryPolicy = nonRepeatable, opt_max = 10, opt_backoffFunc = client_backoff ?G,
    opt_retryAuth = True\<rparr>" unfolding gs by (simp add: effective_options_policies)
  have quiet: "quiet ?select (withVersion fresh_ctx) ?co"
    by (rule undisturbed_quiet [OF wired_undisturbed]) (simp_all add: co fresh_ctx_def)
  have S: "ge_status ?G = doc_status" by (simp add: wired_grpc_def doc_env_def)
  have call: "cc_Invoke cc fresh_ctx meth req p (cl_callOpts cl) (h, []) =
      (Ret None, (store_reply p (empty_reply meth) h,
        [Inl (StatusErr Unavailable ''there is no address available''), Inr (empty_reply meth)]))"
    for meth req p h
  proof -
    let ?us = "\<lambda>i. take i [Inl (StatusErr Unavailable ''there is no address available''), Inr (empty_reply meth)]"
    have "\<forall>i<1. ?srv meth req (?us i) = (Inl (StatusErr Unavailable ''there is no address available''),
        ?us (Suc i)) \<and> may_retry (ge_status ?G) ?co (StatusErr Unavailable ''there is no address available'')"
      by (simp add: script_server_def second_time_def Let_def S retryable_def
          isSafeRetry_StatusErr [OF doc_status_ok] co)
    moreover have "?srv meth req (?us 1) = (Inr (empty_reply meth), ?us (Suc 1))"
      by (simp add: script_server_def second_time_def Let_def)
    ultimately show ?thesis
      using invoke_recovers [OF icpt quiet, of 1 meth req ?us
          "\<lambda>_. StatusErr Unavailable ''there is no address available''" "empty_reply meth" p h] by (simp add: co)
  qed
  have "cl_cfg cl = wired_config" using newClient_result [OF assms] by simp
  with conn have "client_KV ?G cl conn = newKV (NewKVClient cc) (cl_callOpts cl) doc_status []"
    by (simp add: client_KV_def S)
  with conn call show ?thesis by blast
qed

theorem put_end_to_end_witness:
  "\<exists>cl w1 h xs. newClient (wired_grpc second_time) (\<lambda>s. s) (\<lambda>eps. eps) wired_config (empty_heap, []) =
      (Ret (Inr cl), w1) \<and>
    table_Put doc_status (kv_Table (client_KV (wired_grpc second_time) cl (the (cl_conn cl))) [7])
      fresh_ctx [1] [2] (opts_of []) (empty_heap, []) =
      (Ret (Some \<lparr>pu_Header = None, pu_PrevKv = None\<rparr>, None), (h, xs)) \<and>
    length xs \<le> 10 \<and> (\<exists>r. List.last xs = Inr (PutRep r) \<and> ps_Header r = None)"
proof -
  let ?G = "wired_grpc second_time"
  obtain cl w1 where cl: "newClient ?G (\<lambda>s. s) (\<lambda>eps. eps) wired_config (empty_heap, []) = (Ret (Inr cl), w1)"
    using wired_client by blast
  obtain h xs where put: "table_Put (ge_status ?G) (kv_Table (client_KV ?G cl (the (cl_conn cl))) [7])
      fresh_ctx [1] [2] (opts_of []) (empty_heap, []) =
      (Ret (Some \<lparr>pu_Header = None, pu_PrevKv = None\<rparr>, None), (h, xs))"
    using wired_invoke [OF cl]
    by (auto simp: table_Put_eq [where os = "[]", simplified] OpPut_def zero_fields_def NewKVClient_def
        kVClient_Put_def new_PutResponse_def empty_PutResponse_def empty_heap_def empty_reply_def
        method_names_differ not_sym [OF method_names_differ(1)])
  have "waits_locally (\<lambda>u. u) (ge_jitter ?G) (\<lambda>c d w. (False, w))"
    by (simp add: waits_locally_def wired_grpc_def doc_env_def)
  from put_end_to_end [OF cl _ _ wired_intercepts script_server_ok this put] cl put show ?thesis
    by (auto simp: wired_config_def zero_config_def wired_grpc_def doc_env_def)
qed

text \<open>A transaction without operations.\<close>

theorem commit_end_to_end_witness:
  "\<exists>cl w1 t h xs. newClient (wired_grpc second_time) (\<lambda>s. s) (\<lambda>eps. eps) wired_config (empty_heap, []) =
      (Ret (Inr cl), w1) \<and>
    txn_run [] (table_Txn (kv_Table (client_KV (wired_grpc second_time) cl (the (cl_conn cl))) [7]) fresh_ctx) = Ret t \<and>
    txn_Commit doc_status t (empty_heap, []) =
      (Ret (Some \<lparr>tx_Header = None, tx_Succeeded = False, tx_Responses = []\<rparr>, None), (h, xs)) \<and>
    length xs \<le> 10 \<and> (\<exists>r. List.last xs = Inr (TxnRep r) \<and> \<not> ts_Succeeded r)"
proof -
  let ?G = "wired_grpc second_time"
  obtain cl w1 where cl: "newClient ?G (\<lambda>s. s) (\<lambda>eps. eps) wired_config (empty_heap, []) = (Ret (Inr cl), w1)"
    using wired_client by blast
  obtain t where t: "txn_run [] (table_Txn (kv_Table (client_KV ?G cl (the (cl_conn cl))) [7]) fresh_ctx) = Ret t"
    and tt: "t = table_Txn (kv_Table (client_KV ?G cl (the (cl_conn cl))) [7]) fresh_ctx" by simp
  obtain h xs where commit: "txn_Commit (ge_status ?G) t (empty_heap, []) =
      (Ret (Some \<lparr>tx_Header = None, tx_Succeeded = False, tx_Responses = []\<rparr>, None), (h, xs))"
    using wired_invoke [OF cl] tt
    by (auto simp: table_Txn_def kv_Table_def new_txn_def txn_Commit_eq toTxnRequest_def OpTxn_def zero_fields_def
        NewKVClient_def kVClient_Txn_def new_TxnResponse_def empty_TxnResponse_def empty_heap_def empty_reply_def
        method_names_differ List.map_filter_simps)
  have "waits_locally (\<lambda>u. u) (ge_jitter ?G) (\<lambda>c d w. (False, w))"
    by (simp add: waits_locally_def wired_grpc_def doc_env_def)
  from commit_end_to_end [OF cl _ _ wired_intercepts script_server_ok this t commit] cl t commit show ?thesis
    by (auto simp: wired_config_def zero_config_def wired_grpc_def doc_env_def)
qed

end
