(* ===== verification/Stream_Path.thy ===== *)
theory Stream_Path
  imports Call_Path
begin

text \<open>
  An iteration from the client's interface to the server and back: the generated stub over a
  stream that the streaming interceptor has made. The retrying stream is an object that its
  methods update: its changing fields live in a heap of stream objects, its fixed ones in its
  methods.
\<close>

section \<open>Stream objects\<close>

record 'h stream_cell =
  sc_ClientStream :: 'h
  sc_bufferedSends :: "kv_request list"
  sc_receivedGood :: bool
  sc_wasClosedSend :: bool

record 'h stream_heap =
  sh_cells :: "nat \<Rightarrow> 'h stream_cell"
  sh_next :: nat

type_synonym ('h, 'v) stream_world = "('h stream_heap \<times> 'v) kv_world"

text \<open>gRPC's own streams: the methods of a handle; a message is received into a pointer.\<close>

record ('h, 'w) raw_streams =
  raw_SendMsg :: "'h \<Rightarrow> kv_request \<Rightarrow> 'w \<Rightarrow> err option \<times> 'w"
  raw_RecvMsg :: "'h \<Rightarrow> reply_ptr \<Rightarrow> 'w \<Rightarrow> err option \<times> 'w"
  raw_CloseSend :: "'h \<Rightarrow> 'w \<Rightarrow> err option \<times> 'w"

definition api_of :: "('h, 'w) raw_streams \<Rightarrow> reply_ptr \<Rightarrow> ('h, kv_request, 'w) stream_api" where
  "api_of raw p = \<lparr>sa_SendMsg = raw_SendMsg raw, sa_RecvMsg = (\<lambda>h. raw_RecvMsg raw h p),
     sa_CloseSend = raw_CloseSend raw\<rparr>"

definition cell_of :: "('h, kv_request, 'w) retrying_stream \<Rightarrow> 'h stream_cell" where
  "cell_of s = \<lparr>sc_ClientStream = ss_ClientStream s, sc_bufferedSends = ss_bufferedSends s,
     sc_receivedGood = ss_receivedGood s, sc_wasClosedSend = ss_wasClosedSend s\<rparr>"

text \<open>The object as it is now: \<open>s\<close> gives the fields that never change.\<close>

definition object_at ::
  "('h, kv_request, ('h, 'v) stream_world) retrying_stream \<Rightarrow> nat \<Rightarrow> ('h, 'v) stream_world \<Rightarrow>
     ('h, kv_request, ('h, 'v) stream_world) retrying_stream" where
  "object_at s p w = (let x = sh_cells (fst (snd w)) p in
     s\<lparr>ss_ClientStream := sc_ClientStream x, ss_bufferedSends := sc_bufferedSends x,
       ss_receivedGood := sc_receivedGood x, ss_wasClosedSend := sc_wasClosedSend x\<rparr>)"

definition update_object ::
  "nat \<Rightarrow> ('h, kv_request, ('h, 'v) stream_world) retrying_stream \<Rightarrow> ('h, 'v) stream_world \<Rightarrow>
     ('h, 'v) stream_world" where
  "update_object p s w = (case w of (h, sh, v) \<Rightarrow>
     (h, sh\<lparr>sh_cells := (sh_cells sh)(p := cell_of s)\<rparr>, v))"

definition new_object ::
  "('h, kv_request, ('h, 'v) stream_world) retrying_stream \<Rightarrow> ('h, 'v) stream_world \<Rightarrow>
     nat \<times> ('h, 'v) stream_world" where
  "new_object s w = (case w of (h, sh, v) \<Rightarrow> (sh_next sh,
     (h, sh\<lparr>sh_cells := (sh_cells sh)(sh_next sh := cell_of s), sh_next := Suc (sh_next sh)\<rparr>, v)))"

definition retrying_methods ::
  "status_pkg \<Rightarrow> ('h, 'v) stream_world select_wait \<Rightarrow> ('h, ('h, 'v) stream_world) raw_streams \<Rightarrow>
     ('h, kv_request, ('h, 'v) stream_world) retrying_stream \<Rightarrow> nat \<Rightarrow>
     ('h, 'v) stream_world ClientStream" where
  "retrying_methods S select raw s p = \<lparr>
     cs_SendMsg = (\<lambda>m w. case ss_SendMsg (api_of raw (RangePtr 0)) m (object_at s p w) w of
       (e, s1, w1) \<Rightarrow> (e, update_object p s1 w1)),
     cs_RecvMsg = (\<lambda>m w. case ss_RecvMsg S select (api_of raw m) (object_at s p w) w of
       (e, s1, w1) \<Rightarrow> (e, update_object p s1 w1)),
     cs_CloseSend = (\<lambda>w. case ss_CloseSend (api_of raw (RangePtr 0)) (object_at s p w) w of
       (e, s1, w1) \<Rightarrow> (e, update_object p s1 w1))\<rparr>"

definition plain_methods :: "('h, 'w) raw_streams \<Rightarrow> 'h \<Rightarrow> 'w ClientStream" where
  "plain_methods raw h = \<lparr>cs_SendMsg = raw_SendMsg raw h,
     cs_RecvMsg = (\<lambda>m w. case raw_RecvMsg raw h m w of (e, w1) \<Rightarrow> (Ret e, w1)),
     cs_CloseSend = raw_CloseSend raw h\<rparr>"

text \<open>
  The connection calls the interceptor it was dialled with (\<open>grpc.WithStreamInterceptor\<close>), which
  opens streams with \<open>streamer\<close>; the retrying stream it returns is a new object.
\<close>

definition stream_of ::
  "status_pkg \<Rightarrow> ('h, 'v) stream_world select_wait \<Rightarrow> ('h, ('h, 'v) stream_world) raw_streams \<Rightarrow>
     (err + ('h, kv_request, ('h, 'v) stream_world) client_stream) \<times> ('h, 'v) stream_world \<Rightarrow>
     (err + ('h, 'v) stream_world ClientStream) \<times> ('h, 'v) stream_world" where
  "stream_of S select raw res = (case res of
     (Inl e, w1) \<Rightarrow> (Inl e, w1)
   | (Inr (PlainStream h), w1) \<Rightarrow> (Inr (plain_methods raw h), w1)
   | (Inr (RetryingStream s), w1) \<Rightarrow>
       (case new_object s w1 of (p, w2) \<Rightarrow> (Inr (retrying_methods S select raw s p), w2)))"

definition intercepts_streams where
  "intercepts_streams S jitter select fs raw streamer cc \<longleftrightarrow>
     (\<forall>c clientStreams meth opts w. cc_NewStream cc c clientStreams meth opts w =
        stream_of S select raw
          (streamClientInterceptor S jitter fs c clientStreams (streamer meth) opts w))"

section \<open>Scripted streams\<close>

text \<open>
  The world beside the heaps: the number of streams opened so far, what each stream has still to
  deliver, and the state of the consumer. Only receiving can fail; a stream that has delivered
  everything is at its end.
\<close>

type_synonym 'a script_world =
  "(nat, nat \<times> (nat \<Rightarrow> (err + RangeResponse) list) \<times> 'a) stream_world"

fun script_next ::
  "nat \<Rightarrow> reply_ptr \<Rightarrow> 'a script_world \<Rightarrow> err option \<times> 'a script_world" where
  "script_next h p (hp, sh, k, scr, a) =
     (case scr h of
        [] \<Rightarrow> (Some IoEOF, (hp, sh, k, scr, a))
      | Inl e # xs \<Rightarrow> (Some e, (hp, sh, k, scr(h := xs), a))
      | Inr r # xs \<Rightarrow> (None, (store_reply p (RangeRep r) hp, sh, k, scr(h := xs), a)))"

definition scripted_raw :: "(nat, 'a script_world) raw_streams" where
  "scripted_raw = \<lparr>raw_SendMsg = (\<lambda>h m w. (None, w)), raw_RecvMsg = script_next,
     raw_CloseSend = (\<lambda>h w. (None, w))\<rparr>"

fun script_open :: "string \<Rightarrow> (nat, 'a script_world) streamer" where
  "script_open meth c gs (hp, sh, k, scr, a) = (Inr k, (hp, sh, Suc k, scr, a))"

definition consumer_yield ::
  "(GetResponse option \<Rightarrow> err option \<Rightarrow> 'a \<Rightarrow> bool \<times> 'a) \<Rightarrow> GetResponse option \<Rightarrow> err option \<Rightarrow>
     'a script_world \<Rightarrow> bool go \<times> 'a script_world" where
  "consumer_yield f r e w = (case w of (hp, sh, k, scr, a) \<Rightarrow>
     (case f r e a of (b, a1) \<Rightarrow> (Ret b, (hp, sh, k, scr, a1))))"

text \<open>What receiving on a stream that has \<open>rs\<close> left to deliver returns, and leaves in the heap.\<close>

definition received :: "RangeResponse list \<Rightarrow> err option" where
  "received rs = (if rs = [] then Some IoEOF else None)"

definition received_heap :: "reply_ptr \<Rightarrow> RangeResponse list \<Rightarrow> kv_heap \<Rightarrow> kv_heap" where
  "received_heap p rs hp = (if rs = [] then hp else store_reply p (RangeRep (hd rs)) hp)"

lemma script_next_messages:
  "scr h = map Inr rs \<Longrightarrow> script_next h p (hp, sh, k, scr, a) =
     (received rs, (received_heap p rs hp, sh, k, scr(h := map Inr (tl rs)), a))"
  by (cases rs) (auto simp: received_def received_heap_def)

lemma script_resend: "resend_loop (api_of scripted_raw p) h ms w = (None, w)"
  by (induction ms) (simp_all add: api_of_def scripted_raw_def)

lemma script_reestablish:
  "ss_streamerCall s = (\<lambda>c. script_open meth c gs) \<Longrightarrow>
     reestablishStreamAndResendBuffer (api_of scripted_raw p) s (hp, sh, k, scr, a) =
       (Inr k, (hp, sh, Suc k, scr, a))"
  by (simp add: reestablishStreamAndResendBuffer_def script_resend)
    (simp add: api_of_def scripted_raw_def)

lemma script_receive:
  assumes "\<not> ss_receivedGood s" and "\<forall>w. ctx_Err (ss_ctx s) w = None"
  shows "scr (ss_ClientStream s) = map Inr rs \<Longrightarrow>
      receiveMsgAndIndicateRetry S (api_of scripted_raw p) s (hp, sh, k, scr, a) =
        ((False, received rs), s\<lparr>ss_receivedGood := True\<rparr>,
          (received_heap p rs hp, sh, k, scr(ss_ClientStream s := map Inr (tl rs)), a))"
    and "scr (ss_ClientStream s) = Inl e # xs \<Longrightarrow> e \<noteq> IoEOF \<Longrightarrow> retryable S (ss_callOpts s) (Some e) \<Longrightarrow>
      receiveMsgAndIndicateRetry S (api_of scripted_raw p) s (hp, sh, k, scr, a) =
        ((True, Some e), s, (hp, sh, k, scr(ss_ClientStream s := xs), a))"
  using assms
  by (auto simp: receiveMsgAndIndicateRetry_def Let_def api_of_def scripted_raw_def
      script_next_messages received_def retryable_def simp del: script_next.simps)
    (simp_all add: isSafeRetry_def split: if_splits)

text \<open>The streams \<open>k\<close>, \<dots>, \<open>k + n - 1\<close> break at once and stream \<open>k + n\<close> works.\<close>

definition works_after :: "(nat \<Rightarrow> (err + RangeResponse) list) \<Rightarrow> nat \<Rightarrow> nat \<Rightarrow> RangeResponse list \<Rightarrow> bool" where
  "works_after scr k n rs \<longleftrightarrow> scr (k + n) = map Inr rs \<and>
     (\<forall>i<n. \<exists>m xs. scr (k + i) = Inl (StatusErr Unavailable m) # xs)"

lemma works_after_Suc:
  "works_after scr k (Suc n) rs \<Longrightarrow>
     (\<exists>m xs. scr k = Inl (StatusErr Unavailable m) # xs) \<and> works_after (scr(k := xs)) (Suc k) n rs"
  unfolding works_after_def by (auto dest: spec [of _ 0] spec [of _ "Suc _"])

lemma recv_loop_script:
  assumes "quiet select (ss_ctx s) (ss_callOpts s)"
    and "\<And>m. retryable S (ss_callOpts s) (Some (StatusErr Unavailable m))"
  shows "\<not> ss_receivedGood s \<Longrightarrow> ss_streamerCall s = (\<lambda>c. script_open meth c gs) \<Longrightarrow>
    unat b + n < unat (opt_max (ss_callOpts s)) \<Longrightarrow> works_after scr k n rs \<Longrightarrow>
    \<exists>scr1. scr1 (k + n) = map Inr (tl rs) \<and>
      recv_loop S select (api_of scripted_raw p) b l s (hp, sh, k, scr, a) =
        (Ret (received rs), s\<lparr>ss_ClientStream := k + n, ss_receivedGood := True\<rparr>,
          (received_heap p rs hp, sh, Suc (k + n), scr1, a))"
  using assms
proof (induction n arbitrary: b l s k scr)
  case 0
  then have "b < opt_max (ss_callOpts s)" by (simp add: word_less_nat_alt)
  with 0 show ?case
    by (simp add: recv_loop.simps [of S select "api_of scripted_raw p" b] quiet_wait script_reestablish
        works_after_def ss_setStream_def script_receive(1) quiet_def)
next
  case (Suc n)
  then have less: "b < opt_max (ss_callOpts s)" by (simp add: word_less_nat_alt)
  from works_after_Suc [OF Suc.prems(4)] obtain m xs where k: "scr k = Inl (StatusErr Unavailable m) # xs"
    and later: "works_after (scr(k := xs)) (Suc k) n rs" by (metis works_after_Suc [OF Suc.prems(4)])
  let ?s = "s\<lparr>ss_ClientStream := k\<rparr>"
  have "recv_loop S select (api_of scripted_raw p) b l s (hp, sh, k, scr, a) =
      recv_loop S select (api_of scripted_raw p) (b + 1) (Some (StatusErr Unavailable m)) ?s
        (hp, sh, Suc k, scr(k := xs), a)"
    using less k Suc.prems
    by (simp add: recv_loop.simps [of S select "api_of scripted_raw p" b] quiet_wait script_reestablish
        ss_setStream_def script_receive(2) [of ?s] quiet_def)
  moreover have room: "unat (b + 1) + n < unat (opt_max (ss_callOpts ?s))"
    using less Suc.prems(3) by (simp add: unat_Suc_less)
  ultimately show ?case using Suc.IH [OF _ _ room later, of "Some (StatusErr Unavailable m)"] Suc.prems
    by (simp del: fun_upd_apply)
qed

lemma ss_RecvMsg_script:
  assumes "quiet select (ss_ctx s) (ss_callOpts s)"
    and "\<And>m. retryable S (ss_callOpts s) (Some (StatusErr Unavailable m))"
    and "\<not> ss_receivedGood s" and "ss_streamerCall s = (\<lambda>c. script_open meth c gs)"
    and "n < unat (opt_max (ss_callOpts s))" and "works_after scr k n rs" and "ss_ClientStream s = k"
  shows "\<exists>scr1. scr1 (k + n) = map Inr (tl rs) \<and>
      ss_RecvMsg S select (api_of scripted_raw p) s (hp, sh, Suc k, scr, a) =
        (Ret (received rs), s\<lparr>ss_ClientStream := k + n, ss_receivedGood := True\<rparr>,
          (received_heap p rs hp, sh, Suc (k + n), scr1, a))"
proof (cases n)
  case 0
  with assms show ?thesis
    by (cases s) (simp add: ss_RecvMsg_def works_after_def script_receive(1) quiet_def)
next
  case (Suc j)
  with works_after_Suc assms(6) obtain m xs where k: "scr k = Inl (StatusErr Unavailable m) # xs"
    and later: "works_after (scr(k := xs)) (Suc k) j rs" by metis
  have "unat (1 :: 64 word) + j < unat (opt_max (ss_callOpts s))" using assms(5) Suc by simp
  from recv_loop_script [OF assms(1-4) this later, where l = "Some (StatusErr Unavailable m)"
      and p = p and hp = hp and sh = sh and a = a] Suc k assms
  show ?thesis by (simp add: ss_RecvMsg_def script_receive(2) quiet_def)
qed

section \<open>Iterating over a stream object\<close>

definition stream_item :: "RangeResponse list \<Rightarrow> err + RangeResponse" where
  "stream_item rs = (case rs of [] \<Rightarrow> Inl IoEOF | r # _ \<Rightarrow> Inr r)"

lemma Recv_item:
  assumes "new_RangeResponse w = (m, hp, u)"
    and "ss_RecvMsg S select (api_of raw (RangePtr m)) (object_at s p (hp, u)) (hp, u) =
      (Ret (received rs), s1, (received_heap (RangePtr m) rs hp, u1))"
  shows "kVIterateRangeClient_Recv (retrying_methods S select raw s p) w =
    (Ret (stream_item rs), update_object p s1 (received_heap (RangePtr m) rs hp, u1))"
  using assms
  by (cases u1; cases rs) (simp_all add: kVIterateRangeClient_Recv_def retrying_methods_def received_def
      received_heap_def stream_item_def update_object_def)

text \<open>An object that has received something reads its stream.\<close>

lemma Recv_good:
  assumes "sc_receivedGood (sh_cells sh p)" and "scr (sc_ClientStream (sh_cells sh p)) = map Inr rs"
  shows "\<exists>hp1 sh1 scr1. kVIterateRangeClient_Recv (retrying_methods S select scripted_raw s p) (hp, sh, k, scr, a) =
      (Ret (stream_item rs), (hp1, sh1, k, scr1, a)) \<and> sh_cells sh1 p = sh_cells sh p \<and>
    scr1 (sc_ClientStream (sh_cells sh p)) = map Inr (tl rs)"
proof -
  let ?h = "sc_ClientStream (sh_cells sh p)"
  obtain m hp0 where new: "new_RangeResponse (hp, sh, k, scr, a) = (m, hp0, sh, k, scr, a)"
    by (simp add: new_RangeResponse_def)
  let ?o = "object_at s p (hp0, sh, k, scr, a)"
  have o: "ss_receivedGood ?o" "ss_ClientStream ?o = ?h" "cell_of ?o = sh_cells sh p"
    using assms(1) by (simp_all add: object_at_def Let_def cell_of_def)
  have "ss_RecvMsg S select (api_of scripted_raw (RangePtr m)) ?o (hp0, sh, k, scr, a) =
      (Ret (received rs), ?o, (received_heap (RangePtr m) rs hp0, sh, k, scr(?h := map Inr (tl rs)), a))"
    using script_next_messages [of scr ?h rs "RangePtr m" hp0 sh k a] assms(2)
    by (simp add: no_retry_after_good_receive [OF o(1)] o(2) api_of_def scripted_raw_def)
  from Recv_item [OF new this] o(3) show ?thesis by (simp add: update_object_def fun_upd_idem)
qed

text \<open>An object that has received nothing yet finds the first stream that works.\<close>

lemma Recv_first:
  assumes "quiet select (ss_ctx s) (ss_callOpts s)"
    and "\<And>m. retryable S (ss_callOpts s) (Some (StatusErr Unavailable m))"
    and "ss_streamerCall s = (\<lambda>c. script_open meth c gs)"
    and "n < unat (opt_max (ss_callOpts s))" and "works_after scr k n rs"
    and "\<not> sc_receivedGood (sh_cells sh p)" and "sc_ClientStream (sh_cells sh p) = k"
  shows "\<exists>hp1 sh1 scr1. kVIterateRangeClient_Recv (retrying_methods S select scripted_raw s p)
        (hp, sh, Suc k, scr, a) = (Ret (stream_item rs), (hp1, sh1, Suc (k + n), scr1, a)) \<and>
      sc_receivedGood (sh_cells sh1 p) \<and> sc_ClientStream (sh_cells sh1 p) = k + n \<and>
      scr1 (k + n) = map Inr (tl rs)"
proof -
  obtain m hp0 where new: "new_RangeResponse (hp, sh, Suc k, scr, a) = (m, hp0, sh, Suc k, scr, a)"
    by (simp add: new_RangeResponse_def)
  let ?o = "object_at s p (hp0, sh, Suc k, scr, a)"
  have o: "\<not> ss_receivedGood ?o" "ss_ClientStream ?o = k" "ss_ctx ?o = ss_ctx s"
    "ss_callOpts ?o = ss_callOpts s" "ss_streamerCall ?o = ss_streamerCall s"
    using assms(6,7) by (simp_all add: object_at_def Let_def)
  obtain scr1 where "scr1 (k + n) = map Inr (tl rs)"
    "ss_RecvMsg S select (api_of scripted_raw (RangePtr m)) ?o (hp0, sh, Suc k, scr, a) =
      (Ret (received rs), ?o\<lparr>ss_ClientStream := k + n, ss_receivedGood := True\<rparr>,
        (received_heap (RangePtr m) rs hp0, sh, Suc (k + n), scr1, a))"
    using ss_RecvMsg_script [of select ?o S meth gs n scr k rs "RangePtr m" hp0 sh a, unfolded o(3-5),
        OF assms(1,2) o(1) assms(3-5) o(2)] by blast
  from this(1) Recv_item [OF new this(2)] show ?thesis by (simp add: update_object_def cell_of_def)
qed

text \<open>The consumer is given what is received, until there is nothing more or it stops.\<close>

lemma iter_item:
  assumes "kVIterateRangeClient_Recv x w = (Ret (stream_item rs), (hp, sh, k, scr, a))"
  shows "iter_run (recv_step (kVIterateRangeClient_Recv x)) (consumer_yield f) w =
    (case rs of [] \<Rightarrow> Some (Ret (), (hp, sh, k, scr, a))
     | r # _ \<Rightarrow> (case f (Some (conv_RangeResponse r)) None a of
         (True, a1) \<Rightarrow> iter_run (recv_step (kVIterateRangeClient_Recv x)) (consumer_yield f) (hp, sh, k, scr, a1)
       | (False, a1) \<Rightarrow> Some (Ret (), (hp, sh, k, scr, a1))))"
proof (cases rs)
  case Nil
  with assms have "recv_step (kVIterateRangeClient_Recv x) w = (IterDone, (hp, sh, k, scr, a))" by (simp add: recv_step_def stream_item_def)
  with Nil show ?thesis by (subst iter_run.simps) simp
next
  case (Cons r rest)
  with assms have "recv_step (kVIterateRangeClient_Recv x) w = (IterYield (Some (conv_RangeResponse r)) None, (hp, sh, k, scr, a))"
    by (simp add: recv_step_def stream_item_def)
  moreover have "consumer_yield f y e (hp, sh, k, scr, a) =
      (Ret (fst (f y e a)), (hp, sh, k, scr, snd (f y e a)))" for y e
    by (simp add: consumer_yield_def split: prod.split)
  ultimately show ?thesis using Cons by (subst iter_run.simps) (simp split: prod.split bool.split)
qed

lemma iterate_good:
  assumes "sc_receivedGood (sh_cells sh p)" and "scr (sc_ClientStream (sh_cells sh p)) = map Inr rs"
  shows "\<exists>hp1 sh1 scr1. iter_run (recv_step (kVIterateRangeClient_Recv
      (retrying_methods S select scripted_raw s p))) (consumer_yield f) (hp, sh, k, scr, a) =
    Some (Ret (), (hp1, sh1, k, scr1, snd (consume f (map Inr rs) a)))"
  using assms
proof (induction rs arbitrary: hp sh scr a)
  case Nil
  obtain hp1 sh1 scr1 where "kVIterateRangeClient_Recv (retrying_methods S select scripted_raw s p)
      (hp, sh, k, scr, a) = (Ret (stream_item []), (hp1, sh1, k, scr1, a))"
    using Recv_good [OF Nil(1), where scr = scr and rs = "[]" and S = S and select = select and s = s
        and hp = hp and k = k and a = a] Nil(2) by auto
  from iter_item [OF this, of f] show ?case by simp
next
  case (Cons r rs)
  obtain hp1 sh1 scr1 where recv: "kVIterateRangeClient_Recv (retrying_methods S select scripted_raw s p)
      (hp, sh, k, scr, a) = (Ret (stream_item (r # rs)), (hp1, sh1, k, scr1, a))"
    and cell: "sh_cells sh1 p = sh_cells sh p"
    and rest: "scr1 (sc_ClientStream (sh_cells sh p)) = map Inr rs"
    using Recv_good [OF Cons.prems(1), where scr = scr and rs = "r # rs" and S = S and select = select
        and s = s and hp = hp and k = k and a = a] Cons.prems(2) by auto
  obtain b a1 where f: "f (Some (conv_RangeResponse r)) None a = (b, a1)" by fastforce
  from Cons.IH [of sh1 scr1 hp1 a1] cell rest Cons.prems(1) iter_item [OF recv, of f] show ?case
    by (cases b) (simp_all add: f)
qed

text \<open>From the first receive on.\<close>

lemma iterate_stream:
  assumes "quiet select (ss_ctx s) (ss_callOpts s)"
    and "\<And>m. retryable S (ss_callOpts s) (Some (StatusErr Unavailable m))"
    and "ss_streamerCall s = (\<lambda>c. script_open meth c gs)"
    and "n < unat (opt_max (ss_callOpts s))" and "works_after scr k n rs"
    and "\<not> sc_receivedGood (sh_cells sh p)" and "sc_ClientStream (sh_cells sh p) = k"
  shows "\<exists>hp1 sh1 scr1. iter_run (recv_step (kVIterateRangeClient_Recv
      (retrying_methods S select scripted_raw s p))) (consumer_yield f) (hp, sh, Suc k, scr, a) =
    Some (Ret (), (hp1, sh1, Suc (k + n), scr1, snd (consume f (map Inr rs) a)))"
proof -
  obtain hp1 sh1 scr1 where recv: "kVIterateRangeClient_Recv (retrying_methods S select scripted_raw s p)
      (hp, sh, Suc k, scr, a) = (Ret (stream_item rs), (hp1, sh1, Suc (k + n), scr1, a))"
    and good: "sc_receivedGood (sh_cells sh1 p)" "scr1 (sc_ClientStream (sh_cells sh1 p)) = map Inr (tl rs)"
    using Recv_first [OF assms, of hp a] by auto
  show ?thesis
  proof (cases rs)
    case Nil
    with iter_item [OF recv, of f] show ?thesis by simp
  next
    case (Cons r rest)
    obtain b a1 where f: "f (Some (conv_RangeResponse r)) None a = (b, a1)" by fastforce
    from iterate_good [OF good(1), of scr1 rest S select s f hp1 "Suc (k + n)" a1] good(2) Cons
      iter_item [OF recv, of f] show ?thesis
      by (cases b) (simp_all add: f)
  qed
qed

section \<open>The connection of a constructed client\<close>

text \<open>What is left of an object after the request was sent and the sending side closed.\<close>

lemma IterateRange_stream:
  fixes jitter :: "'a script_world jitterFunc" and fs opts
  defines "co \<equiv> effective_options jitter fs opts"
  assumes "intercepts_streams S jitter select fs scripted_raw script_open cc" and "opt_max co \<noteq> 0"
  shows "\<exists>s p gs sh1. c_IterateRange (NewKVClient cc) c req opts (hp, sh, k, scr, a) =
      (Ret (Inr (kVIterateRangeClient_Recv (retrying_methods S select scripted_raw s p))), (hp, sh1, Suc k, scr, a)) \<and>
    ss_ctx s = withVersion c \<and> ss_callOpts s = co \<and>
    ss_streamerCall s = (\<lambda>c. script_open KV_IterateRange_FullMethodName c gs) \<and>
    \<not> sc_receivedGood (sh_cells sh1 p) \<and> sc_ClientStream (sh_cells sh1 p) = k"
proof -
  obtain gs rs where opts: "filterCallOptions opts = (gs, rs)" by (rule prod.exhaust)
  let ?s = "\<lparr>ss_ClientStream = k, ss_bufferedSends = [], ss_receivedGood = False, ss_wasClosedSend = False,
    ss_ctx = withVersion c, ss_callOpts = co,
    ss_streamerCall = (\<lambda>c w. script_open KV_IterateRange_FullMethodName c gs w)\<rparr>"
  let ?p = "sh_next sh" and ?x = "retrying_methods S select scripted_raw ?s (sh_next sh)"
  let ?sh1 = "sh\<lparr>sh_cells := (sh_cells sh)(?p := cell_of ?s), sh_next := Suc ?p\<rparr>"
  let ?sh2 = "?sh1\<lparr>sh_cells := (sh_cells ?sh1)(?p := (cell_of ?s)\<lparr>sc_bufferedSends := [RangeReq req]\<rparr>)\<rparr>"
  let ?sh3 = "?sh2\<lparr>sh_cells := (sh_cells ?sh2)(?p :=
    (sh_cells ?sh2 ?p)\<lparr>sc_wasClosedSend := True\<rparr>)\<rparr>"
  have "cc_NewStream cc c False KV_IterateRange_FullMethodName opts (hp, sh, k, scr, a) =
      (Inr ?x, (hp, ?sh1, Suc k, scr, a))"
    using assms(2,3) opts
    by (simp add: intercepts_streams_def streamClientInterceptor_def stream_of_def new_object_def
        co_def effective_options_def Let_def)
  moreover have "cs_SendMsg ?x (RangeReq req) (hp, ?sh1, Suc k, scr, a) = (None, (hp, ?sh2, Suc k, scr, a))"
    by (simp add: retrying_methods_def ss_SendMsg_def object_at_def update_object_def cell_of_def
        api_of_def scripted_raw_def Let_def)
  moreover have "cs_CloseSend ?x (hp, ?sh2, Suc k, scr, a) = (None, (hp, ?sh3, Suc k, scr, a))"
    by (simp add: retrying_methods_def ss_CloseSend_def object_at_def update_object_def cell_of_def
        api_of_def scripted_raw_def Let_def)
  ultimately have "c_IterateRange (NewKVClient cc) c req opts (hp, sh, k, scr, a) =
      (Ret (Inr (kVIterateRangeClient_Recv ?x)), (hp, ?sh3, Suc k, scr, a))"
    by (simp add: NewKVClient_def kVClient_IterateRange_def)
  then show ?thesis
    by (intro exI [of _ ?s] exI [of _ ?p] exI [of _ gs] exI [of _ ?sh3]) (simp add: cell_of_def)
qed

text \<open>
  \<open>grpc.NewClient\<close> with the option \<open>WithStreamInterceptor\<close> and no later one of its kind makes a
  connection that calls the interceptor.
\<close>

definition dials_streams where
  "dials_streams G select raw streamer \<longleftrightarrow>
     (\<forall>target pre fs gs post w conn w1. set post \<subseteq> {DPerRPCCredentials} \<longrightarrow>
        ge_NewClient G target (pre @ DStreamInterceptor fs # DUnaryInterceptor gs # post) w = (Inr conn, w1) \<longrightarrow>
        (\<exists>cc. ge_NewKVClient G conn = NewKVClient cc \<and>
           intercepts_streams (ge_status G) (ge_jitter G) select fs raw streamer cc))"

lemma constructed_streams:
  assumes "newClient G AsMap arrange cfg w0 = (Ret (Inr cl), w1)" and "cf_DialOptions cfg = []"
    and "dials_streams G select raw streamer"
  shows "\<exists>conn cc gs. cl_conn cl = Some conn \<and> ge_NewKVClient G conn = NewKVClient cc \<and>
    intercepts_streams (ge_status G) (ge_jitter G) select (dial_stream_options (client_backoff G)) raw streamer cc \<and>
    cl_callOpts cl = map GrpcCallOption gs"
proof -
  let ?backoff = "client_backoff G"
  obtain conn pre b target w2 w3 where conn: "cl_conn cl = Some conn" and dial: "ge_NewClient G target
      (pre @ DStreamInterceptor (dial_stream_options ?backoff) #
        DUnaryInterceptor (dial_unary_options ?backoff) # (if b then [DPerRPCCredentials] else [])) w2 =
      (Inr conn, w3)"
    using newClient_conn [OF assms(1)] by (simp only: assms(2) list.map append_Nil2 append.simps append_assoc) blast
  have "set (if b then [DPerRPCCredentials] else []) \<subseteq> {DPerRPCCredentials}" by auto
  with assms(3) dial conn newClient_result [OF assms(1)] client_callOpts_grpc show ?thesis
    unfolding dials_streams_def by metis
qed

lemma table_Iterate_eq:
  assumes "OpIterate key (opts_of os) = Ret x" and "toRangeRequest x name = Ret req"
    and "c_IterateRange client c req (callOpts @ [RetryCallOption withRepeatable,
      RetryCallOption (withMax iterateRangeRetries)]) w = (Ret (Inr recv), w1)"
  shows "table_Iterate S (kv_Table (newKV client callOpts S []) name) c key (opts_of os) w =
    (Ret (Some (recv_step recv), None), w1)"
proof -
  have "op_t (op_f x) = tIterateRange"
    using assms(1) by (auto simp: OpIterate_eq applyOpts_simps zero_fields_def split: if_splits)
  with assms show ?thesis
    by (simp add: table_Iterate_def kv_Table_def newKV_def do_op_def kv_Do_def do_call_def
        retryKVClient_def retryKV_IterateRange_def no_OpResponse_def)
qed

section \<open>Properties\<close>

text \<open>C4: An iteration of a constructed client, while its context is not done and over streams that
  deliver what their scripts say: when fewer than 5 streams break as unavailable before they
  deliver anything and the next one works, the consumer is given exactly the messages of that
  stream, converted and in order, until it stops, and the iteration returns; it has opened one
  stream more than have broken.\<close>

theorem iterate_end_to_end:
  fixes G :: "('cert, 'x509, 'm, 'sc, 'u, 'conn, 't, 'a script_world) grpc_env"
  assumes "newClient G AsMap arrange cfg w0 = (Ret (Inr cl), w1)"
    and "cf_DialOptions cfg = []" and "getHooks hm_OnKVCall (cf_Hooks cfg) = []"
    and "dials_streams G select scripted_raw script_open" and "status_ok (ge_status G)"
    and "undisturbed G select" and "\<forall>w. ctx_Err c w = None"
    and "OpIterate key (opts_of os) = Ret x" and "toRangeRequest x name = Ret req"
    and "n < 5" and "works_after scr k n rs"
  shows "\<exists>it w2 hp1 sh1 scr1. table_Iterate (ge_status G) (kv_Table (client_KV G cl (the (cl_conn cl))) name)
      c key (opts_of os) (hp, sh, k, scr, a) = (Ret (Some it, None), w2) \<and>
    iter_run it (consumer_yield f) w2 =
      Some (Ret (), (hp1, sh1, k + n + 1, scr1, snd (consume f (map Inr rs) a)))"
proof -
  let ?S = "ge_status G"
  let ?opts = "cl_callOpts cl @ [RetryCallOption withRepeatable, RetryCallOption (withMax iterateRangeRetries)]"
  let ?co = "effective_options (ge_jitter G) (dial_stream_options (client_backoff G)) ?opts"
  obtain conn cc gs where conn: "cl_conn cl = Some conn" "ge_NewKVClient G conn = NewKVClient cc"
    and icpt: "intercepts_streams ?S (ge_jitter G) select (dial_stream_options (client_backoff G))
      scripted_raw script_open cc"
    and gs: "cl_callOpts cl = map GrpcCallOption gs"
    using constructed_streams [OF assms(1,2,4)] by blast
  have co: "?co = \<lparr>opt_retryPolicy = repeatable, opt_max = 5, opt_backoffFunc = client_backoff G,
    opt_retryAuth = True\<rparr>" unfolding gs by (simp add: effective_options_policies)
  then obtain s p hs sh1 where made: "c_IterateRange (NewKVClient cc) c req ?opts (hp, sh, k, scr, a) =
      (Ret (Inr (kVIterateRangeClient_Recv (retrying_methods ?S select scripted_raw s p))), (hp, sh1, Suc k, scr, a))"
    and s: "ss_ctx s = withVersion c" "ss_callOpts s = ?co"
      "ss_streamerCall s = (\<lambda>c. script_open KV_IterateRange_FullMethodName c hs)"
    and cell: "\<not> sc_receivedGood (sh_cells sh1 p)" "sc_ClientStream (sh_cells sh1 p) = k"
    using IterateRange_stream [OF icpt, of ?opts c req hp sh k scr a] by auto
  have quiet: "quiet select (ss_ctx s) (ss_callOpts s)" unfolding s
    by (rule undisturbed_quiet [OF assms(6) _ assms(7)]) (simp add: co)
  have retry: "retryable ?S (ss_callOpts s) (Some (StatusErr Unavailable m))" for m
    by (simp add: s co retryable_def isSafeRetry_StatusErr [OF assms(5)])
  have "n < unat (opt_max (ss_callOpts s))" using assms(10) by (simp add: s co)
  from iterate_stream [OF quiet retry s(3) this assms(11) cell, of f hp a]
    table_Iterate_eq [OF assms(8,9) made] conn assms(3) newClient_result [OF assms(1)]
  show ?thesis by (auto simp: client_KV_def)
qed

subsection \<open>A gRPC over scripted streams\<close>

fun stream_interceptors :: "('cert, 'x509, 'm, 'sc, 'w) DialOption list \<Rightarrow> 'w retryOption list list" where
  "stream_interceptors [] = []"
| "stream_interceptors (DStreamInterceptor fs # opts) = fs # stream_interceptors opts"
| "stream_interceptors (opt # opts) = stream_interceptors opts"

lemma stream_interceptors_append:
  "stream_interceptors (xs @ ys) = stream_interceptors xs @ stream_interceptors ys"
  by (induction xs rule: stream_interceptors.induct) simp_all

lemma stream_interceptors_credentials: "set xs \<subseteq> {DPerRPCCredentials} \<Longrightarrow> stream_interceptors xs = []"
  by (induction xs) auto

definition streaming :: "'a script_world retryOption list \<Rightarrow> 'a script_world ClientConnInterface" where
  "streaming fs = \<lparr>cc_Invoke = (\<lambda>c meth req p opts w. (Ret (Some IoEOF), w)),
     cc_NewStream = (\<lambda>c cs meth opts w. stream_of doc_status (\<lambda>c d w. (False, w)) scripted_raw
       (streamClientInterceptor doc_status (\<lambda>d f w. (d, w)) fs c cs (script_open meth) opts w))\<rparr>"

definition streaming_grpc :: "(nat, nat, unit, unit, unit, 'a script_world retryOption list, unit,
    'a script_world) grpc_env" where
  "streaming_grpc = doc_env (\<lambda>opts. case rev (stream_interceptors opts) of [] \<Rightarrow> [] | fs # _ \<Rightarrow> fs)
     (\<lambda>fs. NewKVClient (streaming fs))"

lemma streaming_dials: "dials_streams streaming_grpc (\<lambda>c d w. (False, w)) scripted_raw script_open"
  unfolding dials_streams_def
  by (auto simp: streaming_grpc_def doc_env_def stream_interceptors_append stream_interceptors_credentials
      intercepts_streams_def streaming_def intro!: exI [of _ "streaming _"])

lemma streaming_undisturbed: "undisturbed streaming_grpc (\<lambda>c d w. (False, w))"
  by (simp add: undisturbed_def streaming_grpc_def doc_env_def)

lemma streaming_client:
  "\<exists>cl w1. newClient streaming_grpc (\<lambda>s. s) (\<lambda>eps. eps) wired_config w = (Ret (Inr cl), w1)"
  by (rule newClient_total [where opts = defaultCallOpts and hooks = "[]"])
    (simp_all add: wired_config_def zero_config_def client_callOpts_def processHooks_def streaming_grpc_def doc_env_def
      del: split_paired_Ex)

text \<open>The first two streams break, the third one delivers two messages; the consumer counts.\<close>

definition two_broken :: "nat \<Rightarrow> (err + RangeResponse) list" where
  "two_broken i = (if i < 2 then [Inl (StatusErr Unavailable ''down'')]
     else [Inr empty_RangeResponse, Inr empty_RangeResponse])"

definition no_streams :: "nat stream_heap" where
  "no_streams = \<lparr>sh_cells = (\<lambda>_. \<lparr>sc_ClientStream = 0, sc_bufferedSends = [], sc_receivedGood = False,
     sc_wasClosedSend = False\<rparr>), sh_next = 0\<rparr>"

theorem iterate_end_to_end_witness:
  "\<exists>cl w1 it w2 hp1 sh1 scr1.
    newClient streaming_grpc (\<lambda>s. s) (\<lambda>eps. eps) wired_config (empty_heap, no_streams, 0, two_broken, 0) =
      (Ret (Inr cl), w1) \<and>
    table_Iterate doc_status (kv_Table (client_KV streaming_grpc cl (the (cl_conn cl))) [7]) fresh_ctx [1]
      (opts_of []) (empty_heap, no_streams, 0, two_broken, 0) = (Ret (Some it, None), w2) \<and>
    iter_run it (consumer_yield (\<lambda>r e a. (True, Suc a))) w2 = Some (Ret (), (hp1, sh1, 3, scr1, 2))"
proof -
  let ?G = "streaming_grpc :: (nat, nat, unit, unit, unit, nat script_world retryOption list, unit,
    nat script_world) grpc_env"
  let ?w = "(empty_heap, no_streams, 0, two_broken, 0) :: nat script_world"
  obtain cl w1 where cl: "newClient ?G (\<lambda>s. s) (\<lambda>eps. eps) wired_config ?w = (Ret (Inr cl), w1)"
    using streaming_client by blast
  let ?x = "mkOp (zero_fields\<lparr>op_t := tIterateRange, op_key := Some [1]\<rparr>)"
  have x: "OpIterate [1] (opts_of []) = Ret ?x"
    by (simp add: OpIterate_def IsOptsWithPrefix_def NewOp_def zero_fields_def Let_def)
  obtain req where req: "toRangeRequest ?x [7] = Ret req"
    by (simp add: toRangeRequest_def zero_fields_def Let_def)
  have works: "works_after two_broken 0 2 [empty_RangeResponse, empty_RangeResponse]"
    by (simp add: works_after_def two_broken_def)
  have G: "ge_status ?G = doc_status" by (simp add: streaming_grpc_def doc_env_def)
  have cfg: "cf_DialOptions (wired_config :: (nat, nat, nat script_world) config) = []"
    "cf_Hooks (wired_config :: (nat, nat, nat script_world) config) = []"
    by (simp_all add: wired_config_def zero_config_def)
  from iterate_end_to_end [OF cl cfg(1) _ streaming_dials _ streaming_undisturbed _ x req _ works,
      where c = fresh_ctx and hp = empty_heap and sh = no_streams and a = 0 and f = "\<lambda>r e a. (True, Suc a)"]
  have "\<exists>it w2 hp1 sh1 scr1. table_Iterate doc_status (kv_Table (client_KV ?G cl (the (cl_conn cl))) [7]) fresh_ctx [1]
      (opts_of []) ?w = (Ret (Some it, None), w2) \<and>
    iter_run it (consumer_yield (\<lambda>r e a. (True, Suc a))) w2 = Some (Ret (), (hp1, sh1, 3, scr1, 2))"
    by (simp add: G cfg doc_status_ok fresh_ctx_def numeral_eq_Suc)
  with cl show ?thesis by blast
qed

end
