(* ===== verification/Wire_Format.thy ===== *)
theory Wire_Format
  imports Proto_Types
begin

text \<open>
  What the marshalling code of \<open>internal/proto\<close> (\<open>*_vtproto.pb.go\<close>) writes out again for every
  message and field: marshalling fills a buffer of the right size from its end, unmarshalling
  walks over the bytes with an index. The code a field expands to is here one function, used by
  the messages in \<open>Wire_Messages\<close>. The package \<open>protohelpers\<close> is not in the repository: it is a
  parameter, with its documented behaviour as the hypothesis \<open>helpers_ok\<close>. An index is a natural
  number where the code has just checked it, and a 64-bit word where the code's sums may wrap.
  Sizes are natural numbers: a buffer of \<open>2 ^ 63\<close> bytes cannot be made. What a varint gathers has
  the width of the variable it is gathered in.
\<close>

section \<open>Errors and the package protohelpers\<close>

datatype wire_error =
  ErrIntOverflow | ErrUnexpectedEOF | ErrInvalidLength
  | EndGroup string | IllegalTag string int32 uint64 | WrongWireType nat string | SkipFailed string

record protohelpers =
  ph_EncodeVarint :: "bytes \<Rightarrow> int \<Rightarrow> uint64 \<Rightarrow> (bytes \<times> int) go"
  ph_SizeOfVarint :: "uint64 \<Rightarrow> nat"
  ph_Skip :: "bytes \<Rightarrow> (wire_error + int64) go"

text \<open>The varint encoding of the protobuf specification: seven bits in a byte, the lowest first.\<close>

function varint :: "uint64 \<Rightarrow> bytes" where
  "varint v = (if v < 0x80 then [ucast v] else ((ucast v AND 0x7F) OR 0x80) # varint (drop_bit 7 v))"
  by auto

lemma drop_7_less: "\<not> (v :: uint64) < 0x80 \<Longrightarrow> unat (drop_bit 7 v) < unat v"
  by (simp add: word_less_nat_alt drop_bit_eq_div unat_div)

termination varint
  by (relation "measure unat") (simp_all add: drop_7_less)

declare varint.simps [simp del]

text \<open>
  \<open>EncodeVarint\<close> writes the encoding so that it ends before the offset, and returns the offset of
  its start; \<open>SizeOfVarint\<close> is its length; \<open>Skip\<close> returns the length of the first field of the
  bytes, which is not zero, or an error.
\<close>

definition helpers_ok :: "protohelpers \<Rightarrow> bool" where
  "helpers_ok H \<longleftrightarrow>
     (\<forall>v. ph_SizeOfVarint H v = length (varint v)) \<and>
     (\<forall>pre old rest v. length old = length (varint v) \<longrightarrow>
        ph_EncodeVarint H (pre @ old @ rest) (int (length pre + length old)) v =
          Ret (pre @ varint v @ rest, int (length pre))) \<and>
     (\<forall>d. d \<noteq> [] \<and> length d < 2 ^ 63 \<longrightarrow> (\<exists>r. ph_Skip H d = Ret r \<and> (\<forall>n. r = Inr n \<longrightarrow> 0 <s n)))"

section \<open>Marshalling\<close>

text \<open>\<open>copy(dAtA[i:], xs)\<close> and \<open>dAtA[i] = b\<close>, after \<open>i\<close> has been decremented.\<close>

definition bounds_error :: string where
  "bounds_error = ''runtime error: slice bounds out of range''"

definition copy_at :: "bytes \<Rightarrow> bytes \<times> int \<Rightarrow> (bytes \<times> int) go" where
  "copy_at xs st = (case st of (d, i) \<Rightarrow>
     let i1 = i - int (length xs) in
     if i1 < 0 \<or> int (length d) < i1 then Panic bounds_error
     else Ret (take (nat i1) d @ take (length d - nat i1) xs @ drop (nat i1 + length xs) d, i1))"

definition put_byte :: "byte \<Rightarrow> bytes \<times> int \<Rightarrow> (bytes \<times> int) go" where
  "put_byte b st = (case st of (d, i) \<Rightarrow>
     let i1 = i - 1 in
     if i1 < 0 \<or> int (length d) \<le> i1 then Panic bounds_error else Ret (d[nat i1 := b], i1))"

definition put_varint :: "protohelpers \<Rightarrow> uint64 \<Rightarrow> bytes \<times> int \<Rightarrow> (bytes \<times> int) go" where
  "put_varint H v st = (case st of (d, i) \<Rightarrow> ph_EncodeVarint H d i v)"

text \<open>The code of a field; \<open>tag\<close> is its number and wire type in one byte.\<close>

definition put_int_field :: "protohelpers \<Rightarrow> byte \<Rightarrow> uint64 \<Rightarrow> bytes \<times> int \<Rightarrow> (bytes \<times> int) go" where
  "put_int_field H tag v st =
     (if v \<noteq> 0 then go_bind (put_varint H v st) (put_byte tag) else Ret st)"

definition put_bool_field :: "byte \<Rightarrow> bool \<Rightarrow> bytes \<times> int \<Rightarrow> (bytes \<times> int) go" where
  "put_bool_field tag b st =
     (if b then go_bind (put_byte (if b then 1 else 0) st) (put_byte tag) else Ret st)"

definition put_enum_field :: "protohelpers \<Rightarrow> byte \<Rightarrow> int32 \<Rightarrow> bytes \<times> int \<Rightarrow> (bytes \<times> int) go" where
  "put_enum_field H tag v st =
     (if v \<noteq> 0 then go_bind (put_varint H (scast v) st) (put_byte tag) else Ret st)"

definition put_bytes :: "protohelpers \<Rightarrow> byte \<Rightarrow> slice \<Rightarrow> bytes \<times> int \<Rightarrow> (bytes \<times> int) go" where
  "put_bytes H tag s st =
     go_bind (copy_at (slice_bytes s) st) (\<lambda>st1.
       go_bind (put_varint H (of_nat (slice_len s)) st1) (put_byte tag))"

definition put_bytes_field :: "protohelpers \<Rightarrow> byte \<Rightarrow> slice \<Rightarrow> bytes \<times> int \<Rightarrow> (bytes \<times> int) go" where
  "put_bytes_field H tag s st = (if 0 < slice_len s then put_bytes H tag s st else Ret st)"

text \<open>A field with a number above 15 has a tag of two bytes.\<close>

definition put_bytes_field2 ::
  "protohelpers \<Rightarrow> byte \<Rightarrow> byte \<Rightarrow> slice \<Rightarrow> bytes \<times> int \<Rightarrow> (bytes \<times> int) go" where
  "put_bytes_field2 H tag1 tag2 s st =
     (if 0 < slice_len s then go_bind (put_bytes H tag2 s st) (put_byte tag1) else Ret st)"

text \<open>
  A nested message marshals itself into \<open>dAtA[:i]\<close>, which shares its memory with \<open>dAtA\<close>, and
  returns its size. (An error of it would be passed on, but no function of the generated code
  makes one: the error results are nil throughout and have no counterpart here.)
\<close>

definition put_msg :: "protohelpers \<Rightarrow> byte \<Rightarrow> (bytes \<Rightarrow> (int \<times> bytes) go) \<Rightarrow> bytes \<times> int \<Rightarrow> (bytes \<times> int) go" where
  "put_msg H tag marshal st = (case st of (d, i) \<Rightarrow>
     if i < 0 \<or> int (length d) < i then Panic bounds_error
     else go_bind (marshal (take (nat i) d)) (\<lambda>(n, d1).
            go_bind (put_varint H (of_int n) (d1 @ drop (nat i) d, i - n)) (put_byte tag)))"

definition put_msg_field ::
  "protohelpers \<Rightarrow> byte \<Rightarrow> ('m option \<Rightarrow> bytes \<Rightarrow> (int \<times> bytes) go) \<Rightarrow> 'm option \<Rightarrow> bytes \<times> int \<Rightarrow>
     (bytes \<times> int) go" where
  "put_msg_field H tag marshal m st = (if m \<noteq> None then put_msg H tag (marshal m) st else Ret st)"

text \<open>A oneof has the bytes of its wrapper, which writes the tag and the length itself.\<close>

definition put_oneof :: "('x \<Rightarrow> bytes \<Rightarrow> (int \<times> bytes) go) \<Rightarrow> 'x option \<Rightarrow> bytes \<times> int \<Rightarrow> (bytes \<times> int) go" where
  "put_oneof marshal r st = (case r of None \<Rightarrow> Ret st | Some x \<Rightarrow>
     (case st of (d, i) \<Rightarrow>
        if i < 0 \<or> int (length d) < i then Panic bounds_error
        else go_bind (marshal x (take (nat i) d)) (\<lambda>(n, d1). Ret (d1 @ drop (nat i) d, i - n))))"

text \<open>A repeated field is written from its last element to its first.\<close>

fun put_msgs_loop where
  "put_msgs_loop H tag marshal [] st = Ret st"
| "put_msgs_loop H tag marshal (m # ms) st =
     go_bind (put_msg H tag (marshal m) st) (put_msgs_loop H tag marshal ms)"

definition put_msgs_field ::
  "protohelpers \<Rightarrow> byte \<Rightarrow> ('m \<Rightarrow> bytes \<Rightarrow> (int \<times> bytes) go) \<Rightarrow> 'm list \<Rightarrow> bytes \<times> int \<Rightarrow> (bytes \<times> int) go" where
  "put_msgs_field H tag marshal ms st =
     (if 0 < length ms then put_msgs_loop H tag marshal (rev ms) st else Ret st)"

text \<open>\<open>MarshalToSizedBufferVT\<close>: the code of the fields in its order, and the size of the result.\<close>

fun put_all :: "(bytes \<times> int \<Rightarrow> (bytes \<times> int) go) list \<Rightarrow> bytes \<times> int \<Rightarrow> (bytes \<times> int) go" where
  "put_all [] st = Ret st"
| "put_all (f # fs) st = go_bind (f st) (put_all fs)"

definition marshal_sized :: "(bytes \<times> int \<Rightarrow> (bytes \<times> int) go) list \<Rightarrow> bytes \<Rightarrow> (int \<times> bytes) go" where
  "marshal_sized fs d =
     go_bind (put_all fs (d, int (length d))) (\<lambda>(d1, i). Ret (int (length d1) - i, d1))"

text \<open>\<open>MarshalVT\<close>: nil for a nil message, otherwise the bytes of a fresh buffer of its size.\<close>

definition marshal_vt :: "('m option \<Rightarrow> nat) \<Rightarrow> ('m option \<Rightarrow> bytes \<Rightarrow> (int \<times> bytes) go) \<Rightarrow> 'm option \<Rightarrow> slice go" where
  "marshal_vt sizeVT sized m =
     (if m = None then Ret None
      else go_bind (sized m (replicate (sizeVT m) 0)) (\<lambda>(n, d).
        if n < 0 \<or> int (length d) < n then Panic bounds_error else Ret (Some (take (nat n) d))))"

text \<open>The sizes of the fields.\<close>

definition size_int_field :: "protohelpers \<Rightarrow> uint64 \<Rightarrow> nat" where
  "size_int_field H v = (if v \<noteq> 0 then 1 + ph_SizeOfVarint H v else 0)"

definition size_enum_field :: "protohelpers \<Rightarrow> int32 \<Rightarrow> nat" where
  "size_enum_field H v = (if v \<noteq> 0 then 1 + ph_SizeOfVarint H (scast v) else 0)"

definition size_bool_field :: "bool \<Rightarrow> nat" where
  "size_bool_field b = (if b then 2 else 0)"

definition size_len :: "protohelpers \<Rightarrow> nat \<Rightarrow> nat" where
  "size_len H l = 1 + l + ph_SizeOfVarint H (of_nat l)"

definition size_bytes_field :: "protohelpers \<Rightarrow> slice \<Rightarrow> nat" where
  "size_bytes_field H s = (if 0 < slice_len s then size_len H (slice_len s) else 0)"

definition size_bytes_field2 :: "protohelpers \<Rightarrow> slice \<Rightarrow> nat" where
  "size_bytes_field2 H s =
     (if 0 < slice_len s then 2 + slice_len s + ph_SizeOfVarint H (of_nat (slice_len s)) else 0)"

definition size_msg_field :: "protohelpers \<Rightarrow> ('m option \<Rightarrow> nat) \<Rightarrow> 'm option \<Rightarrow> nat" where
  "size_msg_field H sizeVT m = (if m \<noteq> None then size_len H (sizeVT m) else 0)"

definition size_oneof :: "('x \<Rightarrow> nat) \<Rightarrow> 'x option \<Rightarrow> nat" where
  "size_oneof sizeVT r = (case r of None \<Rightarrow> 0 | Some x \<Rightarrow> sizeVT x)"

definition size_msgs_field :: "protohelpers \<Rightarrow> ('m \<Rightarrow> nat) \<Rightarrow> 'm list \<Rightarrow> nat" where
  "size_msgs_field H sizeVT ms = (if 0 < length ms then (\<Sum>m\<leftarrow>ms. size_len H (sizeVT m)) else 0)"

section \<open>Unmarshalling\<close>

text \<open>
  The loop that reads a varint: what it has gathered is returned with an error too, since the
  code gathers into the field of the message. The width is that of the field.
\<close>

function varint_loop :: "bytes \<Rightarrow> nat \<Rightarrow> nat \<Rightarrow> 'w::len word \<Rightarrow> wire_error option \<times> 'w word \<times> nat" where
  "varint_loop d shift i v =
     (if 64 \<le> shift then (Some ErrIntOverflow, v, i)
      else if length d \<le> i then (Some ErrUnexpectedEOF, v, i)
      else let b = d ! i; v1 = v OR push_bit shift (ucast (b AND 0x7F))
           in if b < 0x80 then (None, v1, i + 1) else varint_loop d (shift + 7) (i + 1) v1)"
  by auto
termination varint_loop
  by (relation "measure (\<lambda>(d, shift, i, v). 64 - shift)") auto

declare varint_loop.simps [simp del]

text \<open>A length, and the index after the bytes it announces: checked, with the sum at its width.\<close>

definition read_len :: "bytes \<Rightarrow> nat \<Rightarrow> wire_error + nat \<times> nat" where
  "read_len d i = (case varint_loop d 0 i 0 of
     (Some e, n, j) \<Rightarrow> Inl e
   | (None, n, j) \<Rightarrow>
       if n <s 0 then Inl ErrInvalidLength
       else let postIndex = of_nat j + n :: int64 in
         if postIndex <s 0 then Inl ErrInvalidLength
         else if int (length d) < sint postIndex then Inl ErrUnexpectedEOF
         else Inr (j, unat postIndex))"

definition slice_range :: "bytes \<Rightarrow> nat \<Rightarrow> nat \<Rightarrow> bytes go" where
  "slice_range d a b = (if a \<le> b \<and> b \<le> length d then Ret (take (b - a) (drop a d)) else Panic bounds_error)"

text \<open>
  What the code of a field does to the message and to the index, or how it ends the function. A
  nested message may not come to an end: \<open>None\<close>.
\<close>

type_synonym 'm field_result = "(wire_error option go \<times> 'm \<times> nat) option"

definition field_int :: "string \<Rightarrow> (uint64 \<Rightarrow> 'm \<Rightarrow> 'm) \<Rightarrow> nat \<Rightarrow> bytes \<Rightarrow> nat \<Rightarrow> 'm \<Rightarrow> 'm field_result" where
  "field_int name upd wireType d i m =
     (if wireType \<noteq> 0 then Some (Ret (Some (WrongWireType wireType name)), m, i)
      else case varint_loop d 0 i 0 of (e, v, j) \<Rightarrow> Some (Ret e, upd v m, j))"

definition field_enum :: "string \<Rightarrow> (int32 \<Rightarrow> 'm \<Rightarrow> 'm) \<Rightarrow> nat \<Rightarrow> bytes \<Rightarrow> nat \<Rightarrow> 'm \<Rightarrow> 'm field_result" where
  "field_enum name upd wireType d i m =
     (if wireType \<noteq> 0 then Some (Ret (Some (WrongWireType wireType name)), m, i)
      else case varint_loop d 0 i 0 of (e, v, j) \<Rightarrow> Some (Ret e, upd v m, j))"

definition field_bool :: "string \<Rightarrow> (bool \<Rightarrow> 'm \<Rightarrow> 'm) \<Rightarrow> nat \<Rightarrow> bytes \<Rightarrow> nat \<Rightarrow> 'm \<Rightarrow> 'm field_result" where
  "field_bool name upd wireType d i m =
     (if wireType \<noteq> 0 then Some (Ret (Some (WrongWireType wireType name)), m, i)
      else case varint_loop d 0 i (0 :: int64) of
        (Some e, v, j) \<Rightarrow> Some (Ret (Some e), m, j)
      | (None, v, j) \<Rightarrow> Some (Ret None, upd (v \<noteq> 0) m, j))"

definition field_bytes :: "string \<Rightarrow> (slice \<Rightarrow> 'm \<Rightarrow> 'm) \<Rightarrow> nat \<Rightarrow> bytes \<Rightarrow> nat \<Rightarrow> 'm \<Rightarrow> 'm field_result" where
  "field_bytes name upd wireType d i m =
     (if wireType \<noteq> 2 then Some (Ret (Some (WrongWireType wireType name)), m, i)
      else case read_len d i of
        Inl e \<Rightarrow> Some (Ret (Some e), m, i)
      | Inr (j, postIndex) \<Rightarrow>
          (case slice_range d j postIndex of
             Panic p \<Rightarrow> Some (Panic p, m, j)
           | Ret bs \<Rightarrow> Some (Ret None, upd (Some bs) m, postIndex)))"

definition field_msg ::
  "string \<Rightarrow> ('m \<Rightarrow> 'x) \<Rightarrow> ('x \<Rightarrow> 'm \<Rightarrow> 'm) \<Rightarrow> ('x \<Rightarrow> bytes \<Rightarrow> (wire_error option go \<times> 'x) option) \<Rightarrow>
     nat \<Rightarrow> bytes \<Rightarrow> nat \<Rightarrow> 'm \<Rightarrow> 'm field_result" where
  "field_msg name target upd unmarshal wireType d i m =
     (if wireType \<noteq> 2 then Some (Ret (Some (WrongWireType wireType name)), m, i)
      else case read_len d i of
        Inl e \<Rightarrow> Some (Ret (Some e), m, i)
      | Inr (j, postIndex) \<Rightarrow>
          (case slice_range d j postIndex of
             Panic p \<Rightarrow> Some (Panic p, upd (target m) m, j)
           | Ret bs \<Rightarrow>
               (case unmarshal (target m) bs of
                  None \<Rightarrow> None
                | Some (r, x) \<Rightarrow> Some (r, upd x m, if r = Ret None then postIndex else j))))"

text \<open>
  An alternative of a oneof: read into the message there is when it is this alternative, into a
  new one, which is only kept when it has been read, otherwise.
\<close>

definition field_oneof ::
  "string \<Rightarrow> ('m \<Rightarrow> 'x option) \<Rightarrow> 'x \<Rightarrow> ('x \<Rightarrow> 'm \<Rightarrow> 'm) \<Rightarrow>
     ('x \<Rightarrow> bytes \<Rightarrow> (wire_error option go \<times> 'x) option) \<Rightarrow> nat \<Rightarrow> bytes \<Rightarrow> nat \<Rightarrow> 'm \<Rightarrow> 'm field_result" where
  "field_oneof name current new upd unmarshal wireType d i m =
     (if wireType \<noteq> 2 then Some (Ret (Some (WrongWireType wireType name)), m, i)
      else case read_len d i of
        Inl e \<Rightarrow> Some (Ret (Some e), m, i)
      | Inr (j, postIndex) \<Rightarrow>
          (case slice_range d j postIndex of
             Panic p \<Rightarrow> Some (Panic p, m, j)
           | Ret bs \<Rightarrow>
               (case current m of
                  Some x \<Rightarrow>
                    (case unmarshal x bs of
                       None \<Rightarrow> None
                     | Some (r, y) \<Rightarrow> Some (r, upd y m, if r = Ret None then postIndex else j))
                | None \<Rightarrow>
                    (case unmarshal new bs of
                       None \<Rightarrow> None
                     | Some (r, y) \<Rightarrow>
                         if r = Ret None then Some (r, upd y m, postIndex) else Some (r, m, j)))))"

text \<open>
  The loop of \<open>UnmarshalVT\<close>: the tag, the code of the field (\<open>field\<close>, which gives \<open>None\<close> for a
  number it does not know), and the unknown fields, which are kept.
\<close>

partial_function (option) decode_loop ::
  "protohelpers \<Rightarrow> string \<Rightarrow> (nat \<Rightarrow> (nat \<Rightarrow> bytes \<Rightarrow> nat \<Rightarrow> 'm \<Rightarrow> 'm field_result) option) \<Rightarrow>
     (bytes \<Rightarrow> 'm \<Rightarrow> 'm) \<Rightarrow> bytes \<Rightarrow> nat \<Rightarrow> 'm \<Rightarrow> (wire_error option go \<times> 'm) option" where
  "decode_loop H name field add_unknown d i m =
     (if i < length d then
        (case varint_loop d 0 i 0 of
           (Some e, wire, j) \<Rightarrow> Some (Ret (Some e), m)
         | (None, wire, j) \<Rightarrow>
             let fieldNum = ucast (drop_bit 3 wire) :: int32; wireType = unat (wire AND 0x7) in
             if wireType = 4 then Some (Ret (Some (EndGroup name)), m)
             else if fieldNum \<le>s 0 then Some (Ret (Some (IllegalTag name fieldNum wire)), m)
             else (case field (unat fieldNum) of
                Some f \<Rightarrow> Option.bind (f wireType d j m) (\<lambda>(r, m1, k).
                  if r = Ret None then decode_loop H name field add_unknown d k m1 else Some (r, m1))
              | None \<Rightarrow>
                  (case ph_Skip H (drop i d) of
                     Panic p \<Rightarrow> Some (Panic p, m)
                   | Ret (Inl e) \<Rightarrow> Some (Ret (Some e), m)
                   | Ret (Inr skippy) \<Rightarrow>
                       let next = of_nat i + skippy :: int64 in
                       if skippy <s 0 \<or> next <s 0 then Some (Ret (Some ErrInvalidLength), m)
                       else if int (length d) < sint next then Some (Ret (Some ErrUnexpectedEOF), m)
                       else (case slice_range d i (unat next) of
                          Panic p \<Rightarrow> Some (Panic p, m)
                        | Ret bs \<Rightarrow> decode_loop H name field add_unknown d (unat next) (add_unknown bs m)))))
      else if length d < i then Some (Ret (Some ErrUnexpectedEOF), m)
      else Some (Ret None, m))"

section \<open>The encoding, from front to back\<close>

definition wire_int :: "byte \<Rightarrow> uint64 \<Rightarrow> bytes" where
  "wire_int tag v = (if v = 0 then [] else tag # varint v)"

definition wire_enum :: "byte \<Rightarrow> int32 \<Rightarrow> bytes" where
  "wire_enum tag v = (if v = 0 then [] else tag # varint (scast v))"

definition wire_bool :: "byte \<Rightarrow> bool \<Rightarrow> bytes" where
  "wire_bool tag b = (if b then [tag, 1] else [])"

definition wire_len :: "byte \<Rightarrow> bytes \<Rightarrow> bytes" where
  "wire_len tag bs = tag # varint (of_nat (length bs)) @ bs"

definition wire_bytes :: "byte \<Rightarrow> slice \<Rightarrow> bytes" where
  "wire_bytes tag s = (if slice_bytes s = [] then [] else wire_len tag (slice_bytes s))"

definition wire_bytes2 :: "byte \<Rightarrow> byte \<Rightarrow> slice \<Rightarrow> bytes" where
  "wire_bytes2 tag1 tag2 s = (if slice_bytes s = [] then [] else tag1 # wire_len tag2 (slice_bytes s))"

definition wire_msg :: "byte \<Rightarrow> ('m option \<Rightarrow> bytes) \<Rightarrow> 'm option \<Rightarrow> bytes" where
  "wire_msg tag wire m = (if m = None then [] else wire_len tag (wire m))"

definition wire_msgs :: "byte \<Rightarrow> ('m \<Rightarrow> bytes) \<Rightarrow> 'm list \<Rightarrow> bytes" where
  "wire_msgs tag wire ms = concat (map (\<lambda>m. wire_len tag (wire m)) ms)"

section \<open>Marshalling writes the encoding\<close>

text \<open>\<open>f\<close> writes \<open>xs\<close> over the bytes just before the index, whatever they are.\<close>

definition prepends :: "(bytes \<times> int \<Rightarrow> (bytes \<times> int) go) \<Rightarrow> bytes \<Rightarrow> bool" where
  "prepends f xs \<longleftrightarrow> (\<forall>pre old rest. length old = length xs \<longrightarrow>
     f (pre @ old @ rest, int (length pre + length old)) = Ret (pre @ xs @ rest, int (length pre)))"

lemma prependsD:
  "prepends f xs \<Longrightarrow> length old = length xs \<Longrightarrow>
     f (pre @ old @ rest, int (length pre + length old)) = Ret (pre @ xs @ rest, int (length pre))"
  by (simp add: prepends_def)

named_theorems prepends_intros

lemma prepends_Ret [prepends_intros]: "prepends Ret []"
  by (simp add: prepends_def)

lemma prepends_bind:
  assumes "prepends f xs" and "prepends g ys"
  shows "prepends (\<lambda>st. go_bind (f st) g) (ys @ xs)"
  unfolding prepends_def
proof (intro allI impI)
  fix pre old rest :: bytes
  assume "length old = length (ys @ xs)"
  then have old: "length (take (length ys) old) = length ys" "length (drop (length ys) old) = length xs"
    "take (length ys) old @ drop (length ys) old = old" by simp_all
  from prependsD [OF assms(1) old(2), of "pre @ take (length ys) old" rest] old(1,2)
  have "f (pre @ old @ rest, int (length pre + length old)) =
      Ret (pre @ take (length ys) old @ xs @ rest, int (length pre + length (take (length ys) old)))"
    by (simp flip: append_assoc) (simp add: \<open>length old = length (ys @ xs)\<close> old(3) add.assoc)
  with prependsD [OF assms(2) old(1), of pre "xs @ rest"]
  show "go_bind (f (pre @ old @ rest, int (length pre + length old))) g =
      Ret (pre @ (ys @ xs) @ rest, int (length pre))" by simp
qed

lemma prepends_copy [prepends_intros]: "prepends (copy_at xs) xs"
  by (simp add: prepends_def copy_at_def Let_def)

lemma prepends_byte [prepends_intros]: "prepends (put_byte b) [b]"
  by (auto simp: prepends_def put_byte_def Let_def length_Suc_conv)

lemma prepends_varint [prepends_intros]: "helpers_ok H \<Longrightarrow> prepends (put_varint H v) (varint v)"
  by (simp add: prepends_def put_varint_def helpers_ok_def)

text \<open>The code of each field.\<close>

lemma prepends_int_field [prepends_intros]:
  "helpers_ok H \<Longrightarrow> prepends (put_int_field H tag v) (wire_int tag v)"
  using prepends_bind [OF prepends_varint prepends_byte, of H v tag] prepends_Ret
  by (simp add: put_int_field_def [abs_def] wire_int_def)

lemma prepends_bool_field [prepends_intros]: "prepends (put_bool_field tag b) (wire_bool tag b)"
  using prepends_bind [OF prepends_byte prepends_byte, of 1 tag] prepends_Ret
  by (simp add: put_bool_field_def [abs_def] wire_bool_def)

lemma prepends_enum_field [prepends_intros]:
  "helpers_ok H \<Longrightarrow> prepends (put_enum_field H tag v) (wire_enum tag v)"
  using prepends_bind [OF prepends_varint prepends_byte, of H "scast v" tag] prepends_Ret
  by (simp add: put_enum_field_def [abs_def] wire_enum_def)

lemma prepends_bytes [prepends_intros]:
  assumes "helpers_ok H"
  shows "prepends (put_bytes H tag s) (wire_len tag (slice_bytes s))"
  using prepends_bind [OF prepends_copy prepends_bind [OF prepends_varint [OF assms] prepends_byte],
      of "slice_bytes s" "of_nat (slice_len s)" tag]
  by (simp add: put_bytes_def [abs_def] wire_len_def slice_len_def)

lemma prepends_bytes_field [prepends_intros]:
  "helpers_ok H \<Longrightarrow> prepends (put_bytes_field H tag s) (wire_bytes tag s)"
  using prepends_bytes prepends_Ret
  by (simp add: put_bytes_field_def [abs_def] wire_bytes_def slice_len_def)

lemma prepends_bytes_field2 [prepends_intros]:
  "helpers_ok H \<Longrightarrow> prepends (put_bytes_field2 H tag1 tag2 s) (wire_bytes2 tag1 tag2 s)"
  using prepends_bind [OF prepends_bytes prepends_byte, of H tag2 s tag1] prepends_Ret
  by (simp add: put_bytes_field2_def [abs_def] wire_bytes2_def slice_len_def)

text \<open>A message marshals itself as \<open>xs\<close>, at the end of any buffer that is large enough.\<close>

definition marshals :: "(bytes \<Rightarrow> (int \<times> bytes) go) \<Rightarrow> bytes \<Rightarrow> bool" where
  "marshals f xs \<longleftrightarrow> (\<forall>pre old. length old = length xs \<longrightarrow> f (pre @ old) = Ret (int (length xs), pre @ xs))"

lemma prepends_msg:
  assumes "helpers_ok H" and "marshals f xs"
  shows "prepends (put_msg H tag f) (wire_len tag xs)"
  unfolding prepends_def
proof (intro allI impI)
  fix pre old rest :: bytes
  let ?v = "put_varint H (of_nat (length xs))" and ?t = "[tag] @ varint (of_nat (length xs))"
  assume len: "length old = length (wire_len tag xs)"
  have tag: "prepends (\<lambda>st. go_bind (?v st) (put_byte tag)) ?t"
    by (rule prepends_bind [OF prepends_varint [OF assms(1)] prepends_byte])
  obtain a b where old: "old = a @ b" "length a = length ?t" "length b = length xs"
    using len that [of "take (length ?t) old" "drop (length ?t) old"] by (simp add: wire_len_def)
  have i: "nat (int (length pre + length old)) = length (pre @ a @ b)" by (simp add: old(1))
  have f: "f (pre @ a @ b) = Ret (int (length xs), pre @ a @ xs)"
    using assms(2) [unfolded marshals_def, rule_format, OF old(3), of "pre @ a"] by simp
  have "put_msg H tag f (pre @ old @ rest, int (length pre + length old)) =
      go_bind (?v (pre @ a @ xs @ rest, int (length pre + length a))) (put_byte tag)"
    unfolding put_msg_def using f old by (simp add: i nat_int_add del: nat_int)
  with prependsD [OF tag old(2), of pre "xs @ rest"]
  show "put_msg H tag f (pre @ old @ rest, int (length pre + length old)) =
      Ret (pre @ wire_len tag xs @ rest, int (length pre))" by (simp add: wire_len_def)
qed

lemma prepends_msg_field [prepends_intros]:
  assumes "helpers_ok H" and "marshals (f m) (wire m)"
  shows "prepends (put_msg_field H tag f m) (wire_msg tag wire m)"
  using prepends_msg [OF assms] prepends_Ret by (simp add: put_msg_field_def [abs_def] wire_msg_def)

lemma prepends_oneof [prepends_intros]:
  assumes "\<And>x. r = Some x \<Longrightarrow> marshals (f x) (wire x)"
  shows "prepends (put_oneof f r) (case r of None \<Rightarrow> [] | Some x \<Rightarrow> wire x)"
proof (cases r)
  case None
  then show ?thesis using prepends_Ret by (simp add: put_oneof_def [abs_def])
next
  case (Some x)
  then have "f x (pre @ old) = Ret (int (length (wire x)), pre @ wire x)"
    if "length old = length (wire x)" for pre old
    using assms [OF Some] that by (simp add: marshals_def)
  moreover have "nat (int (length pre + length old)) = length (pre @ old)" for pre old :: bytes by simp
  ultimately show ?thesis using Some
    by (simp add: prepends_def put_oneof_def nat_int_add del: nat_int)
qed

lemma prepends_msgs_loop:
  assumes "helpers_ok H" and "\<And>m. m \<in> set ms \<Longrightarrow> marshals (f m) (wire m)"
  shows "prepends (put_msgs_loop H tag f ms) (wire_msgs tag wire (rev ms))"
  using assms(2)
proof (induction ms)
  case Nil
  then show ?case using prepends_Ret by (simp add: wire_msgs_def put_msgs_loop.simps [abs_def])
next
  case (Cons m ms)
  then have "prepends (\<lambda>st. go_bind (put_msg H tag (f m) st) (put_msgs_loop H tag f ms))
      (wire_msgs tag wire (rev ms) @ wire_len tag (wire m))"
    by (intro prepends_bind prepends_msg [OF assms(1)]) auto
  then show ?case by (simp add: wire_msgs_def put_msgs_loop.simps [abs_def])
qed

lemma prepends_msgs_field [prepends_intros]:
  assumes "helpers_ok H" and "\<And>m. m \<in> set ms \<Longrightarrow> marshals (f m) (wire m)"
  shows "prepends (put_msgs_field H tag f ms) (wire_msgs tag wire ms)"
  using prepends_msgs_loop [OF assms(1), of "rev ms" f wire tag] assms(2) prepends_Ret
  by (cases "ms = []") (auto simp: put_msgs_field_def [abs_def] wire_msgs_def)

lemma prepends_all: "list_all2 prepends fs xss \<Longrightarrow> prepends (put_all fs) (concat (rev xss))"
proof (induction rule: list_all2_induct)
  case Nil
  then show ?case using prepends_Ret by (simp add: put_all.simps [abs_def])
next
  case (Cons f fs xs xss)
  from prepends_bind [OF Cons(1,3)] show ?case by (simp add: put_all.simps [abs_def])
qed

lemma marshals_sized:
  assumes "list_all2 prepends fs xss"
  shows "marshals (marshal_sized fs) (concat (rev xss))"
  using prependsD [OF prepends_all [OF assms], where rest = "[]"] by (simp add: marshals_def marshal_sized_def)

lemma marshals_fields:
  "list_all2 prepends fs xss \<Longrightarrow> concat (rev xss) = xs \<Longrightarrow> marshals (marshal_sized fs) xs"
  using marshals_sized by blast

lemma marshals_nil: "marshals (\<lambda>d. Ret (0, d)) []"
  by (simp add: marshals_def)

lemma marshal_vt_writes:
  assumes "marshals (f (Some m)) xs" and "sizeVT (Some m) = length xs"
  shows "marshal_vt sizeVT f (Some m) = Ret (Some xs)"
  using assms(1) [unfolded marshals_def, rule_format, of "replicate (length xs) 0" "[]"] assms(2)
  by (simp add: marshal_vt_def)

text \<open>The sizes of the fields are those of their encodings.\<close>

lemma size_fields:
  assumes "helpers_ok H"
  shows "size_int_field H v = length (wire_int tag v)" "size_bool_field b = length (wire_bool tag b)"
    "size_bytes_field H s = length (wire_bytes tag s)" "size_enum_field H k = length (wire_enum tag k)"
    "size_bytes_field2 H s = length (wire_bytes2 tag tag2 s)"
  using assms by (auto simp: size_int_field_def wire_int_def size_bool_field_def wire_bool_def
      size_bytes_field_def size_len_def wire_bytes_def wire_len_def slice_len_def
      size_enum_field_def wire_enum_def size_bytes_field2_def wire_bytes2_def
      helpers_ok_def)

lemma size_msg:
  assumes "helpers_ok H" and "\<And>m. sizeOf m = length (wire m)"
  shows "size_msg_field H sizeOf m = length (wire_msg tag wire m)"
  using assms by (simp add: size_msg_field_def size_len_def wire_msg_def wire_len_def helpers_ok_def)

lemma size_msgs:
  assumes "helpers_ok H" and "\<And>m. m \<in> set ms \<Longrightarrow> sizeOf m = length (wire m)"
  shows "size_msgs_field H sizeOf ms = length (wire_msgs tag wire ms)"
proof -
  have "(\<Sum>m\<leftarrow>ms. size_len H (sizeOf m)) = length (concat (map (\<lambda>m. wire_len tag (wire m)) ms))"
    using assms(2) by (induction ms) (auto simp: size_len_def wire_len_def assms(1) [unfolded helpers_ok_def])
  then show ?thesis by (simp add: size_msgs_field_def wire_msgs_def)
qed

end
