(* ===== verification/Wire_Messages.thy ===== *)
theory Wire_Messages
  imports Wire_Format
begin

text \<open>
  Marshalling and unmarshalling of the messages of reads, puts and deletions, alone and as the
  operations of a transaction (\<open>mvcc_vtproto.pb.go\<close> and \<open>regatta_vtproto.pb.go\<close> of \<open>internal/proto\<close>): for each message its
  size, what is written and in which order, and the fields unmarshalling knows. A nil message
  is \<open>None\<close>; unmarshalling has a message as its receiver, which it changes.
\<close>

section \<open>KeyValue\<close>

definition new_KeyValue :: KeyValue where
  "new_KeyValue = \<lparr>kv_Key = None, kv_CreateRevision = 0, kv_ModRevision = 0, kv_Value = None,
     kv_unknownFields = []\<rparr>"

definition KeyValue_SizeVT :: "protohelpers \<Rightarrow> KeyValue option \<Rightarrow> nat" where
  "KeyValue_SizeVT H m = (case m of None \<Rightarrow> 0 | Some m \<Rightarrow>
     size_bytes_field H (kv_Key m) + size_int_field H (kv_CreateRevision m) +
     size_int_field H (kv_ModRevision m) + size_bytes_field H (kv_Value m) +
     length (kv_unknownFields m))"

definition KeyValue_MarshalToSizedBufferVT ::
  "protohelpers \<Rightarrow> KeyValue option \<Rightarrow> bytes \<Rightarrow> (int \<times> bytes) go" where
  "KeyValue_MarshalToSizedBufferVT H m d = (case m of None \<Rightarrow> Ret (0, d) | Some m \<Rightarrow>
     marshal_sized [
       copy_at (kv_unknownFields m), put_bytes_field H 0x22 (kv_Value m),
       put_int_field H 0x18 (kv_ModRevision m), put_int_field H 0x10 (kv_CreateRevision m),
       put_bytes_field H 0x0A (kv_Key m)] d)"

definition KeyValue_MarshalVT ::
  "protohelpers \<Rightarrow> KeyValue option \<Rightarrow> slice go" where
  "KeyValue_MarshalVT H = marshal_vt (KeyValue_SizeVT H) (KeyValue_MarshalToSizedBufferVT H)"

definition KeyValue_field ::
  "nat \<Rightarrow> (nat \<Rightarrow> bytes \<Rightarrow> nat \<Rightarrow> KeyValue \<Rightarrow> KeyValue field_result) option" where
  "KeyValue_field n =
    (if n = 1 then Some (field_bytes ''Key'' (\<lambda>v. kv_Key_update (\<lambda>_. v)))
     else if n = 2 then Some (field_int ''CreateRevision'' (\<lambda>v. kv_CreateRevision_update (\<lambda>_. v)))
     else if n = 3 then Some (field_int ''ModRevision'' (\<lambda>v. kv_ModRevision_update (\<lambda>_. v)))
     else if n = 4 then Some (field_bytes ''Value'' (\<lambda>v. kv_Value_update (\<lambda>_. v)))
     else None)"

definition KeyValue_UnmarshalVT ::
  "protohelpers \<Rightarrow> KeyValue \<Rightarrow> bytes \<Rightarrow> (wire_error option go \<times> KeyValue) option" where
  "KeyValue_UnmarshalVT H m d = decode_loop H ''KeyValue'' KeyValue_field
     (\<lambda>bs. kv_unknownFields_update (\<lambda>us. us @ bs)) d 0 m"

section \<open>ResponseHeader\<close>

definition new_ResponseHeader :: ResponseHeader where
  "new_ResponseHeader = \<lparr>rh_ShardId = 0, rh_ReplicaId = 0, rh_Revision = 0, rh_RaftTerm = 0, rh_RaftLeaderId = 0,
     rh_unknownFields = []\<rparr>"

definition ResponseHeader_SizeVT ::
  "protohelpers \<Rightarrow> ResponseHeader option \<Rightarrow> nat" where
  "ResponseHeader_SizeVT H m = (case m of None \<Rightarrow> 0 | Some m \<Rightarrow>
     size_int_field H (rh_ShardId m) + size_int_field H (rh_ReplicaId m) +
     size_int_field H (rh_Revision m) + size_int_field H (rh_RaftTerm m) +
     size_int_field H (rh_RaftLeaderId m) + length (rh_unknownFields m))"

definition ResponseHeader_MarshalToSizedBufferVT ::
  "protohelpers \<Rightarrow> ResponseHeader option \<Rightarrow> bytes \<Rightarrow> (int \<times> bytes) go" where
  "ResponseHeader_MarshalToSizedBufferVT H m d = (case m of None \<Rightarrow> Ret (0, d) | Some m \<Rightarrow>
     marshal_sized [
       copy_at (rh_unknownFields m), put_int_field H 0x28 (rh_RaftLeaderId m),
       put_int_field H 0x20 (rh_RaftTerm m), put_int_field H 0x18 (rh_Revision m),
       put_int_field H 0x10 (rh_ReplicaId m), put_int_field H 0x08 (rh_ShardId m)] d)"

definition ResponseHeader_MarshalVT ::
  "protohelpers \<Rightarrow> ResponseHeader option \<Rightarrow> slice go" where
  "ResponseHeader_MarshalVT H = marshal_vt (ResponseHeader_SizeVT H) (ResponseHeader_MarshalToSizedBufferVT H)"

definition ResponseHeader_field ::
  "nat \<Rightarrow> (nat \<Rightarrow> bytes \<Rightarrow> nat \<Rightarrow> ResponseHeader \<Rightarrow> ResponseHeader field_result) option" where
  "ResponseHeader_field n =
    (if n = 1 then Some (field_int ''ShardId'' (\<lambda>v. rh_ShardId_update (\<lambda>_. v)))
     else if n = 2 then Some (field_int ''ReplicaId'' (\<lambda>v. rh_ReplicaId_update (\<lambda>_. v)))
     else if n = 3 then Some (field_int ''Revision'' (\<lambda>v. rh_Revision_update (\<lambda>_. v)))
     else if n = 4 then Some (field_int ''RaftTerm'' (\<lambda>v. rh_RaftTerm_update (\<lambda>_. v)))
     else if n = 5 then Some (field_int ''RaftLeaderId'' (\<lambda>v. rh_RaftLeaderId_update (\<lambda>_. v)))
     else None)"

definition ResponseHeader_UnmarshalVT ::
  "protohelpers \<Rightarrow> ResponseHeader \<Rightarrow> bytes \<Rightarrow> (wire_error option go \<times> ResponseHeader) option" where
  "ResponseHeader_UnmarshalVT H m d = decode_loop H ''ResponseHeader'' ResponseHeader_field
     (\<lambda>bs. rh_unknownFields_update (\<lambda>us. us @ bs)) d 0 m"

section \<open>RangeRequest\<close>

definition new_RangeRequest :: RangeRequest where
  "new_RangeRequest = \<lparr>rr_Table = None, rr_Key = None, rr_RangeEnd = None, rr_Limit = 0, rr_Linearizable = False,
     rr_KeysOnly = False, rr_CountOnly = False, rr_MinModRevision = 0, rr_MaxModRevision = 0,
     rr_MinCreateRevision = 0, rr_MaxCreateRevision = 0, rr_unknownFields = []\<rparr>"

definition RangeRequest_SizeVT ::
  "protohelpers \<Rightarrow> RangeRequest option \<Rightarrow> nat" where
  "RangeRequest_SizeVT H m = (case m of None \<Rightarrow> 0 | Some m \<Rightarrow>
     size_bytes_field H (rr_Table m) + size_bytes_field H (rr_Key m) +
     size_bytes_field H (rr_RangeEnd m) + size_int_field H (rr_Limit m) +
     size_bool_field (rr_Linearizable m) + size_bool_field (rr_KeysOnly m) +
     size_bool_field (rr_CountOnly m) + size_int_field H (rr_MinModRevision m) +
     size_int_field H (rr_MaxModRevision m) + size_int_field H (rr_MinCreateRevision m) +
     size_int_field H (rr_MaxCreateRevision m) + length (rr_unknownFields m))"

definition RangeRequest_MarshalToSizedBufferVT ::
  "protohelpers \<Rightarrow> RangeRequest option \<Rightarrow> bytes \<Rightarrow> (int \<times> bytes) go" where
  "RangeRequest_MarshalToSizedBufferVT H m d = (case m of None \<Rightarrow> Ret (0, d) | Some m \<Rightarrow>
     marshal_sized [
       copy_at (rr_unknownFields m), put_int_field H 0x58 (rr_MaxCreateRevision m),
       put_int_field H 0x50 (rr_MinCreateRevision m),
       put_int_field H 0x48 (rr_MaxModRevision m), put_int_field H 0x40 (rr_MinModRevision m),
       put_bool_field 0x38 (rr_CountOnly m), put_bool_field 0x30 (rr_KeysOnly m),
       put_bool_field 0x28 (rr_Linearizable m), put_int_field H 0x20 (rr_Limit m),
       put_bytes_field H 0x1A (rr_RangeEnd m), put_bytes_field H 0x12 (rr_Key m),
       put_bytes_field H 0x0A (rr_Table m)] d)"

definition RangeRequest_MarshalVT ::
  "protohelpers \<Rightarrow> RangeRequest option \<Rightarrow> slice go" where
  "RangeRequest_MarshalVT H = marshal_vt (RangeRequest_SizeVT H) (RangeRequest_MarshalToSizedBufferVT H)"

definition RangeRequest_field ::
  "nat \<Rightarrow> (nat \<Rightarrow> bytes \<Rightarrow> nat \<Rightarrow> RangeRequest \<Rightarrow> RangeRequest field_result) option" where
  "RangeRequest_field n =
    (if n = 1 then Some (field_bytes ''Table'' (\<lambda>v. rr_Table_update (\<lambda>_. v)))
     else if n = 2 then Some (field_bytes ''Key'' (\<lambda>v. rr_Key_update (\<lambda>_. v)))
     else if n = 3 then Some (field_bytes ''RangeEnd'' (\<lambda>v. rr_RangeEnd_update (\<lambda>_. v)))
     else if n = 4 then Some (field_int ''Limit'' (\<lambda>v. rr_Limit_update (\<lambda>_. v)))
     else if n = 5 then Some (field_bool ''Linearizable'' (\<lambda>v. rr_Linearizable_update (\<lambda>_. v)))
     else if n = 6 then Some (field_bool ''KeysOnly'' (\<lambda>v. rr_KeysOnly_update (\<lambda>_. v)))
     else if n = 7 then Some (field_bool ''CountOnly'' (\<lambda>v. rr_CountOnly_update (\<lambda>_. v)))
     else if n = 8 then Some (field_int ''MinModRevision'' (\<lambda>v. rr_MinModRevision_update (\<lambda>_. v)))
     else if n = 9 then Some (field_int ''MaxModRevision'' (\<lambda>v. rr_MaxModRevision_update (\<lambda>_. v)))
     else if n = 10 then Some (field_int ''MinCreateRevision'' (\<lambda>v. rr_MinCreateRevision_update (\<lambda>_. v)))
     else if n = 11 then Some (field_int ''MaxCreateRevision'' (\<lambda>v. rr_MaxCreateRevision_update (\<lambda>_. v)))
     else None)"

definition RangeRequest_UnmarshalVT ::
  "protohelpers \<Rightarrow> RangeRequest \<Rightarrow> bytes \<Rightarrow> (wire_error option go \<times> RangeRequest) option" where
  "RangeRequest_UnmarshalVT H m d = decode_loop H ''RangeRequest'' RangeRequest_field
     (\<lambda>bs. rr_unknownFields_update (\<lambda>us. us @ bs)) d 0 m"

section \<open>RangeResponse\<close>

definition new_RangeResponse :: RangeResponse where
  "new_RangeResponse = \<lparr>rs_Header = None, rs_Kvs = [], rs_More = False, rs_Count = 0, rs_unknownFields = []\<rparr>"

definition RangeResponse_SizeVT ::
  "protohelpers \<Rightarrow> RangeResponse option \<Rightarrow> nat" where
  "RangeResponse_SizeVT H m = (case m of None \<Rightarrow> 0 | Some m \<Rightarrow>
     size_msg_field H (ResponseHeader_SizeVT H) (rs_Header m) +
     size_msgs_field H (KeyValue_SizeVT H) (rs_Kvs m) + size_bool_field (rs_More m) +
     size_int_field H (rs_Count m) + length (rs_unknownFields m))"

definition RangeResponse_MarshalToSizedBufferVT ::
  "protohelpers \<Rightarrow> RangeResponse option \<Rightarrow> bytes \<Rightarrow> (int \<times> bytes) go" where
  "RangeResponse_MarshalToSizedBufferVT H m d = (case m of None \<Rightarrow> Ret (0, d) | Some m \<Rightarrow>
     marshal_sized [
       copy_at (rs_unknownFields m), put_int_field H 0x28 (rs_Count m),
       put_bool_field 0x20 (rs_More m),
       put_msgs_field H 0x1A (KeyValue_MarshalToSizedBufferVT H) (rs_Kvs m),
       put_msg_field H 0x0A (ResponseHeader_MarshalToSizedBufferVT H) (rs_Header m)] d)"

definition RangeResponse_MarshalVT ::
  "protohelpers \<Rightarrow> RangeResponse option \<Rightarrow> slice go" where
  "RangeResponse_MarshalVT H = marshal_vt (RangeResponse_SizeVT H) (RangeResponse_MarshalToSizedBufferVT H)"

definition RangeResponse_field ::
  "protohelpers \<Rightarrow> nat \<Rightarrow> (nat \<Rightarrow> bytes \<Rightarrow> nat \<Rightarrow> RangeResponse \<Rightarrow> RangeResponse field_result) option" where
  "RangeResponse_field H n =
    (if n = 1 then Some (field_msg ''Header'' (\<lambda>m. case rs_Header m of None \<Rightarrow> new_ResponseHeader | Some x \<Rightarrow> x)
         (\<lambda>x. rs_Header_update (\<lambda>_. Some x)) (ResponseHeader_UnmarshalVT H))
     else if n = 3 then Some (field_msg ''Kvs'' (\<lambda>m. new_KeyValue) (\<lambda>x. rs_Kvs_update (\<lambda>xs. xs @ [Some x])) (KeyValue_UnmarshalVT H))
     else if n = 4 then Some (field_bool ''More'' (\<lambda>v. rs_More_update (\<lambda>_. v)))
     else if n = 5 then Some (field_int ''Count'' (\<lambda>v. rs_Count_update (\<lambda>_. v)))
     else None)"

definition RangeResponse_UnmarshalVT ::
  "protohelpers \<Rightarrow> RangeResponse \<Rightarrow> bytes \<Rightarrow> (wire_error option go \<times> RangeResponse) option" where
  "RangeResponse_UnmarshalVT H m d = decode_loop H ''RangeResponse'' (RangeResponse_field H)
     (\<lambda>bs. rs_unknownFields_update (\<lambda>us. us @ bs)) d 0 m"

section \<open>PutRequest\<close>

definition new_PutRequest :: PutRequest where
  "new_PutRequest = \<lparr>pr_Table = None, pr_Key = None, pr_Value = None, pr_PrevKv = False, pr_unknownFields = []\<rparr>"

definition PutRequest_SizeVT ::
  "protohelpers \<Rightarrow> PutRequest option \<Rightarrow> nat" where
  "PutRequest_SizeVT H m = (case m of None \<Rightarrow> 0 | Some m \<Rightarrow>
     size_bytes_field H (pr_Table m) + size_bytes_field H (pr_Key m) +
     size_bytes_field H (pr_Value m) + size_bool_field (pr_PrevKv m) +
     length (pr_unknownFields m))"

definition PutRequest_MarshalToSizedBufferVT ::
  "protohelpers \<Rightarrow> PutRequest option \<Rightarrow> bytes \<Rightarrow> (int \<times> bytes) go" where
  "PutRequest_MarshalToSizedBufferVT H m d = (case m of None \<Rightarrow> Ret (0, d) | Some m \<Rightarrow>
     marshal_sized [
       copy_at (pr_unknownFields m), put_bool_field 0x20 (pr_PrevKv m),
       put_bytes_field H 0x1A (pr_Value m), put_bytes_field H 0x12 (pr_Key m),
       put_bytes_field H 0x0A (pr_Table m)] d)"

definition PutRequest_MarshalVT ::
  "protohelpers \<Rightarrow> PutRequest option \<Rightarrow> slice go" where
  "PutRequest_MarshalVT H = marshal_vt (PutRequest_SizeVT H) (PutRequest_MarshalToSizedBufferVT H)"

definition PutRequest_field ::
  "nat \<Rightarrow> (nat \<Rightarrow> bytes \<Rightarrow> nat \<Rightarrow> PutRequest \<Rightarrow> PutRequest field_result) option" where
  "PutRequest_field n =
    (if n = 1 then Some (field_bytes ''Table'' (\<lambda>v. pr_Table_update (\<lambda>_. v)))
     else if n = 2 then Some (field_bytes ''Key'' (\<lambda>v. pr_Key_update (\<lambda>_. v)))
     else if n = 3 then Some (field_bytes ''Value'' (\<lambda>v. pr_Value_update (\<lambda>_. v)))
     else if n = 4 then Some (field_bool ''PrevKv'' (\<lambda>v. pr_PrevKv_update (\<lambda>_. v)))
     else None)"

definition PutRequest_UnmarshalVT ::
  "protohelpers \<Rightarrow> PutRequest \<Rightarrow> bytes \<Rightarrow> (wire_error option go \<times> PutRequest) option" where
  "PutRequest_UnmarshalVT H m d = decode_loop H ''PutRequest'' PutRequest_field
     (\<lambda>bs. pr_unknownFields_update (\<lambda>us. us @ bs)) d 0 m"

section \<open>PutResponse\<close>

definition new_PutResponse :: PbPutResponse where
  "new_PutResponse = \<lparr>ps_Header = None, ps_PrevKv = None, ps_unknownFields = []\<rparr>"

definition PutResponse_SizeVT ::
  "protohelpers \<Rightarrow> PbPutResponse option \<Rightarrow> nat" where
  "PutResponse_SizeVT H m = (case m of None \<Rightarrow> 0 | Some m \<Rightarrow>
     size_msg_field H (ResponseHeader_SizeVT H) (ps_Header m) +
     size_msg_field H (KeyValue_SizeVT H) (ps_PrevKv m) + length (ps_unknownFields m))"

definition PutResponse_MarshalToSizedBufferVT ::
  "protohelpers \<Rightarrow> PbPutResponse option \<Rightarrow> bytes \<Rightarrow> (int \<times> bytes) go" where
  "PutResponse_MarshalToSizedBufferVT H m d = (case m of None \<Rightarrow> Ret (0, d) | Some m \<Rightarrow>
     marshal_sized [
       copy_at (ps_unknownFields m),
       put_msg_field H 0x12 (KeyValue_MarshalToSizedBufferVT H) (ps_PrevKv m),
       put_msg_field H 0x0A (ResponseHeader_MarshalToSizedBufferVT H) (ps_Header m)] d)"

definition PutResponse_MarshalVT ::
  "protohelpers \<Rightarrow> PbPutResponse option \<Rightarrow> slice go" where
  "PutResponse_MarshalVT H = marshal_vt (PutResponse_SizeVT H) (PutResponse_MarshalToSizedBufferVT H)"

definition PutResponse_field ::
  "protohelpers \<Rightarrow> nat \<Rightarrow> (nat \<Rightarrow> bytes \<Rightarrow> nat \<Rightarrow> PbPutResponse \<Rightarrow> PbPutResponse field_result) option" where
  "PutResponse_field H n =
    (if n = 1 then Some (field_msg ''Header'' (\<lambda>m. case ps_Header m of None \<Rightarrow> new_ResponseHeader | Some x \<Rightarrow> x)
         (\<lambda>x. ps_Header_update (\<lambda>_. Some x)) (ResponseHeader_UnmarshalVT H))
     else if n = 2 then Some (field_msg ''PrevKv'' (\<lambda>m. case ps_PrevKv m of None \<Rightarrow> new_KeyValue | Some x \<Rightarrow> x)
         (\<lambda>x. ps_PrevKv_update (\<lambda>_. Some x)) (KeyValue_UnmarshalVT H))
     else None)"

definition PutResponse_UnmarshalVT ::
  "protohelpers \<Rightarrow> PbPutResponse \<Rightarrow> bytes \<Rightarrow> (wire_error option go \<times> PbPutResponse) option" where
  "PutResponse_UnmarshalVT H m d = decode_loop H ''PutResponse'' (PutResponse_field H)
     (\<lambda>bs. ps_unknownFields_update (\<lambda>us. us @ bs)) d 0 m"

section \<open>DeleteRangeRequest\<close>

definition new_DeleteRangeRequest :: DeleteRangeRequest where
  "new_DeleteRangeRequest = \<lparr>dr_Table = None, dr_Key = None, dr_RangeEnd = None, dr_PrevKv = False, dr_Count = False,
     dr_unknownFields = []\<rparr>"

definition DeleteRangeRequest_SizeVT ::
  "protohelpers \<Rightarrow> DeleteRangeRequest option \<Rightarrow> nat" where
  "DeleteRangeRequest_SizeVT H m = (case m of None \<Rightarrow> 0 | Some m \<Rightarrow>
     size_bytes_field H (dr_Table m) + size_bytes_field H (dr_Key m) +
     size_bytes_field H (dr_RangeEnd m) + size_bool_field (dr_PrevKv m) +
     size_bool_field (dr_Count m) + length (dr_unknownFields m))"

definition DeleteRangeRequest_MarshalToSizedBufferVT ::
  "protohelpers \<Rightarrow> DeleteRangeRequest option \<Rightarrow> bytes \<Rightarrow> (int \<times> bytes) go" where
  "DeleteRangeRequest_MarshalToSizedBufferVT H m d = (case m of None \<Rightarrow> Ret (0, d) | Some m \<Rightarrow>
     marshal_sized [
       copy_at (dr_unknownFields m), put_bool_field 0x28 (dr_Count m),
       put_bool_field 0x20 (dr_PrevKv m), put_bytes_field H 0x1A (dr_RangeEnd m),
       put_bytes_field H 0x12 (dr_Key m), put_bytes_field H 0x0A (dr_Table m)] d)"

definition DeleteRangeRequest_MarshalVT ::
  "protohelpers \<Rightarrow> DeleteRangeRequest option \<Rightarrow> slice go" where
  "DeleteRangeRequest_MarshalVT H = marshal_vt (DeleteRangeRequest_SizeVT H) (DeleteRangeRequest_MarshalToSizedBufferVT H)"

definition DeleteRangeRequest_field ::
  "nat \<Rightarrow> (nat \<Rightarrow> bytes \<Rightarrow> nat \<Rightarrow> DeleteRangeRequest \<Rightarrow> DeleteRangeRequest field_result) option" where
  "DeleteRangeRequest_field n =
    (if n = 1 then Some (field_bytes ''Table'' (\<lambda>v. dr_Table_update (\<lambda>_. v)))
     else if n = 2 then Some (field_bytes ''Key'' (\<lambda>v. dr_Key_update (\<lambda>_. v)))
     else if n = 3 then Some (field_bytes ''RangeEnd'' (\<lambda>v. dr_RangeEnd_update (\<lambda>_. v)))
     else if n = 4 then Some (field_bool ''PrevKv'' (\<lambda>v. dr_PrevKv_update (\<lambda>_. v)))
     else if n = 5 then Some (field_bool ''Count'' (\<lambda>v. dr_Count_update (\<lambda>_. v)))
     else None)"

definition DeleteRangeRequest_UnmarshalVT ::
  "protohelpers \<Rightarrow> DeleteRangeRequest \<Rightarrow> bytes \<Rightarrow> (wire_error option go \<times> DeleteRangeRequest) option" where
  "DeleteRangeRequest_UnmarshalVT H m d = decode_loop H ''DeleteRangeRequest'' DeleteRangeRequest_field
     (\<lambda>bs. dr_unknownFields_update (\<lambda>us. us @ bs)) d 0 m"

section \<open>DeleteRangeResponse\<close>

definition new_DeleteRangeResponse :: DeleteRangeResponse where
  "new_DeleteRangeResponse = \<lparr>ds_Header = None, ds_Deleted = 0, ds_PrevKvs = [], ds_unknownFields = []\<rparr>"

definition DeleteRangeResponse_SizeVT ::
  "protohelpers \<Rightarrow> DeleteRangeResponse option \<Rightarrow> nat" where
  "DeleteRangeResponse_SizeVT H m = (case m of None \<Rightarrow> 0 | Some m \<Rightarrow>
     size_msg_field H (ResponseHeader_SizeVT H) (ds_Header m) +
     size_int_field H (ds_Deleted m) + size_msgs_field H (KeyValue_SizeVT H) (ds_PrevKvs m) +
     length (ds_unknownFields m))"

definition DeleteRangeResponse_MarshalToSizedBufferVT ::
  "protohelpers \<Rightarrow> DeleteRangeResponse option \<Rightarrow> bytes \<Rightarrow> (int \<times> bytes) go" where
  "DeleteRangeResponse_MarshalToSizedBufferVT H m d = (case m of None \<Rightarrow> Ret (0, d) | Some m \<Rightarrow>
     marshal_sized [
       copy_at (ds_unknownFields m),
       put_msgs_field H 0x1A (KeyValue_MarshalToSizedBufferVT H) (ds_PrevKvs m),
       put_int_field H 0x10 (ds_Deleted m),
       put_msg_field H 0x0A (ResponseHeader_MarshalToSizedBufferVT H) (ds_Header m)] d)"

definition DeleteRangeResponse_MarshalVT ::
  "protohelpers \<Rightarrow> DeleteRangeResponse option \<Rightarrow> slice go" where
  "DeleteRangeResponse_MarshalVT H = marshal_vt (DeleteRangeResponse_SizeVT H) (DeleteRangeResponse_MarshalToSizedBufferVT H)"

definition DeleteRangeResponse_field ::
  "protohelpers \<Rightarrow> nat \<Rightarrow> (nat \<Rightarrow> bytes \<Rightarrow> nat \<Rightarrow> DeleteRangeResponse \<Rightarrow> DeleteRangeResponse field_result) option" where
  "DeleteRangeResponse_field H n =
    (if n = 1 then Some (field_msg ''Header'' (\<lambda>m. case ds_Header m of None \<Rightarrow> new_ResponseHeader | Some x \<Rightarrow> x)
         (\<lambda>x. ds_Header_update (\<lambda>_. Some x)) (ResponseHeader_UnmarshalVT H))
     else if n = 2 then Some (field_int ''Deleted'' (\<lambda>v. ds_Deleted_update (\<lambda>_. v)))
     else if n = 3 then Some (field_msg ''PrevKvs'' (\<lambda>m. new_KeyValue) (\<lambda>x. ds_PrevKvs_update (\<lambda>xs. xs @ [Some x])) (KeyValue_UnmarshalVT H))
     else None)"

definition DeleteRangeResponse_UnmarshalVT ::
  "protohelpers \<Rightarrow> DeleteRangeResponse \<Rightarrow> bytes \<Rightarrow> (wire_error option go \<times> DeleteRangeResponse) option" where
  "DeleteRangeResponse_UnmarshalVT H m d = decode_loop H ''DeleteRangeResponse'' (DeleteRangeResponse_field H)
     (\<lambda>bs. ds_unknownFields_update (\<lambda>us. us @ bs)) d 0 m"

section \<open>RequestOp_Range\<close>

definition new_RequestOp_Range :: RequestOp_Range where
  "new_RequestOp_Range = \<lparr>qr_Key = None, qr_RangeEnd = None, qr_Limit = 0, qr_KeysOnly = False, qr_CountOnly = False,
     qr_unknownFields = []\<rparr>"

definition RequestOp_Range_SizeVT ::
  "protohelpers \<Rightarrow> RequestOp_Range option \<Rightarrow> nat" where
  "RequestOp_Range_SizeVT H m = (case m of None \<Rightarrow> 0 | Some m \<Rightarrow>
     size_bytes_field H (qr_Key m) + size_bytes_field H (qr_RangeEnd m) +
     size_int_field H (qr_Limit m) + size_bool_field (qr_KeysOnly m) +
     size_bool_field (qr_CountOnly m) + length (qr_unknownFields m))"

definition RequestOp_Range_MarshalToSizedBufferVT ::
  "protohelpers \<Rightarrow> RequestOp_Range option \<Rightarrow> bytes \<Rightarrow> (int \<times> bytes) go" where
  "RequestOp_Range_MarshalToSizedBufferVT H m d = (case m of None \<Rightarrow> Ret (0, d) | Some m \<Rightarrow>
     marshal_sized [
       copy_at (qr_unknownFields m), put_bool_field 0x28 (qr_CountOnly m),
       put_bool_field 0x20 (qr_KeysOnly m), put_int_field H 0x18 (qr_Limit m),
       put_bytes_field H 0x12 (qr_RangeEnd m), put_bytes_field H 0x0A (qr_Key m)] d)"

definition RequestOp_Range_MarshalVT ::
  "protohelpers \<Rightarrow> RequestOp_Range option \<Rightarrow> slice go" where
  "RequestOp_Range_MarshalVT H = marshal_vt (RequestOp_Range_SizeVT H) (RequestOp_Range_MarshalToSizedBufferVT H)"

definition RequestOp_Range_field ::
  "nat \<Rightarrow> (nat \<Rightarrow> bytes \<Rightarrow> nat \<Rightarrow> RequestOp_Range \<Rightarrow> RequestOp_Range field_result) option" where
  "RequestOp_Range_field n =
    (if n = 1 then Some (field_bytes ''Key'' (\<lambda>v. qr_Key_update (\<lambda>_. v)))
     else if n = 2 then Some (field_bytes ''RangeEnd'' (\<lambda>v. qr_RangeEnd_update (\<lambda>_. v)))
     else if n = 3 then Some (field_int ''Limit'' (\<lambda>v. qr_Limit_update (\<lambda>_. v)))
     else if n = 4 then Some (field_bool ''KeysOnly'' (\<lambda>v. qr_KeysOnly_update (\<lambda>_. v)))
     else if n = 5 then Some (field_bool ''CountOnly'' (\<lambda>v. qr_CountOnly_update (\<lambda>_. v)))
     else None)"

definition RequestOp_Range_UnmarshalVT ::
  "protohelpers \<Rightarrow> RequestOp_Range \<Rightarrow> bytes \<Rightarrow> (wire_error option go \<times> RequestOp_Range) option" where
  "RequestOp_Range_UnmarshalVT H m d = decode_loop H ''RequestOp_Range'' RequestOp_Range_field
     (\<lambda>bs. qr_unknownFields_update (\<lambda>us. us @ bs)) d 0 m"

section \<open>RequestOp_Put\<close>

definition new_RequestOp_Put :: RequestOp_Put where
  "new_RequestOp_Put = \<lparr>qp_Key = None, qp_Value = None, qp_PrevKv = False, qp_unknownFields = []\<rparr>"

definition RequestOp_Put_SizeVT ::
  "protohelpers \<Rightarrow> RequestOp_Put option \<Rightarrow> nat" where
  "RequestOp_Put_SizeVT H m = (case m of None \<Rightarrow> 0 | Some m \<Rightarrow>
     size_bytes_field H (qp_Key m) + size_bytes_field H (qp_Value m) +
     size_bool_field (qp_PrevKv m) + length (qp_unknownFields m))"

definition RequestOp_Put_MarshalToSizedBufferVT ::
  "protohelpers \<Rightarrow> RequestOp_Put option \<Rightarrow> bytes \<Rightarrow> (int \<times> bytes) go" where
  "RequestOp_Put_MarshalToSizedBufferVT H m d = (case m of None \<Rightarrow> Ret (0, d) | Some m \<Rightarrow>
     marshal_sized [
       copy_at (qp_unknownFields m), put_bool_field 0x18 (qp_PrevKv m),
       put_bytes_field H 0x12 (qp_Value m), put_bytes_field H 0x0A (qp_Key m)] d)"

definition RequestOp_Put_MarshalVT ::
  "protohelpers \<Rightarrow> RequestOp_Put option \<Rightarrow> slice go" where
  "RequestOp_Put_MarshalVT H = marshal_vt (RequestOp_Put_SizeVT H) (RequestOp_Put_MarshalToSizedBufferVT H)"

definition RequestOp_Put_field ::
  "nat \<Rightarrow> (nat \<Rightarrow> bytes \<Rightarrow> nat \<Rightarrow> RequestOp_Put \<Rightarrow> RequestOp_Put field_result) option" where
  "RequestOp_Put_field n =
    (if n = 1 then Some (field_bytes ''Key'' (\<lambda>v. qp_Key_update (\<lambda>_. v)))
     else if n = 2 then Some (field_bytes ''Value'' (\<lambda>v. qp_Value_update (\<lambda>_. v)))
     else if n = 3 then Some (field_bool ''PrevKv'' (\<lambda>v. qp_PrevKv_update (\<lambda>_. v)))
     else None)"

definition RequestOp_Put_UnmarshalVT ::
  "protohelpers \<Rightarrow> RequestOp_Put \<Rightarrow> bytes \<Rightarrow> (wire_error option go \<times> RequestOp_Put) option" where
  "RequestOp_Put_UnmarshalVT H m d = decode_loop H ''RequestOp_Put'' RequestOp_Put_field
     (\<lambda>bs. qp_unknownFields_update (\<lambda>us. us @ bs)) d 0 m"

section \<open>RequestOp_DeleteRange\<close>

definition new_RequestOp_DeleteRange :: RequestOp_DeleteRange where
  "new_RequestOp_DeleteRange = \<lparr>qd_Key = None, qd_RangeEnd = None, qd_PrevKv = False, qd_Count = False,
     qd_unknownFields = []\<rparr>"

definition RequestOp_DeleteRange_SizeVT ::
  "protohelpers \<Rightarrow> RequestOp_DeleteRange option \<Rightarrow> nat" where
  "RequestOp_DeleteRange_SizeVT H m = (case m of None \<Rightarrow> 0 | Some m \<Rightarrow>
     size_bytes_field H (qd_Key m) + size_bytes_field H (qd_RangeEnd m) +
     size_bool_field (qd_PrevKv m) + size_bool_field (qd_Count m) + length (qd_unknownFields m))"

definition RequestOp_DeleteRange_MarshalToSizedBufferVT ::
  "protohelpers \<Rightarrow> RequestOp_DeleteRange option \<Rightarrow> bytes \<Rightarrow> (int \<times> bytes) go" where
  "RequestOp_DeleteRange_MarshalToSizedBufferVT H m d = (case m of None \<Rightarrow> Ret (0, d) | Some m \<Rightarrow>
     marshal_sized [
       copy_at (qd_unknownFields m), put_bool_field 0x28 (qd_Count m),
       put_bool_field 0x20 (qd_PrevKv m), put_bytes_field H 0x12 (qd_RangeEnd m),
       put_bytes_field H 0x0A (qd_Key m)] d)"

definition RequestOp_DeleteRange_MarshalVT ::
  "protohelpers \<Rightarrow> RequestOp_DeleteRange option \<Rightarrow> slice go" where
  "RequestOp_DeleteRange_MarshalVT H = marshal_vt (RequestOp_DeleteRange_SizeVT H) (RequestOp_DeleteRange_MarshalToSizedBufferVT H)"

definition RequestOp_DeleteRange_field ::
  "nat \<Rightarrow> (nat \<Rightarrow> bytes \<Rightarrow> nat \<Rightarrow> RequestOp_DeleteRange \<Rightarrow> RequestOp_DeleteRange field_result) option" where
  "RequestOp_DeleteRange_field n =
    (if n = 1 then Some (field_bytes ''Key'' (\<lambda>v. qd_Key_update (\<lambda>_. v)))
     else if n = 2 then Some (field_bytes ''RangeEnd'' (\<lambda>v. qd_RangeEnd_update (\<lambda>_. v)))
     else if n = 4 then Some (field_bool ''PrevKv'' (\<lambda>v. qd_PrevKv_update (\<lambda>_. v)))
     else if n = 5 then Some (field_bool ''Count'' (\<lambda>v. qd_Count_update (\<lambda>_. v)))
     else None)"

definition RequestOp_DeleteRange_UnmarshalVT ::
  "protohelpers \<Rightarrow> RequestOp_DeleteRange \<Rightarrow> bytes \<Rightarrow> (wire_error option go \<times> RequestOp_DeleteRange) option" where
  "RequestOp_DeleteRange_UnmarshalVT H m d = decode_loop H ''RequestOp_DeleteRange'' RequestOp_DeleteRange_field
     (\<lambda>bs. qd_unknownFields_update (\<lambda>us. us @ bs)) d 0 m"

section \<open>ResponseOp_Range\<close>

definition new_ResponseOp_Range :: ResponseOp_Range where
  "new_ResponseOp_Range = \<lparr>sr_Kvs = [], sr_More = False, sr_Count = 0, sr_unknownFields = []\<rparr>"

definition ResponseOp_Range_SizeVT ::
  "protohelpers \<Rightarrow> ResponseOp_Range option \<Rightarrow> nat" where
  "ResponseOp_Range_SizeVT H m = (case m of None \<Rightarrow> 0 | Some m \<Rightarrow>
     size_msgs_field H (KeyValue_SizeVT H) (sr_Kvs m) + size_bool_field (sr_More m) +
     size_int_field H (sr_Count m) + length (sr_unknownFields m))"

definition ResponseOp_Range_MarshalToSizedBufferVT ::
  "protohelpers \<Rightarrow> ResponseOp_Range option \<Rightarrow> bytes \<Rightarrow> (int \<times> bytes) go" where
  "ResponseOp_Range_MarshalToSizedBufferVT H m d = (case m of None \<Rightarrow> Ret (0, d) | Some m \<Rightarrow>
     marshal_sized [
       copy_at (sr_unknownFields m), put_int_field H 0x18 (sr_Count m),
       put_bool_field 0x10 (sr_More m),
       put_msgs_field H 0x0A (KeyValue_MarshalToSizedBufferVT H) (sr_Kvs m)] d)"

definition ResponseOp_Range_MarshalVT ::
  "protohelpers \<Rightarrow> ResponseOp_Range option \<Rightarrow> slice go" where
  "ResponseOp_Range_MarshalVT H = marshal_vt (ResponseOp_Range_SizeVT H) (ResponseOp_Range_MarshalToSizedBufferVT H)"

definition ResponseOp_Range_field ::
  "protohelpers \<Rightarrow> nat \<Rightarrow> (nat \<Rightarrow> bytes \<Rightarrow> nat \<Rightarrow> ResponseOp_Range \<Rightarrow> ResponseOp_Range field_result) option" where
  "ResponseOp_Range_field H n =
    (if n = 1 then Some (field_msg ''Kvs'' (\<lambda>m. new_KeyValue) (\<lambda>x. sr_Kvs_update (\<lambda>xs. xs @ [Some x])) (KeyValue_UnmarshalVT H))
     else if n = 2 then Some (field_bool ''More'' (\<lambda>v. sr_More_update (\<lambda>_. v)))
     else if n = 3 then Some (field_int ''Count'' (\<lambda>v. sr_Count_update (\<lambda>_. v)))
     else None)"

definition ResponseOp_Range_UnmarshalVT ::
  "protohelpers \<Rightarrow> ResponseOp_Range \<Rightarrow> bytes \<Rightarrow> (wire_error option go \<times> ResponseOp_Range) option" where
  "ResponseOp_Range_UnmarshalVT H m d = decode_loop H ''ResponseOp_Range'' (ResponseOp_Range_field H)
     (\<lambda>bs. sr_unknownFields_update (\<lambda>us. us @ bs)) d 0 m"

section \<open>ResponseOp_Put\<close>

definition new_ResponseOp_Put :: ResponseOp_Put where
  "new_ResponseOp_Put = \<lparr>sp_PrevKv = None, sp_unknownFields = []\<rparr>"

definition ResponseOp_Put_SizeVT ::
  "protohelpers \<Rightarrow> ResponseOp_Put option \<Rightarrow> nat" where
  "ResponseOp_Put_SizeVT H m = (case m of None \<Rightarrow> 0 | Some m \<Rightarrow>
     size_msg_field H (KeyValue_SizeVT H) (sp_PrevKv m) + length (sp_unknownFields m))"

definition ResponseOp_Put_MarshalToSizedBufferVT ::
  "protohelpers \<Rightarrow> ResponseOp_Put option \<Rightarrow> bytes \<Rightarrow> (int \<times> bytes) go" where
  "ResponseOp_Put_MarshalToSizedBufferVT H m d = (case m of None \<Rightarrow> Ret (0, d) | Some m \<Rightarrow>
     marshal_sized [
       copy_at (sp_unknownFields m),
       put_msg_field H 0x0A (KeyValue_MarshalToSizedBufferVT H) (sp_PrevKv m)] d)"

definition ResponseOp_Put_MarshalVT ::
  "protohelpers \<Rightarrow> ResponseOp_Put option \<Rightarrow> slice go" where
  "ResponseOp_Put_MarshalVT H = marshal_vt (ResponseOp_Put_SizeVT H) (ResponseOp_Put_MarshalToSizedBufferVT H)"

definition ResponseOp_Put_field ::
  "protohelpers \<Rightarrow> nat \<Rightarrow> (nat \<Rightarrow> bytes \<Rightarrow> nat \<Rightarrow> ResponseOp_Put \<Rightarrow> ResponseOp_Put field_result) option" where
  "ResponseOp_Put_field H n =
    (if n = 1 then Some (field_msg ''PrevKv'' (\<lambda>m. case sp_PrevKv m of None \<Rightarrow> new_KeyValue | Some x \<Rightarrow> x)
         (\<lambda>x. sp_PrevKv_update (\<lambda>_. Some x)) (KeyValue_UnmarshalVT H))
     else None)"

definition ResponseOp_Put_UnmarshalVT ::
  "protohelpers \<Rightarrow> ResponseOp_Put \<Rightarrow> bytes \<Rightarrow> (wire_error option go \<times> ResponseOp_Put) option" where
  "ResponseOp_Put_UnmarshalVT H m d = decode_loop H ''ResponseOp_Put'' (ResponseOp_Put_field H)
     (\<lambda>bs. sp_unknownFields_update (\<lambda>us. us @ bs)) d 0 m"

section \<open>ResponseOp_DeleteRange\<close>

definition new_ResponseOp_DeleteRange :: ResponseOp_DeleteRange where
  "new_ResponseOp_DeleteRange = \<lparr>sd_Deleted = 0, sd_PrevKvs = [], sd_unknownFields = []\<rparr>"

definition ResponseOp_DeleteRange_SizeVT ::
  "protohelpers \<Rightarrow> ResponseOp_DeleteRange option \<Rightarrow> nat" where
  "ResponseOp_DeleteRange_SizeVT H m = (case m of None \<Rightarrow> 0 | Some m \<Rightarrow>
     size_int_field H (sd_Deleted m) + size_msgs_field H (KeyValue_SizeVT H) (sd_PrevKvs m) +
     length (sd_unknownFields m))"

definition ResponseOp_DeleteRange_MarshalToSizedBufferVT ::
  "protohelpers \<Rightarrow> ResponseOp_DeleteRange option \<Rightarrow> bytes \<Rightarrow> (int \<times> bytes) go" where
  "ResponseOp_DeleteRange_MarshalToSizedBufferVT H m d = (case m of None \<Rightarrow> Ret (0, d) | Some m \<Rightarrow>
     marshal_sized [
       copy_at (sd_unknownFields m),
       put_msgs_field H 0x12 (KeyValue_MarshalToSizedBufferVT H) (sd_PrevKvs m),
       put_int_field H 0x08 (sd_Deleted m)] d)"

definition ResponseOp_DeleteRange_MarshalVT ::
  "protohelpers \<Rightarrow> ResponseOp_DeleteRange option \<Rightarrow> slice go" where
  "ResponseOp_DeleteRange_MarshalVT H = marshal_vt (ResponseOp_DeleteRange_SizeVT H) (ResponseOp_DeleteRange_MarshalToSizedBufferVT H)"

definition ResponseOp_DeleteRange_field ::
  "protohelpers \<Rightarrow> nat \<Rightarrow> (nat \<Rightarrow> bytes \<Rightarrow> nat \<Rightarrow> ResponseOp_DeleteRange \<Rightarrow> ResponseOp_DeleteRange field_result) option" where
  "ResponseOp_DeleteRange_field H n =
    (if n = 1 then Some (field_int ''Deleted'' (\<lambda>v. sd_Deleted_update (\<lambda>_. v)))
     else if n = 2 then Some (field_msg ''PrevKvs'' (\<lambda>m. new_KeyValue) (\<lambda>x. sd_PrevKvs_update (\<lambda>xs. xs @ [Some x])) (KeyValue_UnmarshalVT H))
     else None)"

definition ResponseOp_DeleteRange_UnmarshalVT ::
  "protohelpers \<Rightarrow> ResponseOp_DeleteRange \<Rightarrow> bytes \<Rightarrow> (wire_error option go \<times> ResponseOp_DeleteRange) option" where
  "ResponseOp_DeleteRange_UnmarshalVT H m d = decode_loop H ''ResponseOp_DeleteRange'' (ResponseOp_DeleteRange_field H)
     (\<lambda>bs. sd_unknownFields_update (\<lambda>us. us @ bs)) d 0 m"

end
