(* ===== verification/Wire_Reading.thy ===== *)
theory Wire_Reading
  imports Wire_Format
begin

text \<open>
  Facts about unmarshalling: reading what marshalling wrote, one field after the other, keeping the
  bytes of unknown fields, and returning without a panic on any bytes.
\<close>

section \<open>Reading the encoding back\<close>

text \<open>The bits of a varint.\<close>

lemma and_7F: "(w :: 'a :: len word) AND 0x7F = take_bit 7 w"
  by (simp add: take_bit_eq_mask mask_eq_exp_minus_1)

lemma bit_80: "bit (0x80 :: 8 word) n \<longleftrightarrow> n = 7"
proof -
  have "(0x80 :: 8 word) = 2 ^ 7" by simp
  then show ?thesis by (simp only: bit_exp_iff) auto
qed

lemma low7_high: "take_bit 7 (v :: 64 word) OR push_bit 7 (drop_bit 7 v) = v"
proof (rule bit_word_eqI)
  fix n assume "n < LENGTH(64)"
  then show "bit (take_bit 7 v OR push_bit 7 (drop_bit 7 v)) n = bit v n"
    by (cases "n < 7") (auto simp: bit_simps)
qed

lemma cont_byte: "ucast ((ucast (v :: 64 word) AND 0x7F OR 0x80 :: 8 word) AND 0x7F) = take_bit 7 v"
  unfolding and_7F by (rule bit_word_eqI) (auto simp: bit_simps bit_80)

lemma less_80: "(v :: 'a :: len word) < 0x80 \<Longrightarrow> take_bit 7 v = v"
proof -
  assume v: "v < 0x80"
  have "unat v < 128"
  proof (cases "LENGTH('a) \<le> 7")
    case True
    have "unat v < 2 ^ LENGTH('a)" by simp
    also have "\<dots> \<le> (2::nat) ^ 7" using True by (rule power_increasing) simp
    finally show ?thesis by simp
  next
    case False
    from v have "unat v < unat (0x80 :: 'a word)" by (simp add: word_less_nat_alt)
    also have "\<dots> \<le> 128" by (metis unat_of_nat of_nat_numeral mod_less_eq_dividend)
    finally show ?thesis .
  qed
  then show ?thesis by (simp add: word_unat_eq_iff unsigned_take_bit_eq take_bit_nat_eq_self)
qed

lemma cont_byte_ge: "\<not> ((ucast (v :: 64 word) AND 0x7F OR 0x80 :: 8 word) < 0x80)"
proof
  let ?b = "ucast v AND 0x7F OR 0x80 :: 8 word"
  assume "?b < 0x80"
  then have "take_bit 7 ?b = ?b" by (rule less_80)
  moreover have "bit ?b 7" by (simp add: bit_simps bit_80)
  ultimately show False by (metis bit_take_bit_iff less_irrefl)
qed

lemma last_byte:
  assumes "(v :: 64 word) < 0x80"
  shows "(ucast v :: 8 word) < 0x80" "ucast ((ucast v :: 8 word) AND 0x7F) = v"
proof -
  have "unat v < 128" using assms by (simp add: word_less_nat_alt)
  then show "(ucast v :: 8 word) < 0x80" by (simp add: word_less_nat_alt unsigned_ucast_eq take_bit_nat_eq_self)
  have "ucast ((ucast v :: 8 word) AND 0x7F) = take_bit 7 v"
    unfolding and_7F by (rule bit_word_eqI) (auto simp: bit_simps)
  then show "ucast ((ucast v :: 8 word) AND 0x7F) = v" by (simp only: less_80 [OF assms])
qed

text \<open>A position in the bytes is described by what is left there.\<close>

lemma drop_Cons_nth:
  assumes "drop i d = x # xs"
  shows "i < length d" "d ! i = x" "drop (Suc i) d = xs"
proof -
  show "i < length d" using assms by (cases "i < length d") auto
  with assms show "d ! i = x" "drop (Suc i) d = xs" by (simp_all add: Cons_nth_drop_Suc [symmetric])
qed

lemma varint_loop_step:
  assumes "drop i d = b # xs" and "shift < 64"
  shows "varint_loop d shift i v =
    (if b < 0x80 then (None, v OR push_bit shift (ucast (b AND 0x7F)), i + 1)
     else varint_loop d (shift + 7) (i + 1) (v OR push_bit shift (ucast (b AND 0x7F))))"
  using drop_Cons_nth [OF assms(1)] assms(2) by (simp add: varint_loop.simps [of d shift i] Let_def)

lemma varint_loop_varint:
  "drop i d = varint v @ rest \<Longrightarrow> shift < 64 \<Longrightarrow> unat v < 2 ^ (64 - shift) \<Longrightarrow>
     varint_loop d shift i acc = (None, acc OR push_bit shift v, i + length (varint v))"
proof (induction v arbitrary: i shift acc rule: varint.induct)
  case (1 v)
  show ?case
  proof (cases "v < 0x80")
    case True
    with 1(2) have "drop i d = ucast v # rest" by (simp add: varint.simps [of v])
    from varint_loop_step [OF this 1(3), of acc] True show ?thesis
      by (simp add: last_byte varint.simps [of v])
  next
    case False
    let ?b = "ucast v AND 0x7F OR 0x80 :: byte"
    from False 1(2) have d: "drop i d = ?b # varint (drop_bit 7 v) @ rest" by (simp add: varint.simps [of v])
    from False have "(2::nat) ^ 7 \<le> unat v" by (simp add: word_less_nat_alt)
    with 1(4) have "(2::nat) ^ 7 < 2 ^ (64 - shift)" using le_less_trans by blast
    then have shift: "7 < 64 - shift" by (rule power_less_imp_less_exp [rotated]) simp
    then have "64 - shift = (64 - (shift + 7)) + 7" by simp
    then have "(2::nat) ^ (64 - shift) = 2 ^ (64 - (shift + 7)) * 2 ^ 7" by (metis power_add)
    with 1(4) have "unat (drop_bit 7 v) < 2 ^ (64 - (shift + 7))"
      by (simp add: drop_bit_eq_div unat_div less_mult_imp_div_less)
    then have "varint_loop d (shift + 7) (i + 1) (acc OR push_bit shift (take_bit 7 v)) =
        (None, (acc OR push_bit shift (take_bit 7 v)) OR push_bit (shift + 7) (drop_bit 7 v),
          i + 1 + length (varint (drop_bit 7 v)))"
      using False drop_Cons_nth(3) [OF d] shift by (intro 1(1)) auto
    moreover have "push_bit shift (take_bit 7 v) OR push_bit (shift + 7) (drop_bit 7 v) = push_bit shift v"
      by (metis low7_high push_bit_or push_bit_push_bit)
    ultimately show ?thesis
      using varint_loop_step [OF d 1(3), of acc] False
      by (simp add: cont_byte cont_byte_ge varint.simps [of v] or.assoc)
  qed
qed

lemma varint_read:
  assumes "drop i d = varint v @ rest"
  shows "varint_loop d 0 i (0 :: uint64) = (None, v, i + length (varint v))" "drop (i + length (varint v)) d = rest"
proof -
  have "unat v < 2 ^ 64" using unsigned_less [of v, where ?'a = nat] by simp
  with varint_loop_varint [OF assms, of 0 0] show "varint_loop d 0 i (0 :: uint64) = (None, v, i + length (varint v))" by simp
  show "drop (i + length (varint v)) d = rest" using assms by (metis add.commute append_eq_conv_conj drop_drop)
qed

lemma varint_small: "v < 0x80 \<Longrightarrow> varint v = [ucast v]"
  by (simp add: varint.simps)

text \<open>A field of a smaller width gathers the low bits of the number.\<close>

lemma varint_loop_ucast:
  fixes v :: "'b::len word"
  assumes "LENGTH('a) \<le> LENGTH('b)"
  shows "varint_loop d shift i v = (e, w, k) \<Longrightarrow>
     varint_loop d shift i (ucast v :: 'a::len word) = (e, ucast w, k)"
proof (induction d shift i v rule: varint_loop.induct)
  case (1 d shift i v)
  have step: "ucast (v OR push_bit shift (ucast (b AND 0x7F))) =
      (ucast v OR push_bit shift (ucast (b AND 0x7F)) :: 'a word)" for b :: byte
    using assms by (intro bit_word_eqI) (auto simp: bit_simps)
  show ?case
  proof (cases "shift < 64 \<and> i < length d \<and> \<not> d ! i < 0x80")
    case True
    with "1.prems" have "varint_loop d (shift + 7) (i + 1) (v OR push_bit shift (ucast (d ! i AND 0x7F))) = (e, w, k)"
      by (simp add: varint_loop.simps [of d shift i v] Let_def)
    from "1.IH" [OF _ _ _ _ _ this] True show ?thesis
      by (subst varint_loop.simps) (simp add: step Let_def)
  next
    case False
    with "1.prems" step show ?thesis
      by (subst varint_loop.simps) (auto simp: varint_loop.simps [of d shift i v] Let_def split: if_splits)
  qed
qed

text \<open>A length and the bytes it announces.\<close>

lemma sint_of_nat: "k < 2 ^ 63 \<Longrightarrow> sint (of_nat k :: 64 word) = int k"
  by (simp add: signed_of_nat signed_take_bit_int_eq_self)

lemma of_nat_not_neg: "k < 2 ^ 63 \<Longrightarrow> \<not> (of_nat k :: 64 word) <s 0"
  by (simp add: word_sless_alt sint_of_nat)

lemma length_read:
  assumes "drop i d = varint (of_nat (length bs)) @ bs @ rest" and "length d < 2 ^ 63"
  defines "j \<equiv> i + length (varint (of_nat (length bs)))"
  shows "read_len d i = Inr (j, j + length bs)" "slice_range d j (j + length bs) = Ret bs"
    "drop (j + length bs) d = rest" "j + length bs \<le> length d"
proof -
  from varint_read [OF assms(1)] have v: "varint_loop d 0 i (0 :: uint64) = (None, of_nat (length bs), j)"
    and d: "drop j d = bs @ rest" by (simp_all add: j_def)
  have "length (bs @ rest) = length d - j" by (metis d length_drop)
  then have le: "length bs \<le> length d - j" by simp
  have "i < length d" using assms(1) by (cases "i < length d") (auto simp: varint.simps)
  moreover have "length (varint (of_nat (length bs))) \<le> length (drop i d)" by (simp add: assms(1))
  ultimately have "j \<le> length d" by (simp add: j_def)
  with le show fits: "j + length bs \<le> length d" by auto
  with assms(2) have small: "j + length bs < 2 ^ 63" "length bs < 2 ^ 63" by simp_all
  have sum: "of_nat j + of_nat (length bs) = (of_nat (j + length bs) :: 64 word)" by simp
  have "unat (of_nat (j + length bs) :: 64 word) = j + length bs"
    using small(1) by (simp only: unat_of_nat) simp
  then show "read_len d i = Inr (j, j + length bs)"
    using fits small by (simp only: read_len_def v prod.case option.case Let_def sum of_nat_not_neg sint_of_nat) simp
  show "slice_range d j (j + length bs) = Ret bs" using fits d by (simp add: slice_range_def)
  show "drop (j + length bs) d = rest" using d by (metis add.commute append_eq_conv_conj drop_drop)
qed

text \<open>A tag of one byte: the number of the field and the wire type.\<close>

definition tag_of :: "byte \<Rightarrow> nat \<Rightarrow> nat \<Rightarrow> bool" where
  "tag_of t n wireType \<longleftrightarrow> t = of_nat (8 * n + wireType) \<and> 0 < n \<and> n < 16 \<and> wireType \<in> {0, 2}"

lemma tag_read:
  assumes "tag_of t n wireType" and "drop i d = t # xs"
  shows "varint_loop d 0 i (0 :: uint64) = (None, of_nat (8 * n + wireType), i + 1)"
proof -
  obtain N where N: "N = 8 * n + wireType" "N < 128" "t = of_nat N" using assms(1) by (auto simp: tag_of_def)
  from N(2) have "(of_nat N :: 64 word) < 0x80" by (simp add: word_less_nat_alt unat_of_nat)
  moreover have "ucast (of_nat N :: 64 word) = t"
    using N(2,3) by (simp add: unsigned_of_nat take_bit_nat_eq_self)
  ultimately have "drop i d = varint (of_nat N) @ xs" "varint (of_nat N) = [t]"
    using assms(2) by (simp_all add: varint_small)
  from varint_read(1) [OF this(1)] this(2) N(1) show ?thesis by simp
qed

lemma tag_number:
  assumes "tag_of t n wireType"
  defines "fieldNum \<equiv> ucast (drop_bit 3 (of_nat (8 * n + wireType) :: uint64)) :: int32"
  shows "unat fieldNum = n" "\<not> fieldNum \<le>s 0" "unat ((of_nat (8 * n + wireType) :: uint64) AND 0x7) = wireType"
    "wireType \<noteq> 4"
proof -
  from assms(1) have n: "0 < n" "n < 16" and w: "wireType < 8" "wireType \<noteq> 4" by (auto simp: tag_of_def)
  obtain N where N: "N = 8 * n + wireType" "N < 128" using n w(1) by auto
  from N(2) have "unat (of_nat N :: uint64) = N" by (simp add: unat_of_nat)
  with N(2) have "unat (drop_bit 3 (of_nat N :: uint64)) = N div 8" "unat (take_bit 3 (of_nat N :: uint64)) = N mod 8"
    by (simp_all only: unsigned_drop_bit_eq unsigned_take_bit_eq) (simp_all add: drop_bit_eq_div take_bit_eq_mod)
  then have d: "unat (drop_bit 3 (of_nat (8 * n + wireType) :: uint64)) = n"
    and m: "unat (take_bit 3 (of_nat (8 * n + wireType) :: uint64)) = wireType"
    unfolding N(1) using w(1) by simp_all
  from d n show num: "unat fieldNum = n"
    by (simp only: fieldNum_def unsigned_ucast_eq) (simp add: take_bit_nat_eq_self)
  have "fieldNum = of_nat n" using num n by (simp add: word_unat_eq_iff unat_of_nat)
  then show "\<not> fieldNum \<le>s 0" using n
    by (simp add: word_sle_eq signed_of_nat signed_take_bit_int_eq_self)
  have "(of_nat (8 * n + wireType) :: uint64) AND 0x7 = take_bit 3 (of_nat (8 * n + wireType))"
    by (simp only: take_bit_eq_mask mask_eq_exp_minus_1) simp
  with m show "unat ((of_nat (8 * n + wireType) :: uint64) AND 0x7) = wireType" by (simp only:)
  show "wireType \<noteq> 4" by (rule w(2))
qed

text \<open>One turn of the loop, at the tag of a field that the message knows.\<close>

lemma decode_known:
  assumes "tag_of t n wireType" and "drop i d = t # xs" and "field n = Some f"
    and "f wireType d (i + 1) m = Some (Ret None, m1, k)"
  shows "decode_loop H name field add_unknown d i m = decode_loop H name field add_unknown d k m1"
  using tag_read [OF assms(1,2)] tag_number [OF assms(1)] drop_Cons_nth(1) [OF assms(2)] assms(3,4)
  by (subst decode_loop.simps) (simp add: Let_def)

text \<open>
  \<open>reads L d xs g\<close>: wherever \<open>xs\<close> stands in \<open>d\<close>, the loop \<open>L\<close> goes on after it with the message
  changed by \<open>g\<close>.
\<close>

definition reads :: "(nat \<Rightarrow> 'm \<Rightarrow> 'r) \<Rightarrow> bytes \<Rightarrow> bytes \<Rightarrow> ('m \<Rightarrow> 'm) \<Rightarrow> bool" where
  "reads L d xs g \<longleftrightarrow> (\<forall>i rest m. drop i d = xs @ rest \<longrightarrow> L i m = L (i + length xs) (g m))"

lemma reads_Nil: "reads L d [] (\<lambda>m. m)"
  by (simp add: reads_def)

lemma reads_append:
  assumes "reads L d xs g" and "reads L d ys h"
  shows "reads L d (xs @ ys) (\<lambda>m. h (g m))"
  unfolding reads_def
proof (intro allI impI)
  fix i rest m
  assume i: "drop i d = (xs @ ys) @ rest"
  then have "drop (i + length xs) d = ys @ rest"
    by (metis add.commute append_assoc append_eq_conv_conj drop_drop)
  with i assms show "L i m = L (i + length (xs @ ys)) (h (g m))"
    unfolding reads_def by (metis add.assoc append_assoc length_append)
qed

lemma reads_concat:
  "list_all2 (reads L d) xss gs \<Longrightarrow> reads L d (concat xss) (fold (\<lambda>g m. g m) gs)"
proof (induction rule: list_all2_induct)
  case Nil
  then show ?case using reads_Nil by simp
next
  case (Cons xs xss g gs)
  from reads_append [OF Cons(1,3)] show ?case by (simp add: comp_def)
qed

named_theorems reads_intros


text \<open>A field whose code reads \<open>ys\<close> after the tag.\<close>

lemma reads_field:
  assumes "tag_of t n wireType" and "field n = Some f"
    and "\<And>i rest m. drop i d = ys @ rest \<Longrightarrow> f wireType d i m = Some (Ret None, g m, i + length ys)"
  shows "reads (decode_loop H name field add_unknown d) d (t # ys) g"
  unfolding reads_def
proof (intro allI impI)
  fix i rest m
  assume "drop i d = (t # ys) @ rest"
  then have d: "drop i d = t # (ys @ rest)" by simp
  from assms(3) [OF drop_Cons_nth(3) [OF d], of m]
  have "f wireType d (i + 1) m = Some (Ret None, g m, i + 1 + length ys)" by simp
  from decode_known [where field = field and f = f, OF assms(1) d assms(2) this]
  show "decode_loop H name field add_unknown d i m =
    decode_loop H name field add_unknown d (i + length (t # ys)) (g m)" by simp
qed

lemma reads_int [reads_intros]:
  assumes "tag_of t n 0" and "field n = Some (field_int fname upd)"
  shows "reads (decode_loop H name field add_unknown d) d (wire_int t v) (\<lambda>m. if v = 0 then m else upd v m)"
proof (cases "v = 0")
  case False
  have "reads (decode_loop H name field add_unknown d) d (t # varint v) (upd v)"
    using varint_read(1) by (intro reads_field [where field = field, OF assms]) (simp add: field_int_def)
  with False show ?thesis by (simp add: wire_int_def)
qed (simp add: wire_int_def reads_Nil)

lemma ucast_scast: "ucast (scast (v :: 32 word) :: 64 word) = v"
  by (intro bit_word_eqI) (auto simp: bit_simps)

lemma enum_read:
  "drop i d = varint (scast v) @ rest \<Longrightarrow> varint_loop d 0 i (0 :: int32) = (None, v, i + length (varint (scast v)))"
  using varint_loop_ucast [where 'a = 32, OF _ varint_read(1) [of i d "scast v" rest]]
  by (simp add: ucast_scast)

lemma reads_enum [reads_intros]:
  assumes "tag_of t n 0" and "field n = Some (field_enum fname upd)"
  shows "reads (decode_loop H name field add_unknown d) d (wire_enum t v) (\<lambda>m. if v = 0 then m else upd v m)"
proof (cases "v = 0")
  case False
  have "reads (decode_loop H name field add_unknown d) d (t # varint (scast v)) (upd v)"
    using enum_read by (intro reads_field [where field = field, OF assms]) (simp add: field_enum_def)
  with False show ?thesis by (simp add: wire_enum_def)
qed (simp add: wire_enum_def reads_Nil)

lemma reads_bool [reads_intros]:
  assumes "tag_of t n 0" and "field n = Some (field_bool fname upd)"
  shows "reads (decode_loop H name field add_unknown d) d (wire_bool t b) (\<lambda>m. if b then upd True m else m)"
proof (cases b)
  case True
  have "reads (decode_loop H name field add_unknown d) d (t # [1]) (upd True)"
  proof (rule reads_field [where field = field, OF assms])
    fix i rest m
    assume "drop i d = [1] @ rest"
    then have "varint_loop d 0 i (0 :: int64) = (None, 1, i + 1)"
      using varint_read(1) [of i d 1 rest] by (simp add: varint_small)
    then show "field_bool fname upd 0 d i m = Some (Ret None, upd True m, i + length [1])"
      by (simp add: field_bool_def)
  qed
  with True show ?thesis by (simp add: wire_bool_def)
qed (simp add: wire_bool_def reads_Nil)

text \<open>Bytes with their length.\<close>

lemma field_bytes_len:
  assumes "length d < 2 ^ 63" and "drop i d = (varint (of_nat (length bs)) @ bs) @ rest"
  shows "field_bytes fname upd 2 d i m =
    Some (Ret None, upd (Some bs) m, i + length (varint (of_nat (length bs)) @ bs))"
  using length_read(1,2) [of i d bs rest] assms by (simp add: field_bytes_def add.assoc)

lemma reads_bytes_len:
  assumes "tag_of t n 2" and "field n = Some (field_bytes fname upd)" and "length d < 2 ^ 63"
  shows "reads (decode_loop H name field add_unknown d) d (wire_len t bs) (upd (Some bs))"
  unfolding wire_len_def
  by (rule reads_field [where field = field, OF assms(1,2) field_bytes_len [OF assms(3)]])

lemma wire_slice_bytes: "slice_bytes s \<noteq> [] \<Longrightarrow> wire_slice s = Some (slice_bytes s)"
  by (cases s) (auto simp: wire_slice_def slice_len_def)

lemma reads_bytes [reads_intros]:
  assumes "tag_of t n 2" and "field n = Some (field_bytes fname upd)" and "length d < 2 ^ 63"
  shows "reads (decode_loop H name field add_unknown d) d (wire_bytes t s)
    (\<lambda>m. if slice_bytes s = [] then m else upd (wire_slice s) m)"
proof (cases "slice_bytes s = []")
  case False
  with reads_bytes_len [where field = field and bs = "slice_bytes s", OF assms] show ?thesis
    by (simp add: wire_bytes_def wire_slice_bytes)
qed (simp add: wire_bytes_def reads_Nil)

text \<open>A field with number 64, whose tag has two bytes.\<close>

lemma decode_64:
  assumes "drop i d = 0x82 # 0x04 # xs" and "field 64 = Some f" and "f 2 d (i + 2) m = Some (Ret None, m1, k)"
  shows "decode_loop H name field add_unknown d i m = decode_loop H name field add_unknown d k m1"
proof -
  have "varint_loop d 0 i (0 :: uint64) = (None, 514, i + 2)"
    using varint_loop_step [OF assms(1), of 0 "0 :: uint64"]
      varint_loop_step [OF drop_Cons_nth(3) [OF assms(1)], of 7 "2 :: uint64"] by simp
  moreover have "unat (ucast (drop_bit 3 (514 :: uint64)) :: int32) = 64" by (simp add: drop_bit_eq_div)
  moreover have "\<not> (ucast (drop_bit 3 (514 :: uint64)) :: int32) \<le>s 0" by (simp add: drop_bit_eq_div word_sle_eq)
  ultimately show ?thesis using drop_Cons_nth(1) [OF assms(1)] assms(2,3)
    by (subst decode_loop.simps) (simp add: Let_def)
qed

lemma reads_bytes2 [reads_intros]:
  assumes "field 64 = Some (field_bytes fname upd)" and "length d < 2 ^ 63"
  shows "reads (decode_loop H name field add_unknown d) d (wire_bytes2 0x82 0x04 s)
    (\<lambda>m. if slice_bytes s = [] then m else upd (wire_slice s) m)"
proof (cases "slice_bytes s = []")
  case False
  let ?bs = "slice_bytes s"
  have "decode_loop H name field add_unknown d i m =
      decode_loop H name field add_unknown d (i + length (wire_bytes2 0x82 0x04 s)) (upd (Some ?bs) m)"
    if "drop i d = wire_bytes2 0x82 0x04 s @ rest" for i rest m
  proof -
    from False that have d: "drop i d = 0x82 # 0x04 # (varint (of_nat (length ?bs)) @ ?bs) @ rest"
      by (simp add: wire_bytes2_def wire_len_def)
    have "drop (i + 2) d = (varint (of_nat (length ?bs)) @ ?bs) @ rest"
      using drop_Cons_nth(3) [OF drop_Cons_nth(3) [OF d]] by simp
    from decode_64 [where field = field, OF d assms(1) field_bytes_len [OF assms(2) this]] False
    show ?thesis by (simp add: wire_bytes2_def wire_len_def add.assoc)
  qed
  with False show ?thesis by (simp add: reads_def wire_slice_bytes)
qed (simp add: wire_bytes2_def reads_Nil)

text \<open>A nested message that reads its own encoding \<open>bs\<close>.\<close>

lemma reads_oneof:
  assumes "tag_of t n 2" and "field n = Some (field_oneof fname current new upd unmarshal)"
    and "length d < 2 ^ 63" and "\<And>m0. unmarshal m0 bs = Some (Ret None, x m0)"
  shows "reads (decode_loop H name field add_unknown d) d (wire_len t bs)
    (\<lambda>m. upd (x (case current m of None \<Rightarrow> new | Some y \<Rightarrow> y)) m)"
  unfolding wire_len_def
proof (rule reads_field [where field = field, OF assms(1,2)])
  fix i rest m
  assume "drop i d = (varint (of_nat (length bs)) @ bs) @ rest"
  with length_read(1,2) [of i d bs rest] assms(3,4)
  show "field_oneof fname current new upd unmarshal 2 d i m =
      Some (Ret None, upd (x (case current m of None \<Rightarrow> new | Some y \<Rightarrow> y)) m,
        i + length (varint (of_nat (length bs)) @ bs))"
    by (simp add: field_oneof_def add.assoc split: option.split)
qed

lemma reads_len:
  assumes "tag_of t n 2" and "field n = Some (field_msg fname target upd unmarshal)"
    and "length d < 2 ^ 63" and "\<And>m. unmarshal (target m) bs = Some (Ret None, x m)"
  shows "reads (decode_loop H name field add_unknown d) d (wire_len t bs) (\<lambda>m. upd (x m) m)"
  unfolding wire_len_def
proof (rule reads_field [where field = field, OF assms(1,2)])
  fix i rest m
  assume "drop i d = (varint (of_nat (length bs)) @ bs) @ rest"
  with length_read(1,2) [of i d bs rest] assms(3,4)
  show "field_msg fname target upd unmarshal 2 d i m =
      Some (Ret None, upd (x m) m, i + length (varint (of_nat (length bs)) @ bs))"
    by (simp add: field_msg_def add.assoc)
qed

lemma reads_msgs:
  assumes "tag_of t n 2" and "field n = Some (field_msg fname (\<lambda>_. new) upd unmarshal)"
    and "length d < 2 ^ 63" and "\<And>k. k \<in> set ks \<Longrightarrow> unmarshal new (wire k) = Some (Ret None, x k)"
  shows "reads (decode_loop H name field add_unknown d) d (wire_msgs t wire ks) (fold (\<lambda>k. upd (x k)) ks)"
  using assms(4)
proof (induction ks)
  case Nil
  then show ?case using reads_Nil by (simp add: wire_msgs_def)
next
  case (Cons k ks)
  have "reads (decode_loop H name field add_unknown d) d (wire_len t (wire k) @ wire_msgs t wire ks)
      (\<lambda>m. fold (\<lambda>k. upd (x k)) ks (upd (x k) m))"
    using Cons by (intro reads_append reads_len [where field = field and target = "\<lambda>_. new", OF assms(1-3)]) auto
  then show ?case by (simp add: wire_msgs_def comp_def)
qed

section \<open>Unknown fields\<close>

text \<open>
  The bytes of fields the message does not know, as \<open>Skip\<close> divides them: each starts with a tag
  whose number the message has no field for.
\<close>

inductive unknown_bytes ::
  "protohelpers \<Rightarrow> (nat \<Rightarrow> 'f option) \<Rightarrow> bytes \<Rightarrow> bool" for H field where
  none: "unknown_bytes H field []"
| one: "unknown_bytes H field us \<Longrightarrow> u \<noteq> [] \<Longrightarrow> length (u @ us) < 2 ^ 63 \<Longrightarrow>
    ph_Skip H (u @ us) = Ret (Inr (of_nat (length u))) \<Longrightarrow>
    varint_loop (u @ us) 0 0 (0 :: uint64) = (None, wire, j) \<Longrightarrow>
    fieldNum = ucast (drop_bit 3 wire) \<Longrightarrow> \<not> (fieldNum :: int32) \<le>s 0 \<Longrightarrow> field (unat fieldNum) = None \<Longrightarrow>
    unat (wire AND 0x7) \<noteq> 4 \<Longrightarrow> unknown_bytes H field (u @ us)"

lemma varint_loop_drop:
  "varint_loop (drop i d) shift j v = (e, w, k) \<Longrightarrow> varint_loop d shift (i + j) v = (e, w, i + k)"
proof (induction "drop i d" shift j v arbitrary: k rule: varint_loop.induct)
  case (1 shift j v)
  then show ?case
    by (subst (asm) (2) varint_loop.simps, subst varint_loop.simps)
      (auto simp: Let_def add.assoc split: if_splits)
qed

text \<open>At the end of the bytes, they are all kept.\<close>

lemma reads_unknown:
  assumes "unknown_bytes H field us" and "length d < 2 ^ 63"
    and add: "\<And>xs ys m. add_unknown ys (add_unknown xs m) = add_unknown (xs @ ys) m" "\<And>m. add_unknown [] m = m"
  shows "drop i d = us \<Longrightarrow> i \<le> length d \<Longrightarrow>
    decode_loop H name field add_unknown d i m = Some (Ret None, add_unknown us m)"
  using assms(1)
proof (induction arbitrary: i m)
  case none
  then have "i = length d" by simp
  then show ?case by (subst decode_loop.simps) (simp add: add)
next
  case (one us u wire j fieldNum)
  have us: "drop (i + length u) d = us" using one.prems(1) by (metis add.commute append_eq_conv_conj drop_drop)
  have i: "i < length d" using one.prems one.hyps(2) by (cases "i < length d") auto
  have len: "length d = i + length u + length us"
    using one.prems by (metis add.assoc le_add_diff_inverse length_append length_drop)
  with assms(2) have small: "i + length u < 2 ^ 63" "length u < 2 ^ 63" by simp_all
  have tag: "varint_loop d 0 i 0 = (None, wire, i + j)"
    using varint_loop_drop [of i d 0 0 0] one.hyps(5) one.prems(1) by simp
  have sum: "of_nat i + of_nat (length u) = (of_nat (i + length u) :: 64 word)" by simp
  have "unat (of_nat (i + length u) :: 64 word) = i + length u"
    using small(1) by (simp only: unat_of_nat) simp
  moreover have "slice_range d i (i + length u) = Ret u"
    using one.prems(1) len by (simp add: slice_range_def)
  ultimately have "decode_loop H name field add_unknown d i m =
      decode_loop H name field add_unknown d (i + length u) (add_unknown u m)"
    using i tag one.hyps one.prems(1) small len
    by (subst decode_loop.simps) (simp add: Let_def sum sint_of_nat of_nat_not_neg del: of_nat_add)
  with one.IH [OF us] len show ?case by (simp add: add)
qed

section \<open>Unmarshalling returns\<close>

text \<open>
  The code of a field returns, without a panic, and where it does not end the function it moves
  the index on, within the bytes.
\<close>

definition field_returns ::
  "bytes \<Rightarrow> (nat \<Rightarrow> bytes \<Rightarrow> nat \<Rightarrow> 'm \<Rightarrow> 'm field_result) \<Rightarrow> bool" where
  "field_returns d f \<longleftrightarrow> (\<forall>wireType i m. i \<le> length d \<longrightarrow>
     (\<exists>e m1 k. f wireType d i m = Some (Ret e, m1, k) \<and> (e = None \<longrightarrow> i \<le> k \<and> k \<le> length d)))"

lemma varint_loop_index:
  "varint_loop d shift i v = (e, w, k) \<Longrightarrow> i \<le> length d \<Longrightarrow>
     i \<le> k \<and> k \<le> length d \<and> (e = None \<longrightarrow> i < k)"
proof (induction d shift i v arbitrary: k rule: varint_loop.induct)
  case (1 d shift i v)
  show ?case
  proof (cases "64 \<le> shift \<or> length d \<le> i")
    case True
    with "1.prems" show ?thesis by (auto simp: varint_loop.simps [of d shift i v] split: if_splits)
  next
    case False
    with "1.prems" show ?thesis
      by (auto simp: varint_loop.simps [of d shift i v] Let_def split: if_splits dest!: "1.IH" [rotated 4])
  qed
qed

text \<open>A sum of an index and a length that is not negative does not wrap below the sign.\<close>

lemma bit_63:
  assumes "0 \<le> (k :: int)" "k < 2 ^ 64"
  shows "bit k 63 \<longleftrightarrow> \<not> k < 2 ^ 63"
proof (cases "k < 2 ^ 63")
  case True
  with assms(1) show ?thesis by (simp add: bit_iff_odd div_pos_pos_trivial)
next
  case False
  from False assms(2) have "9223372036854775808 \<le> k" "k < 18446744073709551616" by simp_all
  then have "k div 9223372036854775808 = 1" by linarith
  with False show ?thesis by (simp add: bit_iff_odd)
qed

lemma not_neg_unat: "\<not> (w :: 64 word) <s 0 \<longleftrightarrow> unat w < 2 ^ 63"
proof -
  have k: "0 \<le> uint w" "uint w < 2 ^ 64" using unsigned_less [of w, where ?'a = int] by simp_all
  have "w <s 0 \<longleftrightarrow> bit (uint w) 63"
    by (simp add: word_sless_alt sint_uint signed_take_bit_negative_iff)
  also have "\<dots> \<longleftrightarrow> \<not> uint w < 2 ^ 63" by (rule bit_63 [OF k])
  also have "\<dots> \<longleftrightarrow> \<not> int (unat w) < int (2 ^ 63)" by simp
  finally show ?thesis by (simp only: of_nat_less_iff not_not)
qed

lemma index_sum:
  assumes "i < 2 ^ 63" and "\<not> (n :: 64 word) <s 0" and "\<not> of_nat i + n <s 0"
  shows "unat (of_nat i + n) = i + unat n" "sint (of_nat i + n) \<le> int l \<longleftrightarrow> i + unat n \<le> l"
proof -
  have sum: "of_nat i + n = (of_nat (i + unat n) :: 64 word)" by simp
  have "i + unat n < 2 ^ 64" using assms(1,2) by (simp add: not_neg_unat)
  then show u: "unat (of_nat i + n) = i + unat n" by (simp only: sum unat_of_nat) simp
  from assms(3) have "i + unat n < 2 ^ 63" by (simp only: not_neg_unat u)
  then show "sint (of_nat i + n) \<le> int l \<longleftrightarrow> i + unat n \<le> l" by (simp only: sum sint_of_nat of_nat_le_iff)
qed

lemma read_len_index:
  assumes "read_len d i = Inr (j, k)" and "i \<le> length d" and "length d < 2 ^ 63"
  shows "i \<le> j" "j \<le> k" "k \<le> length d"
proof -
  from assms(1) obtain n where v: "varint_loop d 0 i (0 :: int64) = (None, n, j)" and n: "\<not> n <s 0"
    "\<not> of_nat j + n <s 0" "sint (of_nat j + n) \<le> int (length d)" "k = unat (of_nat j + n)"
    by (auto simp: read_len_def Let_def split: prod.splits option.splits if_splits)
  from varint_loop_index [OF v assms(2)] show "i \<le> j" by simp
  moreover have "j < 2 ^ 63" using varint_loop_index [OF v assms(2)] assms(3) by simp
  ultimately show "j \<le> k" "k \<le> length d" using n index_sum [of j n] by simp_all
qed

named_theorems returns_intros

lemma field_int_returns [returns_intros]: "field_returns d (field_int fname upd)"
  by (auto simp: field_returns_def field_int_def split: prod.split dest: varint_loop_index)

lemma field_enum_returns [returns_intros]: "field_returns d (field_enum fname upd)"
  by (auto simp: field_returns_def field_enum_def split: prod.split dest: varint_loop_index)

lemma field_bool_returns [returns_intros]: "field_returns d (field_bool fname upd)"
  by (auto simp: field_returns_def field_bool_def split: prod.split option.split dest: varint_loop_index)

lemma slice_range_in: "a \<le> b \<Longrightarrow> b \<le> length d \<Longrightarrow> slice_range d a b = Ret (take (b - a) (drop a d))"
  by (simp add: slice_range_def)

lemma field_bytes_returns [returns_intros]:
  assumes "length d < 2 ^ 63"
  shows "field_returns d (field_bytes fname upd)"
  unfolding field_returns_def
proof (intro allI impI)
  fix wireType i m
  assume i: "i \<le> length d"
  show "\<exists>e m1 k. field_bytes fname upd wireType d i m = Some (Ret e, m1, k) \<and>
    (e = None \<longrightarrow> i \<le> k \<and> k \<le> length d)"
  proof (cases "read_len d i")
    case (Inr jk)
    obtain j k where jk: "jk = (j, k)" by (rule prod.exhaust)
    from read_len_index [OF Inr [unfolded jk] i assms] Inr jk show ?thesis
      by (simp add: field_bytes_def slice_range_in)
  qed (simp add: field_bytes_def)
qed

lemma field_msg_returns [returns_intros]:
  assumes "length d < 2 ^ 63"
    and "\<And>x bs. length bs < 2 ^ 63 \<Longrightarrow> \<exists>e x1. unmarshal x bs = Some (Ret e, x1)"
  shows "field_returns d (field_msg fname target upd unmarshal)"
  unfolding field_returns_def
proof (intro allI impI)
  fix wireType i m
  assume i: "i \<le> length d"
  show "\<exists>e m1 k. field_msg fname target upd unmarshal wireType d i m = Some (Ret e, m1, k) \<and>
    (e = None \<longrightarrow> i \<le> k \<and> k \<le> length d)"
  proof (cases "wireType = 2 \<and> (\<exists>jk. read_len d i = Inr jk)")
    case True
    then obtain j k where jk: "read_len d i = Inr (j, k)" by auto
    note index = read_len_index [OF jk i assms(1)]
    let ?bs = "take (k - j) (drop j d)"
    have "length ?bs < 2 ^ 63" using index assms(1) by simp
    from assms(2) [OF this] obtain e x1 where "unmarshal (target m) ?bs = Some (Ret e, x1)" by blast
    with True jk index show ?thesis by (auto simp: field_msg_def slice_range_in)
  next
    case False
    then show ?thesis by (auto simp: field_msg_def split: sum.split)
  qed
qed

lemma field_oneof_returns [returns_intros]:
  assumes "length d < 2 ^ 63"
    and "\<And>x bs. length bs < 2 ^ 63 \<Longrightarrow> \<exists>e x1. unmarshal x bs = Some (Ret e, x1)"
  shows "field_returns d (field_oneof fname current new upd unmarshal)"
  unfolding field_returns_def
proof (intro allI impI)
  fix wireType i m
  assume i: "i \<le> length d"
  show "\<exists>e m1 k. field_oneof fname current new upd unmarshal wireType d i m = Some (Ret e, m1, k) \<and>
    (e = None \<longrightarrow> i \<le> k \<and> k \<le> length d)"
  proof (cases "wireType = 2 \<and> (\<exists>jk. read_len d i = Inr jk)")
    case True
    then obtain j k where jk: "read_len d i = Inr (j, k)" by auto
    note index = read_len_index [OF jk i assms(1)]
    let ?bs = "take (k - j) (drop j d)"
    have "length ?bs < 2 ^ 63" using index assms(1) by simp
    note unm = assms(2) [OF this]
    show ?thesis
    proof (cases "current m")
      case None
      from unm [of new] obtain e x1 where "unmarshal new ?bs = Some (Ret e, x1)" by blast
      with True jk index None show ?thesis by (auto simp: field_oneof_def slice_range_in)
    next
      case (Some x)
      from unm [of x] obtain e x1 where "unmarshal x ?bs = Some (Ret e, x1)" by blast
      with True jk index Some show ?thesis by (auto simp: field_oneof_def slice_range_in)
    qed
  next
    case False
    then show ?thesis by (auto simp: field_oneof_def split: sum.split)
  qed
qed

text \<open>The loop ends on every sequence of bytes, and never panics.\<close>

lemma decode_returns:
  assumes "helpers_ok H" and "length d < 2 ^ 63" and "\<And>n f. field n = Some f \<Longrightarrow> field_returns d f"
  shows "i \<le> length d \<Longrightarrow> \<exists>e m1. decode_loop H name field add_unknown d i m = Some (Ret e, m1)"
proof (induction "length d - i" arbitrary: i m rule: less_induct)
  case less
  show ?case
  proof (cases "i < length d")
    case False
    with less.prems show ?thesis by (subst decode_loop.simps) simp
  next
    case True
    obtain e wire j where v: "varint_loop d 0 i (0 :: uint64) = (e, wire, j)" by (metis prod_cases3)
    note index = varint_loop_index [OF v less.prems]
    let ?n = "ucast (drop_bit 3 wire) :: int32" and ?wt = "unat (wire AND 0x7)"
    show ?thesis
    proof (cases "e = None \<and> ?wt \<noteq> 4 \<and> \<not> ?n \<le>s 0")
      case False
      with v True show ?thesis by (subst decode_loop.simps) (auto simp: Let_def split: option.split)
    next
      case ok: True
      show ?thesis
      proof (cases "field (unat ?n)")
        case (Some f)
        from assms(3) [OF Some] index obtain e1 m1 k where f: "f ?wt d j m = Some (Ret e1, m1, k)"
          and k: "e1 = None \<Longrightarrow> j \<le> k \<and> k \<le> length d" unfolding field_returns_def by metis
        have "\<exists>e m2. decode_loop H name field add_unknown d k m1 = Some (Ret e, m2)" if "e1 = None"
          using k [OF that] index ok True by (intro less.hyps) auto
        with f v ok True Some show ?thesis by (subst decode_loop.simps) (auto simp: Let_def)
      next
        case None
        have "drop i d \<noteq> []" "length (drop i d) < 2 ^ 63" using True assms(2) by auto
        with assms(1) obtain r where skip: "ph_Skip H (drop i d) = Ret r" "\<And>n. r = Inr n \<Longrightarrow> 0 <s n"
          unfolding helpers_ok_def by metis
        show ?thesis
        proof (cases r)
          case (Inl x)
          with skip v ok True None show ?thesis by (subst decode_loop.simps) (simp add: Let_def)
        next
          case (Inr n)
          let ?k = "unat (of_nat i + n)"
          have n: "\<not> n <s 0" "0 < unat n" using skip(2) [OF Inr]
            by (auto simp: word_sless_alt unat_gt_0)
          have "\<exists>e m2. decode_loop H name field add_unknown d ?k m1 = Some (Ret e, m2)"
            "slice_range d i ?k = Ret (take (?k - i) (drop i d))"
            if "\<not> of_nat i + n <s 0" "sint (of_nat i + n) \<le> int (length d)" for m1
          proof -
            have "i < 2 ^ 63" using True assms(2) by simp
            from index_sum [OF this n(1) that(1)] that(2) n(2)
            have k: "i < ?k" "?k \<le> length d" by simp_all
            from k True show "\<exists>e m2. decode_loop H name field add_unknown d ?k m1 = Some (Ret e, m2)"
              by (intro less.hyps) auto
            from k show "slice_range d i ?k = Ret (take (?k - i) (drop i d))" by (simp add: slice_range_in)
          qed
          with skip v ok True None Inr n show ?thesis
            by (subst decode_loop.simps) (auto simp: Let_def not_less)
        qed
      qed
    qed
  qed
qed

section \<open>A whole message\<close>

lemma unmarshal_fields:
  assumes "list_all2 (reads (decode_loop H name field add_unknown d) d) xss gs"
    and "d = concat xss @ us" and "unknown_bytes H field us" and "length d < 2 ^ 63"
    and "\<And>xs ys m. add_unknown ys (add_unknown xs m) = add_unknown (xs @ ys) m" "\<And>m. add_unknown [] m = m"
  shows "decode_loop H name field add_unknown d 0 m = Some (Ret None, add_unknown us (fold (\<lambda>g m. g m) gs m))"
proof -
  from reads_concat [OF assms(1)] have "decode_loop H name field add_unknown d 0 m =
      decode_loop H name field add_unknown d (length (concat xss)) (fold (\<lambda>g m. g m) gs m)"
    using assms(2) unfolding reads_def by (metis add_0 drop_0)
  with reads_unknown [OF assms(3,4) assms(5,6), of "length (concat xss)"] assms(2) show ?thesis by simp
qed

lemma unmarshal_merge:
  assumes "list_all2 (reads (decode_loop H name field add_unknown d) d) xss gs"
    and "\<And>xs ys m. add_unknown ys (add_unknown xs m) = add_unknown (xs @ ys) m" "\<And>m. add_unknown [] m = m"
    and "add_unknown us (fold (\<lambda>g m. g m) gs m) = m1"
    and "d = concat xss @ us" and "unknown_bytes H field us" and "length d < 2 ^ 63"
  shows "decode_loop H name field add_unknown d 0 m = Some (Ret None, m1)"
  using unmarshal_fields [OF assms(1,5,6,7,2,3)] assms(4) by simp

definition wire_opt :: "('m \<Rightarrow> bytes) \<Rightarrow> 'm option \<Rightarrow> bytes" where
  "wire_opt wire m = (case m of None \<Rightarrow> [] | Some x \<Rightarrow> wire x)"

text \<open>What a nested field becomes: merged into the message there is; an element of a repeated one
  is a new message.\<close>

definition merge_opt :: "('m \<Rightarrow> 'm \<Rightarrow> 'm) \<Rightarrow> 'm \<Rightarrow> 'm option \<Rightarrow> 'm option \<Rightarrow> 'm option" where
  "merge_opt merge new m m0 = (case m of None \<Rightarrow> m0
     | Some x \<Rightarrow> Some (merge x (case m0 of None \<Rightarrow> new | Some y \<Rightarrow> y)))"

lemma merge_opt_None: "merge_opt merge new None m0 = m0"
  by (simp add: merge_opt_def)

definition merge_elem :: "('m \<Rightarrow> 'm \<Rightarrow> 'm) \<Rightarrow> 'm \<Rightarrow> 'm option \<Rightarrow> 'm" where
  "merge_elem merge new k = (case k of None \<Rightarrow> new | Some x \<Rightarrow> merge x new)"

lemma reads_msg [reads_intros]:
  assumes "tag_of t n 2" and "field n = Some (field_msg fname (\<lambda>m. case get m of None \<Rightarrow> new | Some x \<Rightarrow> x)
      (\<lambda>x. upd (\<lambda>_. Some x)) unmarshal)"
    and "length d < 2 ^ 63" and "\<And>x m0. k = Some x \<Longrightarrow> unmarshal m0 (wire x) = Some (Ret None, merge x m0)"
  shows "reads (decode_loop H name field add_unknown d) d (wire_msg t (wire_opt wire) k)
    (\<lambda>m. if k = None then m else upd (\<lambda>_. merge_opt merge new k (get m)) m)"
proof (cases k)
  case None
  then show ?thesis using reads_Nil by (simp add: wire_msg_def)
next
  case (Some x)
  have "reads (decode_loop H name field add_unknown d) d (wire_len t (wire x))
      (\<lambda>m. upd (\<lambda>_. Some (merge x (case get m of None \<Rightarrow> new | Some x \<Rightarrow> x))) m)"
    using reads_len [where field = field and target = "\<lambda>m. case get m of None \<Rightarrow> new | Some x \<Rightarrow> x", OF assms(1-3),
        of "wire x" "\<lambda>m. merge x (case get m of None \<Rightarrow> new | Some x \<Rightarrow> x)"] assms(4) Some by simp
  with Some show ?thesis by (simp add: wire_msg_def wire_opt_def merge_opt_def)
qed

lemma reads_list:
  assumes "tag_of t n 2" and "field n = Some (field_msg fname (\<lambda>m. new) (\<lambda>x. upd (\<lambda>xs. xs @ [g x])) unmarshal)"
    and "length d < 2 ^ 63" and "\<And>k. k \<in> set ks \<Longrightarrow> unmarshal new (wire k) = Some (Ret None, x k)"
    and "\<And>m f g. upd f (upd g m) = upd (f \<circ> g) m" "\<And>m. upd (\<lambda>xs. xs) m = m"
  shows "reads (decode_loop H name field add_unknown d) d (wire_msgs t wire ks)
    (upd (\<lambda>xs. xs @ map (\<lambda>k. g (x k)) ks))"
proof -
  have "fold (\<lambda>k. upd (\<lambda>xs. xs @ [g (x k)])) ks m = upd (\<lambda>xs. xs @ map (\<lambda>k. g (x k)) ks) m" for m
    by (induction ks arbitrary: m) (simp_all add: assms(5,6) comp_def)
  then have eq: "fold (\<lambda>k. upd (\<lambda>xs. xs @ [g (x k)])) ks = upd (\<lambda>xs. xs @ map (\<lambda>k. g (x k)) ks)"
    by (rule ext)
  show ?thesis unfolding eq [symmetric]
    by (rule reads_msgs [where field = field and new = new, OF assms(1-3)]) (rule assms(4))
qed

lemma reads_elems [reads_intros]:
  assumes "tag_of t n 2" and "field n = Some (field_msg fname (\<lambda>m. new) (\<lambda>x. upd (\<lambda>xs. xs @ [Some x])) unmarshal)"
    and "length d < 2 ^ 63"
    and "\<And>k. k \<in> set ks \<Longrightarrow> unmarshal new (wire_opt wire k) = Some (Ret None, merge_elem merge new k)"
    and "\<And>m f g. upd f (upd g m) = upd (f \<circ> g) m" "\<And>m. upd (\<lambda>xs. xs) m = m"
  shows "reads (decode_loop H name field add_unknown d) d (wire_msgs t (wire_opt wire) ks)
    (upd (\<lambda>xs. xs @ map (\<lambda>k. Some (merge_elem merge new k)) ks))"
  by (rule reads_list [where field = field and g = Some and upd = upd and x = "merge_elem merge new",
      OF assms(1-3) _ assms(5,6)]) (rule assms(4))

text \<open>A nested message is no longer than the field it stands in.\<close>

lemma nested_length:
  "length (wire x) \<le> length (wire_msg tag (wire_opt wire) (Some x))"
  "k \<in> set ks \<Longrightarrow> length (w k) \<le> length (wire_msgs tag w ks)"
proof -
  show "length (wire x) \<le> length (wire_msg tag (wire_opt wire) (Some x))"
    by (simp add: wire_msg_def wire_opt_def wire_len_def)
  assume "k \<in> set ks"
  then show "length (w k) \<le> length (wire_msgs tag w ks)"
    by (induction ks) (auto simp: wire_msgs_def wire_len_def)
qed

lemma normal_slice:
  "wire_slice s = s \<Longrightarrow> slice_bytes s = [] \<Longrightarrow> None = s" "slice_bytes s \<noteq> [] \<Longrightarrow> wire_slice s = s"
  by (cases s rule: slice_bytes.cases; simp add: wire_slice_def slice_len_def split: if_splits)+

lemma decode_nothing: "decode_loop H name field add_unknown [] 0 m = Some (Ret None, m)"
  by (subst decode_loop.simps) simp

end
