(* ===== verification/Wire_Roundtrip.thy ===== *)
theory Wire_Roundtrip
  imports Wire_Messages Wire_Reading
begin

text \<open>
  For each message: its encoding (\<open>wire_\<close>), which marshalling produces in a buffer of exactly the
  right size; what unmarshalling an encoding does to the message it is called on (\<open>merge_\<close>); and
  that unmarshalling returns on any bytes.
\<close>

lemma tags_of [reads_intros]:
  "tag_of 0x08 1 0"
  "tag_of 0x0A 1 2"
  "tag_of 0x10 2 0"
  "tag_of 0x12 2 2"
  "tag_of 0x18 3 0"
  "tag_of 0x1A 3 2"
  "tag_of 0x20 4 0"
  "tag_of 0x22 4 2"
  "tag_of 0x28 5 0"
  "tag_of 0x30 6 0"
  "tag_of 0x38 7 0"
  "tag_of 0x40 8 0"
  "tag_of 0x48 9 0"
  "tag_of 0x50 10 0"
  "tag_of 0x58 11 0"
  by (simp_all add: tag_of_def)

section \<open>KeyValue\<close>

definition wire_KeyValue :: "KeyValue \<Rightarrow> bytes" where
  "wire_KeyValue m = concat [
     wire_bytes 0x0A (kv_Key m), wire_int 0x10 (kv_CreateRevision m),
     wire_int 0x18 (kv_ModRevision m), wire_bytes 0x22 (kv_Value m)] @ kv_unknownFields m"

definition merge_KeyValue :: "KeyValue \<Rightarrow> KeyValue \<Rightarrow> KeyValue" where
  "merge_KeyValue m m0 = m0\<lparr>
     kv_Key := if slice_bytes (kv_Key m) = [] then kv_Key m0 else wire_slice (kv_Key m),
     kv_CreateRevision := if kv_CreateRevision m = 0 then kv_CreateRevision m0 else kv_CreateRevision m,
     kv_ModRevision := if kv_ModRevision m = 0 then kv_ModRevision m0 else kv_ModRevision m,
     kv_Value := if slice_bytes (kv_Value m) = [] then kv_Value m0 else wire_slice (kv_Value m),
     kv_unknownFields := kv_unknownFields m0 @ kv_unknownFields m\<rparr>"

definition KeyValue_ok :: "protohelpers \<Rightarrow> KeyValue \<Rightarrow> bool" where
  "KeyValue_ok H m \<longleftrightarrow> unknown_bytes H KeyValue_field (kv_unknownFields m)"

definition normal_KeyValue :: "KeyValue \<Rightarrow> bool" where
  "normal_KeyValue m \<longleftrightarrow> wire_slice (kv_Key m) = kv_Key m \<and>
     wire_slice (kv_Value m) = kv_Value m"

lemma new_KeyValue_merge:
  assumes "normal_KeyValue m"
  shows "merge_KeyValue m new_KeyValue = m"
  using assms
  by (cases m) (auto simp: merge_KeyValue_def new_KeyValue_def normal_KeyValue_def normal_slice split: option.split)

lemma KeyValue_marshals:
  assumes "helpers_ok H"
  shows "marshals (KeyValue_MarshalToSizedBufferVT H m) (wire_opt wire_KeyValue m)"
proof (cases m)
  case None
  then show ?thesis by (simp add: KeyValue_MarshalToSizedBufferVT_def [abs_def] wire_opt_def marshals_nil)
next
  case (Some x)
  then show ?thesis
    by (simp add: KeyValue_MarshalToSizedBufferVT_def [abs_def] wire_opt_def wire_KeyValue_def)
      (rule marshals_fields, (rule list.rel_intros prepends_intros assms)+, simp)
qed

lemma KeyValue_SizeVT:
  assumes "helpers_ok H"
  shows "KeyValue_SizeVT H m = length (wire_opt wire_KeyValue m)"
  by (cases m) (simp_all add: KeyValue_SizeVT_def wire_opt_def wire_KeyValue_def size_fields [OF assms, symmetric])

lemma KeyValue_marshalled:
  "helpers_ok H \<Longrightarrow> KeyValue_MarshalVT H (Some m) = Ret (Some (wire_KeyValue m))"
  using marshal_vt_writes [of "KeyValue_MarshalToSizedBufferVT H" m _ "KeyValue_SizeVT H", OF KeyValue_marshals]
    KeyValue_SizeVT [of H "Some m"]
  by (simp add: KeyValue_MarshalVT_def wire_opt_def)

lemma KeyValue_fields [reads_intros]:
  "KeyValue_field 1 = Some (field_bytes ''Key'' (\<lambda>v. kv_Key_update (\<lambda>_. v)))"
  "KeyValue_field 2 = Some (field_int ''CreateRevision'' (\<lambda>v. kv_CreateRevision_update (\<lambda>_. v)))"
  "KeyValue_field 3 = Some (field_int ''ModRevision'' (\<lambda>v. kv_ModRevision_update (\<lambda>_. v)))"
  "KeyValue_field 4 = Some (field_bytes ''Value'' (\<lambda>v. kv_Value_update (\<lambda>_. v)))"
  by (simp_all add: KeyValue_field_def)

lemma KeyValue_unmarshal:
  assumes "KeyValue_ok H m" and "length (wire_KeyValue m) < 2 ^ 63"
  shows "KeyValue_UnmarshalVT H m0 (wire_KeyValue m) = Some (Ret None, merge_KeyValue m m0)"
proof -
  have unknown: "unknown_bytes H KeyValue_field (kv_unknownFields m)" using assms(1) by (simp add: KeyValue_ok_def)
  show ?thesis unfolding KeyValue_UnmarshalVT_def
    by (rule unmarshal_merge [OF _ _ _ _ wire_KeyValue_def unknown assms(2)],
        ((rule list.rel_intros reads_intros assms(2) | (simp; fail))+)[3],
        simp only: fold_simps, rule KeyValue.equality)
      (simp_all add: merge_KeyValue_def if_distrib [of kv_Key] if_distrib [of kv_CreateRevision]
        if_distrib [of kv_ModRevision] if_distrib [of kv_Value]
        if_distrib [of kv_unknownFields] if_distrib [of KeyValue.more])
qed

definition KeyValue_sendable :: "protohelpers \<Rightarrow> KeyValue \<Rightarrow> bool" where
  "KeyValue_sendable H m \<longleftrightarrow> KeyValue_ok H m \<and> normal_KeyValue m \<and> length (wire_KeyValue m) < 2 ^ 63"

lemma KeyValue_received:
  "KeyValue_sendable H m \<Longrightarrow> KeyValue_UnmarshalVT H new_KeyValue (wire_KeyValue m) = Some (Ret None, m)"
  by (simp add: KeyValue_sendable_def KeyValue_unmarshal new_KeyValue_merge)

lemma KeyValue_elem:
  assumes "\<And>x. k = Some x \<Longrightarrow> KeyValue_ok H x" and "length (wire_opt wire_KeyValue k) < 2 ^ 63"
  shows "KeyValue_UnmarshalVT H new_KeyValue (wire_opt wire_KeyValue k) =
    Some (Ret None, merge_elem merge_KeyValue new_KeyValue k)"
proof (cases k)
  case None
  then show ?thesis by (simp add: wire_opt_def merge_elem_def KeyValue_UnmarshalVT_def decode_nothing)
next
  case (Some x)
  with assms show ?thesis by (simp add: wire_opt_def merge_elem_def KeyValue_unmarshal)
qed

lemma KeyValue_returns:
  assumes "helpers_ok H" and "length d < 2 ^ 63"
  shows "\<exists>e m1. KeyValue_UnmarshalVT H m d = Some (Ret e, m1)"
  unfolding KeyValue_UnmarshalVT_def
proof (rule decode_returns [OF assms])
  fix n f
  assume "KeyValue_field n = Some f"
  then show "field_returns d f" using assms(2)
    by (auto simp: KeyValue_field_def split: if_splits intro!: returns_intros)
qed simp

section \<open>ResponseHeader\<close>

definition wire_ResponseHeader :: "ResponseHeader \<Rightarrow> bytes" where
  "wire_ResponseHeader m = concat [
     wire_int 0x08 (rh_ShardId m), wire_int 0x10 (rh_ReplicaId m),
     wire_int 0x18 (rh_Revision m), wire_int 0x20 (rh_RaftTerm m),
     wire_int 0x28 (rh_RaftLeaderId m)] @ rh_unknownFields m"

definition merge_ResponseHeader ::
  "ResponseHeader \<Rightarrow> ResponseHeader \<Rightarrow> ResponseHeader" where
  "merge_ResponseHeader m m0 = m0\<lparr>
     rh_ShardId := if rh_ShardId m = 0 then rh_ShardId m0 else rh_ShardId m,
     rh_ReplicaId := if rh_ReplicaId m = 0 then rh_ReplicaId m0 else rh_ReplicaId m,
     rh_Revision := if rh_Revision m = 0 then rh_Revision m0 else rh_Revision m,
     rh_RaftTerm := if rh_RaftTerm m = 0 then rh_RaftTerm m0 else rh_RaftTerm m,
     rh_RaftLeaderId := if rh_RaftLeaderId m = 0 then rh_RaftLeaderId m0 else rh_RaftLeaderId m,
     rh_unknownFields := rh_unknownFields m0 @ rh_unknownFields m\<rparr>"

definition ResponseHeader_ok :: "protohelpers \<Rightarrow> ResponseHeader \<Rightarrow> bool" where
  "ResponseHeader_ok H m \<longleftrightarrow> unknown_bytes H ResponseHeader_field (rh_unknownFields m)"

lemma new_ResponseHeader_merge:
  "merge_ResponseHeader m new_ResponseHeader = m"
  by (cases m) (auto simp: merge_ResponseHeader_def new_ResponseHeader_def normal_slice split: option.split)

lemma ResponseHeader_marshals:
  assumes "helpers_ok H"
  shows "marshals (ResponseHeader_MarshalToSizedBufferVT H m) (wire_opt wire_ResponseHeader m)"
proof (cases m)
  case None
  then show ?thesis by (simp add: ResponseHeader_MarshalToSizedBufferVT_def [abs_def] wire_opt_def marshals_nil)
next
  case (Some x)
  then show ?thesis
    by (simp add: ResponseHeader_MarshalToSizedBufferVT_def [abs_def] wire_opt_def wire_ResponseHeader_def)
      (rule marshals_fields, (rule list.rel_intros prepends_intros assms)+, simp)
qed

lemma ResponseHeader_SizeVT:
  assumes "helpers_ok H"
  shows "ResponseHeader_SizeVT H m = length (wire_opt wire_ResponseHeader m)"
  by (cases m) (simp_all add: ResponseHeader_SizeVT_def wire_opt_def wire_ResponseHeader_def size_fields [OF assms, symmetric])

lemma ResponseHeader_marshalled:
  "helpers_ok H \<Longrightarrow> ResponseHeader_MarshalVT H (Some m) = Ret (Some (wire_ResponseHeader m))"
  using marshal_vt_writes [of "ResponseHeader_MarshalToSizedBufferVT H" m _ "ResponseHeader_SizeVT H", OF ResponseHeader_marshals]
    ResponseHeader_SizeVT [of H "Some m"]
  by (simp add: ResponseHeader_MarshalVT_def wire_opt_def)

lemma ResponseHeader_fields [reads_intros]:
  "ResponseHeader_field 1 = Some (field_int ''ShardId'' (\<lambda>v. rh_ShardId_update (\<lambda>_. v)))"
  "ResponseHeader_field 2 = Some (field_int ''ReplicaId'' (\<lambda>v. rh_ReplicaId_update (\<lambda>_. v)))"
  "ResponseHeader_field 3 = Some (field_int ''Revision'' (\<lambda>v. rh_Revision_update (\<lambda>_. v)))"
  "ResponseHeader_field 4 = Some (field_int ''RaftTerm'' (\<lambda>v. rh_RaftTerm_update (\<lambda>_. v)))"
  "ResponseHeader_field 5 = Some (field_int ''RaftLeaderId'' (\<lambda>v. rh_RaftLeaderId_update (\<lambda>_. v)))"
  by (simp_all add: ResponseHeader_field_def)

lemma ResponseHeader_unmarshal:
  assumes "ResponseHeader_ok H m" and "length (wire_ResponseHeader m) < 2 ^ 63"
  shows "ResponseHeader_UnmarshalVT H m0 (wire_ResponseHeader m) = Some (Ret None, merge_ResponseHeader m m0)"
proof -
  have unknown: "unknown_bytes H ResponseHeader_field (rh_unknownFields m)" using assms(1) by (simp add: ResponseHeader_ok_def)
  show ?thesis unfolding ResponseHeader_UnmarshalVT_def
    by (rule unmarshal_merge [OF _ _ _ _ wire_ResponseHeader_def unknown assms(2)],
        ((rule list.rel_intros reads_intros assms(2) | (simp; fail))+)[3],
        simp only: fold_simps, rule ResponseHeader.equality)
      (simp_all add: merge_ResponseHeader_def if_distrib [of rh_ShardId] if_distrib [of rh_ReplicaId] if_distrib [of rh_Revision]
        if_distrib [of rh_RaftTerm] if_distrib [of rh_RaftLeaderId]
        if_distrib [of rh_unknownFields] if_distrib [of ResponseHeader.more])
qed

definition ResponseHeader_sendable :: "protohelpers \<Rightarrow> ResponseHeader \<Rightarrow> bool" where
  "ResponseHeader_sendable H m \<longleftrightarrow> ResponseHeader_ok H m \<and> length (wire_ResponseHeader m) < 2 ^ 63"

lemma ResponseHeader_received:
  "ResponseHeader_sendable H m \<Longrightarrow> ResponseHeader_UnmarshalVT H new_ResponseHeader (wire_ResponseHeader m) = Some (Ret None, m)"
  by (simp add: ResponseHeader_sendable_def ResponseHeader_unmarshal new_ResponseHeader_merge)

lemma ResponseHeader_returns:
  assumes "helpers_ok H" and "length d < 2 ^ 63"
  shows "\<exists>e m1. ResponseHeader_UnmarshalVT H m d = Some (Ret e, m1)"
  unfolding ResponseHeader_UnmarshalVT_def
proof (rule decode_returns [OF assms])
  fix n f
  assume "ResponseHeader_field n = Some f"
  then show "field_returns d f" using assms(2)
    by (auto simp: ResponseHeader_field_def split: if_splits intro!: returns_intros)
qed simp

section \<open>RangeRequest\<close>

definition wire_RangeRequest :: "RangeRequest \<Rightarrow> bytes" where
  "wire_RangeRequest m = concat [
     wire_bytes 0x0A (rr_Table m), wire_bytes 0x12 (rr_Key m), wire_bytes 0x1A (rr_RangeEnd m),
     wire_int 0x20 (rr_Limit m), wire_bool 0x28 (rr_Linearizable m),
     wire_bool 0x30 (rr_KeysOnly m), wire_bool 0x38 (rr_CountOnly m),
     wire_int 0x40 (rr_MinModRevision m), wire_int 0x48 (rr_MaxModRevision m),
     wire_int 0x50 (rr_MinCreateRevision m), wire_int 0x58 (rr_MaxCreateRevision m)] @ rr_unknownFields m"

definition merge_RangeRequest ::
  "RangeRequest \<Rightarrow> RangeRequest \<Rightarrow> RangeRequest" where
  "merge_RangeRequest m m0 = m0\<lparr>
     rr_Table := if slice_bytes (rr_Table m) = [] then rr_Table m0 else wire_slice (rr_Table m),
     rr_Key := if slice_bytes (rr_Key m) = [] then rr_Key m0 else wire_slice (rr_Key m),
     rr_RangeEnd := if slice_bytes (rr_RangeEnd m) = [] then rr_RangeEnd m0 else wire_slice (rr_RangeEnd m),
     rr_Limit := if rr_Limit m = 0 then rr_Limit m0 else rr_Limit m,
     rr_Linearizable := rr_Linearizable m \<or> rr_Linearizable m0,
     rr_KeysOnly := rr_KeysOnly m \<or> rr_KeysOnly m0,
     rr_CountOnly := rr_CountOnly m \<or> rr_CountOnly m0,
     rr_MinModRevision := if rr_MinModRevision m = 0 then rr_MinModRevision m0 else rr_MinModRevision m,
     rr_MaxModRevision := if rr_MaxModRevision m = 0 then rr_MaxModRevision m0 else rr_MaxModRevision m,
     rr_MinCreateRevision := if rr_MinCreateRevision m = 0 then rr_MinCreateRevision m0 else rr_MinCreateRevision m,
     rr_MaxCreateRevision := if rr_MaxCreateRevision m = 0 then rr_MaxCreateRevision m0 else rr_MaxCreateRevision m,
     rr_unknownFields := rr_unknownFields m0 @ rr_unknownFields m\<rparr>"

definition RangeRequest_ok :: "protohelpers \<Rightarrow> RangeRequest \<Rightarrow> bool" where
  "RangeRequest_ok H m \<longleftrightarrow> unknown_bytes H RangeRequest_field (rr_unknownFields m)"

definition normal_RangeRequest :: "RangeRequest \<Rightarrow> bool" where
  "normal_RangeRequest m \<longleftrightarrow> wire_slice (rr_Table m) = rr_Table m \<and>
     wire_slice (rr_Key m) = rr_Key m \<and>
     wire_slice (rr_RangeEnd m) = rr_RangeEnd m"

lemma new_RangeRequest_merge:
  assumes "normal_RangeRequest m"
  shows "merge_RangeRequest m new_RangeRequest = m"
  using assms
  by (cases m) (auto simp: merge_RangeRequest_def new_RangeRequest_def normal_RangeRequest_def normal_slice split: option.split)

lemma RangeRequest_marshals:
  assumes "helpers_ok H"
  shows "marshals (RangeRequest_MarshalToSizedBufferVT H m) (wire_opt wire_RangeRequest m)"
proof (cases m)
  case None
  then show ?thesis by (simp add: RangeRequest_MarshalToSizedBufferVT_def [abs_def] wire_opt_def marshals_nil)
next
  case (Some x)
  then show ?thesis
    by (simp add: RangeRequest_MarshalToSizedBufferVT_def [abs_def] wire_opt_def wire_RangeRequest_def)
      (rule marshals_fields, (rule list.rel_intros prepends_intros assms)+, simp)
qed

lemma RangeRequest_SizeVT:
  assumes "helpers_ok H"
  shows "RangeRequest_SizeVT H m = length (wire_opt wire_RangeRequest m)"
  by (cases m) (simp_all add: RangeRequest_SizeVT_def wire_opt_def wire_RangeRequest_def size_fields [OF assms, symmetric])

lemma RangeRequest_marshalled:
  "helpers_ok H \<Longrightarrow> RangeRequest_MarshalVT H (Some m) = Ret (Some (wire_RangeRequest m))"
  using marshal_vt_writes [of "RangeRequest_MarshalToSizedBufferVT H" m _ "RangeRequest_SizeVT H", OF RangeRequest_marshals]
    RangeRequest_SizeVT [of H "Some m"]
  by (simp add: RangeRequest_MarshalVT_def wire_opt_def)

lemma RangeRequest_fields [reads_intros]:
  "RangeRequest_field 1 = Some (field_bytes ''Table'' (\<lambda>v. rr_Table_update (\<lambda>_. v)))"
  "RangeRequest_field 2 = Some (field_bytes ''Key'' (\<lambda>v. rr_Key_update (\<lambda>_. v)))"
  "RangeRequest_field 3 = Some (field_bytes ''RangeEnd'' (\<lambda>v. rr_RangeEnd_update (\<lambda>_. v)))"
  "RangeRequest_field 4 = Some (field_int ''Limit'' (\<lambda>v. rr_Limit_update (\<lambda>_. v)))"
  "RangeRequest_field 5 = Some (field_bool ''Linearizable'' (\<lambda>v. rr_Linearizable_update (\<lambda>_. v)))"
  "RangeRequest_field 6 = Some (field_bool ''KeysOnly'' (\<lambda>v. rr_KeysOnly_update (\<lambda>_. v)))"
  "RangeRequest_field 7 = Some (field_bool ''CountOnly'' (\<lambda>v. rr_CountOnly_update (\<lambda>_. v)))"
  "RangeRequest_field 8 = Some (field_int ''MinModRevision'' (\<lambda>v. rr_MinModRevision_update (\<lambda>_. v)))"
  "RangeRequest_field 9 = Some (field_int ''MaxModRevision'' (\<lambda>v. rr_MaxModRevision_update (\<lambda>_. v)))"
  "RangeRequest_field 10 = Some (field_int ''MinCreateRevision'' (\<lambda>v. rr_MinCreateRevision_update (\<lambda>_. v)))"
  "RangeRequest_field 11 = Some (field_int ''MaxCreateRevision'' (\<lambda>v. rr_MaxCreateRevision_update (\<lambda>_. v)))"
  by (simp_all add: RangeRequest_field_def)

lemma RangeRequest_unmarshal:
  assumes "RangeRequest_ok H m" and "length (wire_RangeRequest m) < 2 ^ 63"
  shows "RangeRequest_UnmarshalVT H m0 (wire_RangeRequest m) = Some (Ret None, merge_RangeRequest m m0)"
proof -
  have unknown: "unknown_bytes H RangeRequest_field (rr_unknownFields m)" using assms(1) by (simp add: RangeRequest_ok_def)
  show ?thesis unfolding RangeRequest_UnmarshalVT_def
    by (rule unmarshal_merge [OF _ _ _ _ wire_RangeRequest_def unknown assms(2)],
        ((rule list.rel_intros reads_intros assms(2) | (simp; fail))+)[3],
        simp only: fold_simps, rule RangeRequest.equality)
      (simp_all add: merge_RangeRequest_def if_distrib [of rr_Table] if_distrib [of rr_Key] if_distrib [of rr_RangeEnd]
        if_distrib [of rr_Limit] if_distrib [of rr_Linearizable]
        if_distrib [of rr_KeysOnly] if_distrib [of rr_CountOnly]
        if_distrib [of rr_MinModRevision] if_distrib [of rr_MaxModRevision]
        if_distrib [of rr_MinCreateRevision] if_distrib [of rr_MaxCreateRevision]
        if_distrib [of rr_unknownFields] if_distrib [of RangeRequest.more])
qed

definition RangeRequest_sendable :: "protohelpers \<Rightarrow> RangeRequest \<Rightarrow> bool" where
  "RangeRequest_sendable H m \<longleftrightarrow> RangeRequest_ok H m \<and> normal_RangeRequest m \<and> length (wire_RangeRequest m) < 2 ^ 63"

lemma RangeRequest_received:
  "RangeRequest_sendable H m \<Longrightarrow> RangeRequest_UnmarshalVT H new_RangeRequest (wire_RangeRequest m) = Some (Ret None, m)"
  by (simp add: RangeRequest_sendable_def RangeRequest_unmarshal new_RangeRequest_merge)

lemma RangeRequest_returns:
  assumes "helpers_ok H" and "length d < 2 ^ 63"
  shows "\<exists>e m1. RangeRequest_UnmarshalVT H m d = Some (Ret e, m1)"
  unfolding RangeRequest_UnmarshalVT_def
proof (rule decode_returns [OF assms])
  fix n f
  assume "RangeRequest_field n = Some f"
  then show "field_returns d f" using assms(2)
    by (auto simp: RangeRequest_field_def split: if_splits intro!: returns_intros)
qed simp

section \<open>RangeResponse\<close>

definition wire_RangeResponse :: "RangeResponse \<Rightarrow> bytes" where
  "wire_RangeResponse m = concat [
     wire_msg 0x0A (wire_opt wire_ResponseHeader) (rs_Header m),
     wire_msgs 0x1A (wire_opt wire_KeyValue) (rs_Kvs m), wire_bool 0x20 (rs_More m),
     wire_int 0x28 (rs_Count m)] @ rs_unknownFields m"

definition merge_RangeResponse ::
  "RangeResponse \<Rightarrow> RangeResponse \<Rightarrow> RangeResponse" where
  "merge_RangeResponse m m0 = m0\<lparr>
     rs_Header := merge_opt merge_ResponseHeader new_ResponseHeader (rs_Header m) (rs_Header m0),
     rs_Kvs := rs_Kvs m0 @ map (\<lambda>k. Some (merge_elem merge_KeyValue new_KeyValue k)) (rs_Kvs m),
     rs_More := rs_More m \<or> rs_More m0,
     rs_Count := if rs_Count m = 0 then rs_Count m0 else rs_Count m,
     rs_unknownFields := rs_unknownFields m0 @ rs_unknownFields m\<rparr>"

definition RangeResponse_ok :: "protohelpers \<Rightarrow> RangeResponse \<Rightarrow> bool" where
  "RangeResponse_ok H m \<longleftrightarrow> unknown_bytes H (RangeResponse_field H) (rs_unknownFields m) \<and>
     (\<forall>x. rs_Header m = Some x \<longrightarrow> ResponseHeader_ok H x) \<and>
     (\<forall>x. Some x \<in> set (rs_Kvs m) \<longrightarrow> KeyValue_ok H x)"

definition normal_RangeResponse :: "RangeResponse \<Rightarrow> bool" where
  "normal_RangeResponse m \<longleftrightarrow> (\<forall>k \<in> set (rs_Kvs m). \<exists>x. k = Some x \<and> normal_KeyValue x)"

lemma new_RangeResponse_merge:
  assumes "normal_RangeResponse m"
  shows "merge_RangeResponse m new_RangeResponse = m"
  using assms
  by (cases m) (auto simp: merge_RangeResponse_def new_RangeResponse_def normal_RangeResponse_def normal_slice new_KeyValue_merge new_ResponseHeader_merge merge_opt_def merge_elem_def intro!: map_idI split: option.split)

lemma RangeResponse_marshals:
  assumes "helpers_ok H"
  shows "marshals (RangeResponse_MarshalToSizedBufferVT H m) (wire_opt wire_RangeResponse m)"
proof (cases m)
  case None
  then show ?thesis by (simp add: RangeResponse_MarshalToSizedBufferVT_def [abs_def] wire_opt_def marshals_nil)
next
  case (Some x)
  then show ?thesis
    by (simp add: RangeResponse_MarshalToSizedBufferVT_def [abs_def] wire_opt_def wire_RangeResponse_def)
      (rule marshals_fields, (rule list.rel_intros prepends_intros assms ResponseHeader_marshals KeyValue_marshals)+, simp)
qed

lemma RangeResponse_SizeVT:
  assumes "helpers_ok H"
  shows "RangeResponse_SizeVT H m = length (wire_opt wire_RangeResponse m)"
  by (cases m) (simp_all add: RangeResponse_SizeVT_def wire_opt_def wire_RangeResponse_def size_fields [OF assms, symmetric]
      size_msg [OF assms ResponseHeader_SizeVT [OF assms], symmetric]
      size_msgs [OF assms KeyValue_SizeVT [OF assms], symmetric])

lemma RangeResponse_marshalled:
  "helpers_ok H \<Longrightarrow> RangeResponse_MarshalVT H (Some m) = Ret (Some (wire_RangeResponse m))"
  using marshal_vt_writes [of "RangeResponse_MarshalToSizedBufferVT H" m _ "RangeResponse_SizeVT H", OF RangeResponse_marshals]
    RangeResponse_SizeVT [of H "Some m"]
  by (simp add: RangeResponse_MarshalVT_def wire_opt_def)

lemma RangeResponse_fields [reads_intros]:
  "RangeResponse_field H 1 = Some (field_msg ''Header'' (\<lambda>m. case rs_Header m of None \<Rightarrow> new_ResponseHeader | Some x \<Rightarrow> x)
    (\<lambda>x. rs_Header_update (\<lambda>_. Some x)) (ResponseHeader_UnmarshalVT H))"
  "RangeResponse_field H 3 = Some (field_msg ''Kvs'' (\<lambda>m. new_KeyValue) (\<lambda>x. rs_Kvs_update (\<lambda>xs. xs @ [Some x]))
    (KeyValue_UnmarshalVT H))"
  "RangeResponse_field H 4 = Some (field_bool ''More'' (\<lambda>v. rs_More_update (\<lambda>_. v)))"
  "RangeResponse_field H 5 = Some (field_int ''Count'' (\<lambda>v. rs_Count_update (\<lambda>_. v)))"
  by (simp_all add: RangeResponse_field_def)

lemma RangeResponse_unmarshal:
  assumes "RangeResponse_ok H m" and "length (wire_RangeResponse m) < 2 ^ 63"
  shows "RangeResponse_UnmarshalVT H m0 (wire_RangeResponse m) = Some (Ret None, merge_RangeResponse m m0)"
proof -
  have unknown: "unknown_bytes H (RangeResponse_field H) (rs_unknownFields m)" using assms(1) by (simp add: RangeResponse_ok_def)
  have Header: "ResponseHeader_UnmarshalVT H m0 (wire_ResponseHeader x) = Some (Ret None, merge_ResponseHeader x m0)"
    if "rs_Header m = Some x" for x m0
    using assms nested_length(1) [of wire_ResponseHeader x "0x0A"] that
    by (intro ResponseHeader_unmarshal) (auto simp: RangeResponse_ok_def wire_RangeResponse_def intro: le_less_trans)
  have Kvs: "KeyValue_UnmarshalVT H new_KeyValue (wire_opt wire_KeyValue k) =
      Some (Ret None, merge_elem merge_KeyValue new_KeyValue k)" if "k \<in> set (rs_Kvs m)" for k
    using assms nested_length(2) [OF that, of "wire_opt wire_KeyValue" "0x1A"] that
    by (intro KeyValue_elem) (auto simp: RangeResponse_ok_def wire_RangeResponse_def intro: le_less_trans)
  show ?thesis unfolding RangeResponse_UnmarshalVT_def
    by (rule unmarshal_merge [OF _ _ _ _ wire_RangeResponse_def unknown assms(2)],
        ((rule list.rel_intros reads_intros assms(2) Header Kvs | (simp; fail))+)[3],
        simp only: fold_simps, rule RangeResponse.equality)
      (simp_all add: merge_RangeResponse_def merge_opt_None if_distrib [of rs_Header] if_distrib [of rs_Kvs] if_distrib [of rs_More]
        if_distrib [of rs_Count] if_distrib [of rs_unknownFields]
        if_distrib [of RangeResponse.more])
qed

definition RangeResponse_sendable :: "protohelpers \<Rightarrow> RangeResponse \<Rightarrow> bool" where
  "RangeResponse_sendable H m \<longleftrightarrow> RangeResponse_ok H m \<and> normal_RangeResponse m \<and> length (wire_RangeResponse m) < 2 ^ 63"

lemma RangeResponse_received:
  "RangeResponse_sendable H m \<Longrightarrow> RangeResponse_UnmarshalVT H new_RangeResponse (wire_RangeResponse m) = Some (Ret None, m)"
  by (simp add: RangeResponse_sendable_def RangeResponse_unmarshal new_RangeResponse_merge)

lemma RangeResponse_returns:
  assumes "helpers_ok H" and "length d < 2 ^ 63"
  shows "\<exists>e m1. RangeResponse_UnmarshalVT H m d = Some (Ret e, m1)"
  unfolding RangeResponse_UnmarshalVT_def
proof (rule decode_returns [OF assms])
  fix n f
  assume "RangeResponse_field H n = Some f"
  then show "field_returns d f" using assms(2)
    by (auto simp: RangeResponse_field_def split: if_splits intro!: returns_intros ResponseHeader_returns [OF assms(1)] KeyValue_returns [OF assms(1)])
qed simp

section \<open>PutRequest\<close>

definition wire_PutRequest :: "PutRequest \<Rightarrow> bytes" where
  "wire_PutRequest m = concat [
     wire_bytes 0x0A (pr_Table m), wire_bytes 0x12 (pr_Key m), wire_bytes 0x1A (pr_Value m),
     wire_bool 0x20 (pr_PrevKv m)] @ pr_unknownFields m"

definition merge_PutRequest :: "PutRequest \<Rightarrow> PutRequest \<Rightarrow> PutRequest" where
  "merge_PutRequest m m0 = m0\<lparr>
     pr_Table := if slice_bytes (pr_Table m) = [] then pr_Table m0 else wire_slice (pr_Table m),
     pr_Key := if slice_bytes (pr_Key m) = [] then pr_Key m0 else wire_slice (pr_Key m),
     pr_Value := if slice_bytes (pr_Value m) = [] then pr_Value m0 else wire_slice (pr_Value m),
     pr_PrevKv := pr_PrevKv m \<or> pr_PrevKv m0,
     pr_unknownFields := pr_unknownFields m0 @ pr_unknownFields m\<rparr>"

definition PutRequest_ok :: "protohelpers \<Rightarrow> PutRequest \<Rightarrow> bool" where
  "PutRequest_ok H m \<longleftrightarrow> unknown_bytes H PutRequest_field (pr_unknownFields m)"

definition normal_PutRequest :: "PutRequest \<Rightarrow> bool" where
  "normal_PutRequest m \<longleftrightarrow> wire_slice (pr_Table m) = pr_Table m \<and>
     wire_slice (pr_Key m) = pr_Key m \<and>
     wire_slice (pr_Value m) = pr_Value m"

lemma new_PutRequest_merge:
  assumes "normal_PutRequest m"
  shows "merge_PutRequest m new_PutRequest = m"
  using assms
  by (cases m) (auto simp: merge_PutRequest_def new_PutRequest_def normal_PutRequest_def normal_slice split: option.split)

lemma PutRequest_marshals:
  assumes "helpers_ok H"
  shows "marshals (PutRequest_MarshalToSizedBufferVT H m) (wire_opt wire_PutRequest m)"
proof (cases m)
  case None
  then show ?thesis by (simp add: PutRequest_MarshalToSizedBufferVT_def [abs_def] wire_opt_def marshals_nil)
next
  case (Some x)
  then show ?thesis
    by (simp add: PutRequest_MarshalToSizedBufferVT_def [abs_def] wire_opt_def wire_PutRequest_def)
      (rule marshals_fields, (rule list.rel_intros prepends_intros assms)+, simp)
qed

lemma PutRequest_SizeVT:
  assumes "helpers_ok H"
  shows "PutRequest_SizeVT H m = length (wire_opt wire_PutRequest m)"
  by (cases m) (simp_all add: PutRequest_SizeVT_def wire_opt_def wire_PutRequest_def size_fields [OF assms, symmetric])

lemma PutRequest_marshalled:
  "helpers_ok H \<Longrightarrow> PutRequest_MarshalVT H (Some m) = Ret (Some (wire_PutRequest m))"
  using marshal_vt_writes [of "PutRequest_MarshalToSizedBufferVT H" m _ "PutRequest_SizeVT H", OF PutRequest_marshals]
    PutRequest_SizeVT [of H "Some m"]
  by (simp add: PutRequest_MarshalVT_def wire_opt_def)

lemma PutRequest_fields [reads_intros]:
  "PutRequest_field 1 = Some (field_bytes ''Table'' (\<lambda>v. pr_Table_update (\<lambda>_. v)))"
  "PutRequest_field 2 = Some (field_bytes ''Key'' (\<lambda>v. pr_Key_update (\<lambda>_. v)))"
  "PutRequest_field 3 = Some (field_bytes ''Value'' (\<lambda>v. pr_Value_update (\<lambda>_. v)))"
  "PutRequest_field 4 = Some (field_bool ''PrevKv'' (\<lambda>v. pr_PrevKv_update (\<lambda>_. v)))"
  by (simp_all add: PutRequest_field_def)

lemma PutRequest_unmarshal:
  assumes "PutRequest_ok H m" and "length (wire_PutRequest m) < 2 ^ 63"
  shows "PutRequest_UnmarshalVT H m0 (wire_PutRequest m) = Some (Ret None, merge_PutRequest m m0)"
proof -
  have unknown: "unknown_bytes H PutRequest_field (pr_unknownFields m)" using assms(1) by (simp add: PutRequest_ok_def)
  show ?thesis unfolding PutRequest_UnmarshalVT_def
    by (rule unmarshal_merge [OF _ _ _ _ wire_PutRequest_def unknown assms(2)],
        ((rule list.rel_intros reads_intros assms(2) | (simp; fail))+)[3],
        simp only: fold_simps, rule PutRequest.equality)
      (simp_all add: merge_PutRequest_def if_distrib [of pr_Table] if_distrib [of pr_Key] if_distrib [of pr_Value]
        if_distrib [of pr_PrevKv] if_distrib [of pr_unknownFields]
        if_distrib [of PutRequest.more])
qed

definition PutRequest_sendable :: "protohelpers \<Rightarrow> PutRequest \<Rightarrow> bool" where
  "PutRequest_sendable H m \<longleftrightarrow> PutRequest_ok H m \<and> normal_PutRequest m \<and> length (wire_PutRequest m) < 2 ^ 63"

lemma PutRequest_received:
  "PutRequest_sendable H m \<Longrightarrow> PutRequest_UnmarshalVT H new_PutRequest (wire_PutRequest m) = Some (Ret None, m)"
  by (simp add: PutRequest_sendable_def PutRequest_unmarshal new_PutRequest_merge)

lemma PutRequest_returns:
  assumes "helpers_ok H" and "length d < 2 ^ 63"
  shows "\<exists>e m1. PutRequest_UnmarshalVT H m d = Some (Ret e, m1)"
  unfolding PutRequest_UnmarshalVT_def
proof (rule decode_returns [OF assms])
  fix n f
  assume "PutRequest_field n = Some f"
  then show "field_returns d f" using assms(2)
    by (auto simp: PutRequest_field_def split: if_splits intro!: returns_intros)
qed simp

section \<open>PutResponse\<close>

definition wire_PutResponse :: "PbPutResponse \<Rightarrow> bytes" where
  "wire_PutResponse m = concat [
     wire_msg 0x0A (wire_opt wire_ResponseHeader) (ps_Header m),
     wire_msg 0x12 (wire_opt wire_KeyValue) (ps_PrevKv m)] @ ps_unknownFields m"

definition merge_PutResponse ::
  "PbPutResponse \<Rightarrow> PbPutResponse \<Rightarrow> PbPutResponse" where
  "merge_PutResponse m m0 = m0\<lparr>
     ps_Header := merge_opt merge_ResponseHeader new_ResponseHeader (ps_Header m) (ps_Header m0),
     ps_PrevKv := merge_opt merge_KeyValue new_KeyValue (ps_PrevKv m) (ps_PrevKv m0),
     ps_unknownFields := ps_unknownFields m0 @ ps_unknownFields m\<rparr>"

definition PutResponse_ok :: "protohelpers \<Rightarrow> PbPutResponse \<Rightarrow> bool" where
  "PutResponse_ok H m \<longleftrightarrow> unknown_bytes H (PutResponse_field H) (ps_unknownFields m) \<and>
     (\<forall>x. ps_Header m = Some x \<longrightarrow> ResponseHeader_ok H x) \<and>
     (\<forall>x. ps_PrevKv m = Some x \<longrightarrow> KeyValue_ok H x)"

definition normal_PutResponse :: "PbPutResponse \<Rightarrow> bool" where
  "normal_PutResponse m \<longleftrightarrow> (\<forall>x. ps_PrevKv m = Some x \<longrightarrow> normal_KeyValue x)"

lemma new_PutResponse_merge:
  assumes "normal_PutResponse m"
  shows "merge_PutResponse m new_PutResponse = m"
  using assms
  by (cases m) (auto simp: merge_PutResponse_def new_PutResponse_def normal_PutResponse_def normal_slice new_KeyValue_merge new_ResponseHeader_merge merge_opt_def merge_elem_def split: option.split)

lemma PutResponse_marshals:
  assumes "helpers_ok H"
  shows "marshals (PutResponse_MarshalToSizedBufferVT H m) (wire_opt wire_PutResponse m)"
proof (cases m)
  case None
  then show ?thesis by (simp add: PutResponse_MarshalToSizedBufferVT_def [abs_def] wire_opt_def marshals_nil)
next
  case (Some x)
  then show ?thesis
    by (simp add: PutResponse_MarshalToSizedBufferVT_def [abs_def] wire_opt_def wire_PutResponse_def)
      (rule marshals_fields, (rule list.rel_intros prepends_intros assms ResponseHeader_marshals KeyValue_marshals)+, simp)
qed

lemma PutResponse_SizeVT:
  assumes "helpers_ok H"
  shows "PutResponse_SizeVT H m = length (wire_opt wire_PutResponse m)"
  by (cases m) (simp_all add: PutResponse_SizeVT_def wire_opt_def wire_PutResponse_def size_fields [OF assms, symmetric]
      size_msg [OF assms KeyValue_SizeVT [OF assms], symmetric]
      size_msg [OF assms ResponseHeader_SizeVT [OF assms], symmetric])

lemma PutResponse_marshalled:
  "helpers_ok H \<Longrightarrow> PutResponse_MarshalVT H (Some m) = Ret (Some (wire_PutResponse m))"
  using marshal_vt_writes [of "PutResponse_MarshalToSizedBufferVT H" m _ "PutResponse_SizeVT H", OF PutResponse_marshals]
    PutResponse_SizeVT [of H "Some m"]
  by (simp add: PutResponse_MarshalVT_def wire_opt_def)

lemma PutResponse_fields [reads_intros]:
  "PutResponse_field H 1 = Some (field_msg ''Header'' (\<lambda>m. case ps_Header m of None \<Rightarrow> new_ResponseHeader | Some x \<Rightarrow> x)
    (\<lambda>x. ps_Header_update (\<lambda>_. Some x)) (ResponseHeader_UnmarshalVT H))"
  "PutResponse_field H 2 = Some (field_msg ''PrevKv'' (\<lambda>m. case ps_PrevKv m of None \<Rightarrow> new_KeyValue | Some x \<Rightarrow> x)
    (\<lambda>x. ps_PrevKv_update (\<lambda>_. Some x)) (KeyValue_UnmarshalVT H))"
  by (simp_all add: PutResponse_field_def)

lemma PutResponse_unmarshal:
  assumes "PutResponse_ok H m" and "length (wire_PutResponse m) < 2 ^ 63"
  shows "PutResponse_UnmarshalVT H m0 (wire_PutResponse m) = Some (Ret None, merge_PutResponse m m0)"
proof -
  have unknown: "unknown_bytes H (PutResponse_field H) (ps_unknownFields m)" using assms(1) by (simp add: PutResponse_ok_def)
  have Header: "ResponseHeader_UnmarshalVT H m0 (wire_ResponseHeader x) = Some (Ret None, merge_ResponseHeader x m0)"
    if "ps_Header m = Some x" for x m0
    using assms nested_length(1) [of wire_ResponseHeader x "0x0A"] that
    by (intro ResponseHeader_unmarshal) (auto simp: PutResponse_ok_def wire_PutResponse_def intro: le_less_trans)
  have PrevKv: "KeyValue_UnmarshalVT H m0 (wire_KeyValue x) = Some (Ret None, merge_KeyValue x m0)"
    if "ps_PrevKv m = Some x" for x m0
    using assms nested_length(1) [of wire_KeyValue x "0x12"] that
    by (intro KeyValue_unmarshal) (auto simp: PutResponse_ok_def wire_PutResponse_def intro: le_less_trans)
  show ?thesis unfolding PutResponse_UnmarshalVT_def
    by (rule unmarshal_merge [OF _ _ _ _ wire_PutResponse_def unknown assms(2)],
        ((rule list.rel_intros reads_intros assms(2) Header PrevKv | (simp; fail))+)[3],
        simp only: fold_simps, rule PbPutResponse.equality)
      (simp_all add: merge_PutResponse_def merge_opt_None if_distrib [of ps_Header] if_distrib [of ps_PrevKv] if_distrib [of ps_unknownFields]
        if_distrib [of PbPutResponse.more])
qed

definition PutResponse_sendable :: "protohelpers \<Rightarrow> PbPutResponse \<Rightarrow> bool" where
  "PutResponse_sendable H m \<longleftrightarrow> PutResponse_ok H m \<and> normal_PutResponse m \<and> length (wire_PutResponse m) < 2 ^ 63"

lemma PutResponse_received:
  "PutResponse_sendable H m \<Longrightarrow> PutResponse_UnmarshalVT H new_PutResponse (wire_PutResponse m) = Some (Ret None, m)"
  by (simp add: PutResponse_sendable_def PutResponse_unmarshal new_PutResponse_merge)

lemma PutResponse_returns:
  assumes "helpers_ok H" and "length d < 2 ^ 63"
  shows "\<exists>e m1. PutResponse_UnmarshalVT H m d = Some (Ret e, m1)"
  unfolding PutResponse_UnmarshalVT_def
proof (rule decode_returns [OF assms])
  fix n f
  assume "PutResponse_field H n = Some f"
  then show "field_returns d f" using assms(2)
    by (auto simp: PutResponse_field_def split: if_splits intro!: returns_intros ResponseHeader_returns [OF assms(1)] KeyValue_returns [OF assms(1)])
qed simp

section \<open>DeleteRangeRequest\<close>

definition wire_DeleteRangeRequest :: "DeleteRangeRequest \<Rightarrow> bytes" where
  "wire_DeleteRangeRequest m = concat [
     wire_bytes 0x0A (dr_Table m), wire_bytes 0x12 (dr_Key m), wire_bytes 0x1A (dr_RangeEnd m),
     wire_bool 0x20 (dr_PrevKv m), wire_bool 0x28 (dr_Count m)] @ dr_unknownFields m"

definition merge_DeleteRangeRequest ::
  "DeleteRangeRequest \<Rightarrow> DeleteRangeRequest \<Rightarrow> DeleteRangeRequest" where
  "merge_DeleteRangeRequest m m0 = m0\<lparr>
     dr_Table := if slice_bytes (dr_Table m) = [] then dr_Table m0 else wire_slice (dr_Table m),
     dr_Key := if slice_bytes (dr_Key m) = [] then dr_Key m0 else wire_slice (dr_Key m),
     dr_RangeEnd := if slice_bytes (dr_RangeEnd m) = [] then dr_RangeEnd m0 else wire_slice (dr_RangeEnd m),
     dr_PrevKv := dr_PrevKv m \<or> dr_PrevKv m0, dr_Count := dr_Count m \<or> dr_Count m0,
     dr_unknownFields := dr_unknownFields m0 @ dr_unknownFields m\<rparr>"

definition DeleteRangeRequest_ok :: "protohelpers \<Rightarrow> DeleteRangeRequest \<Rightarrow> bool" where
  "DeleteRangeRequest_ok H m \<longleftrightarrow> unknown_bytes H DeleteRangeRequest_field (dr_unknownFields m)"

definition normal_DeleteRangeRequest :: "DeleteRangeRequest \<Rightarrow> bool" where
  "normal_DeleteRangeRequest m \<longleftrightarrow> wire_slice (dr_Table m) = dr_Table m \<and>
     wire_slice (dr_Key m) = dr_Key m \<and>
     wire_slice (dr_RangeEnd m) = dr_RangeEnd m"

lemma new_DeleteRangeRequest_merge:
  assumes "normal_DeleteRangeRequest m"
  shows "merge_DeleteRangeRequest m new_DeleteRangeRequest = m"
  using assms
  by (cases m) (auto simp: merge_DeleteRangeRequest_def new_DeleteRangeRequest_def normal_DeleteRangeRequest_def normal_slice split: option.split)

lemma DeleteRangeRequest_marshals:
  assumes "helpers_ok H"
  shows "marshals (DeleteRangeRequest_MarshalToSizedBufferVT H m) (wire_opt wire_DeleteRangeRequest m)"
proof (cases m)
  case None
  then show ?thesis by (simp add: DeleteRangeRequest_MarshalToSizedBufferVT_def [abs_def] wire_opt_def marshals_nil)
next
  case (Some x)
  then show ?thesis
    by (simp add: DeleteRangeRequest_MarshalToSizedBufferVT_def [abs_def] wire_opt_def wire_DeleteRangeRequest_def)
      (rule marshals_fields, (rule list.rel_intros prepends_intros assms)+, simp)
qed

lemma DeleteRangeRequest_SizeVT:
  assumes "helpers_ok H"
  shows "DeleteRangeRequest_SizeVT H m = length (wire_opt wire_DeleteRangeRequest m)"
  by (cases m) (simp_all add: DeleteRangeRequest_SizeVT_def wire_opt_def wire_DeleteRangeRequest_def size_fields [OF assms, symmetric])

lemma DeleteRangeRequest_marshalled:
  "helpers_ok H \<Longrightarrow> DeleteRangeRequest_MarshalVT H (Some m) = Ret (Some (wire_DeleteRangeRequest m))"
  using marshal_vt_writes [of "DeleteRangeRequest_MarshalToSizedBufferVT H" m _ "DeleteRangeRequest_SizeVT H", OF DeleteRangeRequest_marshals]
    DeleteRangeRequest_SizeVT [of H "Some m"]
  by (simp add: DeleteRangeRequest_MarshalVT_def wire_opt_def)

lemma DeleteRangeRequest_fields [reads_intros]:
  "DeleteRangeRequest_field 1 = Some (field_bytes ''Table'' (\<lambda>v. dr_Table_update (\<lambda>_. v)))"
  "DeleteRangeRequest_field 2 = Some (field_bytes ''Key'' (\<lambda>v. dr_Key_update (\<lambda>_. v)))"
  "DeleteRangeRequest_field 3 = Some (field_bytes ''RangeEnd'' (\<lambda>v. dr_RangeEnd_update (\<lambda>_. v)))"
  "DeleteRangeRequest_field 4 = Some (field_bool ''PrevKv'' (\<lambda>v. dr_PrevKv_update (\<lambda>_. v)))"
  "DeleteRangeRequest_field 5 = Some (field_bool ''Count'' (\<lambda>v. dr_Count_update (\<lambda>_. v)))"
  by (simp_all add: DeleteRangeRequest_field_def)

lemma DeleteRangeRequest_unmarshal:
  assumes "DeleteRangeRequest_ok H m" and "length (wire_DeleteRangeRequest m) < 2 ^ 63"
  shows "DeleteRangeRequest_UnmarshalVT H m0 (wire_DeleteRangeRequest m) = Some (Ret None, merge_DeleteRangeRequest m m0)"
proof -
  have unknown: "unknown_bytes H DeleteRangeRequest_field (dr_unknownFields m)" using assms(1) by (simp add: DeleteRangeRequest_ok_def)
  show ?thesis unfolding DeleteRangeRequest_UnmarshalVT_def
    by (rule unmarshal_merge [OF _ _ _ _ wire_DeleteRangeRequest_def unknown assms(2)],
        ((rule list.rel_intros reads_intros assms(2) | (simp; fail))+)[3],
        simp only: fold_simps, rule DeleteRangeRequest.equality)
      (simp_all add: merge_DeleteRangeRequest_def if_distrib [of dr_Table] if_distrib [of dr_Key] if_distrib [of dr_RangeEnd]
        if_distrib [of dr_PrevKv] if_distrib [of dr_Count]
        if_distrib [of dr_unknownFields] if_distrib [of DeleteRangeRequest.more])
qed

definition DeleteRangeRequest_sendable :: "protohelpers \<Rightarrow> DeleteRangeRequest \<Rightarrow> bool" where
  "DeleteRangeRequest_sendable H m \<longleftrightarrow> DeleteRangeRequest_ok H m \<and> normal_DeleteRangeRequest m \<and> length (wire_DeleteRangeRequest m) < 2 ^ 63"

lemma DeleteRangeRequest_received:
  "DeleteRangeRequest_sendable H m \<Longrightarrow> DeleteRangeRequest_UnmarshalVT H new_DeleteRangeRequest (wire_DeleteRangeRequest m) = Some (Ret None, m)"
  by (simp add: DeleteRangeRequest_sendable_def DeleteRangeRequest_unmarshal new_DeleteRangeRequest_merge)

lemma DeleteRangeRequest_returns:
  assumes "helpers_ok H" and "length d < 2 ^ 63"
  shows "\<exists>e m1. DeleteRangeRequest_UnmarshalVT H m d = Some (Ret e, m1)"
  unfolding DeleteRangeRequest_UnmarshalVT_def
proof (rule decode_returns [OF assms])
  fix n f
  assume "DeleteRangeRequest_field n = Some f"
  then show "field_returns d f" using assms(2)
    by (auto simp: DeleteRangeRequest_field_def split: if_splits intro!: returns_intros)
qed simp

section \<open>DeleteRangeResponse\<close>

definition wire_DeleteRangeResponse :: "DeleteRangeResponse \<Rightarrow> bytes" where
  "wire_DeleteRangeResponse m = concat [
     wire_msg 0x0A (wire_opt wire_ResponseHeader) (ds_Header m), wire_int 0x10 (ds_Deleted m),
     wire_msgs 0x1A (wire_opt wire_KeyValue) (ds_PrevKvs m)] @ ds_unknownFields m"

definition merge_DeleteRangeResponse ::
  "DeleteRangeResponse \<Rightarrow> DeleteRangeResponse \<Rightarrow> DeleteRangeResponse" where
  "merge_DeleteRangeResponse m m0 = m0\<lparr>
     ds_Header := merge_opt merge_ResponseHeader new_ResponseHeader (ds_Header m) (ds_Header m0),
     ds_Deleted := if ds_Deleted m = 0 then ds_Deleted m0 else ds_Deleted m,
     ds_PrevKvs := ds_PrevKvs m0 @ map (\<lambda>k. Some (merge_elem merge_KeyValue new_KeyValue k)) (ds_PrevKvs m),
     ds_unknownFields := ds_unknownFields m0 @ ds_unknownFields m\<rparr>"

definition DeleteRangeResponse_ok :: "protohelpers \<Rightarrow> DeleteRangeResponse \<Rightarrow> bool" where
  "DeleteRangeResponse_ok H m \<longleftrightarrow> unknown_bytes H (DeleteRangeResponse_field H) (ds_unknownFields m) \<and>
     (\<forall>x. ds_Header m = Some x \<longrightarrow> ResponseHeader_ok H x) \<and>
     (\<forall>x. Some x \<in> set (ds_PrevKvs m) \<longrightarrow> KeyValue_ok H x)"

definition normal_DeleteRangeResponse :: "DeleteRangeResponse \<Rightarrow> bool" where
  "normal_DeleteRangeResponse m \<longleftrightarrow> (\<forall>k \<in> set (ds_PrevKvs m). \<exists>x. k = Some x \<and> normal_KeyValue x)"

lemma new_DeleteRangeResponse_merge:
  assumes "normal_DeleteRangeResponse m"
  shows "merge_DeleteRangeResponse m new_DeleteRangeResponse = m"
  using assms
  by (cases m) (auto simp: merge_DeleteRangeResponse_def new_DeleteRangeResponse_def normal_DeleteRangeResponse_def normal_slice new_KeyValue_merge new_ResponseHeader_merge merge_opt_def merge_elem_def intro!: map_idI split: option.split)

lemma DeleteRangeResponse_marshals:
  assumes "helpers_ok H"
  shows "marshals (DeleteRangeResponse_MarshalToSizedBufferVT H m) (wire_opt wire_DeleteRangeResponse m)"
proof (cases m)
  case None
  then show ?thesis by (simp add: DeleteRangeResponse_MarshalToSizedBufferVT_def [abs_def] wire_opt_def marshals_nil)
next
  case (Some x)
  then show ?thesis
    by (simp add: DeleteRangeResponse_MarshalToSizedBufferVT_def [abs_def] wire_opt_def wire_DeleteRangeResponse_def)
      (rule marshals_fields, (rule list.rel_intros prepends_intros assms ResponseHeader_marshals KeyValue_marshals)+, simp)
qed

lemma DeleteRangeResponse_SizeVT:
  assumes "helpers_ok H"
  shows "DeleteRangeResponse_SizeVT H m = length (wire_opt wire_DeleteRangeResponse m)"
  by (cases m) (simp_all add: DeleteRangeResponse_SizeVT_def wire_opt_def wire_DeleteRangeResponse_def size_fields [OF assms, symmetric]
      size_msg [OF assms ResponseHeader_SizeVT [OF assms], symmetric]
      size_msgs [OF assms KeyValue_SizeVT [OF assms], symmetric])

lemma DeleteRangeResponse_marshalled:
  "helpers_ok H \<Longrightarrow> DeleteRangeResponse_MarshalVT H (Some m) = Ret (Some (wire_DeleteRangeResponse m))"
  using marshal_vt_writes [of "DeleteRangeResponse_MarshalToSizedBufferVT H" m _ "DeleteRangeResponse_SizeVT H", OF DeleteRangeResponse_marshals]
    DeleteRangeResponse_SizeVT [of H "Some m"]
  by (simp add: DeleteRangeResponse_MarshalVT_def wire_opt_def)

lemma DeleteRangeResponse_fields [reads_intros]:
  "DeleteRangeResponse_field H 1 = Some (field_msg ''Header'' (\<lambda>m. case ds_Header m of None \<Rightarrow> new_ResponseHeader | Some x \<Rightarrow> x)
    (\<lambda>x. ds_Header_update (\<lambda>_. Some x)) (ResponseHeader_UnmarshalVT H))"
  "DeleteRangeResponse_field H 2 = Some (field_int ''Deleted'' (\<lambda>v. ds_Deleted_update (\<lambda>_. v)))"
  "DeleteRangeResponse_field H 3 = Some (field_msg ''PrevKvs'' (\<lambda>m. new_KeyValue) (\<lambda>x. ds_PrevKvs_update (\<lambda>xs. xs @ [Some x]))
    (KeyValue_UnmarshalVT H))"
  by (simp_all add: DeleteRangeResponse_field_def)

lemma DeleteRangeResponse_unmarshal:
  assumes "DeleteRangeResponse_ok H m" and "length (wire_DeleteRangeResponse m) < 2 ^ 63"
  shows "DeleteRangeResponse_UnmarshalVT H m0 (wire_DeleteRangeResponse m) = Some (Ret None, merge_DeleteRangeResponse m m0)"
proof -
  have unknown: "unknown_bytes H (DeleteRangeResponse_field H) (ds_unknownFields m)" using assms(1) by (simp add: DeleteRangeResponse_ok_def)
  have Header: "ResponseHeader_UnmarshalVT H m0 (wire_ResponseHeader x) = Some (Ret None, merge_ResponseHeader x m0)"
    if "ds_Header m = Some x" for x m0
    using assms nested_length(1) [of wire_ResponseHeader x "0x0A"] that
    by (intro ResponseHeader_unmarshal) (auto simp: DeleteRangeResponse_ok_def wire_DeleteRangeResponse_def intro: le_less_trans)
  have PrevKvs: "KeyValue_UnmarshalVT H new_KeyValue (wire_opt wire_KeyValue k) =
      Some (Ret None, merge_elem merge_KeyValue new_KeyValue k)" if "k \<in> set (ds_PrevKvs m)" for k
    using assms nested_length(2) [OF that, of "wire_opt wire_KeyValue" "0x1A"] that
    by (intro KeyValue_elem) (auto simp: DeleteRangeResponse_ok_def wire_DeleteRangeResponse_def intro: le_less_trans)
  show ?thesis unfolding DeleteRangeResponse_UnmarshalVT_def
    by (rule unmarshal_merge [OF _ _ _ _ wire_DeleteRangeResponse_def unknown assms(2)],
        ((rule list.rel_intros reads_intros assms(2) Header PrevKvs | (simp; fail))+)[3],
        simp only: fold_simps, rule DeleteRangeResponse.equality)
      (simp_all add: merge_DeleteRangeResponse_def merge_opt_None if_distrib [of ds_Header] if_distrib [of ds_Deleted] if_distrib [of ds_PrevKvs]
        if_distrib [of ds_unknownFields] if_distrib [of DeleteRangeResponse.more])
qed

definition DeleteRangeResponse_sendable :: "protohelpers \<Rightarrow> DeleteRangeResponse \<Rightarrow> bool" where
  "DeleteRangeResponse_sendable H m \<longleftrightarrow> DeleteRangeResponse_ok H m \<and> normal_DeleteRangeResponse m \<and> length (wire_DeleteRangeResponse m) < 2 ^ 63"

lemma DeleteRangeResponse_received:
  "DeleteRangeResponse_sendable H m \<Longrightarrow> DeleteRangeResponse_UnmarshalVT H new_DeleteRangeResponse (wire_DeleteRangeResponse m) = Some (Ret None, m)"
  by (simp add: DeleteRangeResponse_sendable_def DeleteRangeResponse_unmarshal new_DeleteRangeResponse_merge)

lemma DeleteRangeResponse_returns:
  assumes "helpers_ok H" and "length d < 2 ^ 63"
  shows "\<exists>e m1. DeleteRangeResponse_UnmarshalVT H m d = Some (Ret e, m1)"
  unfolding DeleteRangeResponse_UnmarshalVT_def
proof (rule decode_returns [OF assms])
  fix n f
  assume "DeleteRangeResponse_field H n = Some f"
  then show "field_returns d f" using assms(2)
    by (auto simp: DeleteRangeResponse_field_def split: if_splits intro!: returns_intros ResponseHeader_returns [OF assms(1)] KeyValue_returns [OF assms(1)])
qed simp

section \<open>RequestOp_Range\<close>

definition wire_RequestOp_Range :: "RequestOp_Range \<Rightarrow> bytes" where
  "wire_RequestOp_Range m = concat [
     wire_bytes 0x0A (qr_Key m), wire_bytes 0x12 (qr_RangeEnd m), wire_int 0x18 (qr_Limit m),
     wire_bool 0x20 (qr_KeysOnly m), wire_bool 0x28 (qr_CountOnly m)] @ qr_unknownFields m"

definition merge_RequestOp_Range ::
  "RequestOp_Range \<Rightarrow> RequestOp_Range \<Rightarrow> RequestOp_Range" where
  "merge_RequestOp_Range m m0 = m0\<lparr>
     qr_Key := if slice_bytes (qr_Key m) = [] then qr_Key m0 else wire_slice (qr_Key m),
     qr_RangeEnd := if slice_bytes (qr_RangeEnd m) = [] then qr_RangeEnd m0 else wire_slice (qr_RangeEnd m),
     qr_Limit := if qr_Limit m = 0 then qr_Limit m0 else qr_Limit m,
     qr_KeysOnly := qr_KeysOnly m \<or> qr_KeysOnly m0,
     qr_CountOnly := qr_CountOnly m \<or> qr_CountOnly m0,
     qr_unknownFields := qr_unknownFields m0 @ qr_unknownFields m\<rparr>"

definition RequestOp_Range_ok :: "protohelpers \<Rightarrow> RequestOp_Range \<Rightarrow> bool" where
  "RequestOp_Range_ok H m \<longleftrightarrow> unknown_bytes H RequestOp_Range_field (qr_unknownFields m)"

definition normal_RequestOp_Range :: "RequestOp_Range \<Rightarrow> bool" where
  "normal_RequestOp_Range m \<longleftrightarrow> wire_slice (qr_Key m) = qr_Key m \<and>
     wire_slice (qr_RangeEnd m) = qr_RangeEnd m"

lemma new_RequestOp_Range_merge:
  assumes "normal_RequestOp_Range m"
  shows "merge_RequestOp_Range m new_RequestOp_Range = m"
  using assms
  by (cases m) (auto simp: merge_RequestOp_Range_def new_RequestOp_Range_def normal_RequestOp_Range_def normal_slice split: option.split)

lemma RequestOp_Range_marshals:
  assumes "helpers_ok H"
  shows "marshals (RequestOp_Range_MarshalToSizedBufferVT H m) (wire_opt wire_RequestOp_Range m)"
proof (cases m)
  case None
  then show ?thesis by (simp add: RequestOp_Range_MarshalToSizedBufferVT_def [abs_def] wire_opt_def marshals_nil)
next
  case (Some x)
  then show ?thesis
    by (simp add: RequestOp_Range_MarshalToSizedBufferVT_def [abs_def] wire_opt_def wire_RequestOp_Range_def)
      (rule marshals_fields, (rule list.rel_intros prepends_intros assms)+, simp)
qed

lemma RequestOp_Range_SizeVT:
  assumes "helpers_ok H"
  shows "RequestOp_Range_SizeVT H m = length (wire_opt wire_RequestOp_Range m)"
  by (cases m) (simp_all add: RequestOp_Range_SizeVT_def wire_opt_def wire_RequestOp_Range_def size_fields [OF assms, symmetric])

lemma RequestOp_Range_marshalled:
  "helpers_ok H \<Longrightarrow> RequestOp_Range_MarshalVT H (Some m) = Ret (Some (wire_RequestOp_Range m))"
  using marshal_vt_writes [of "RequestOp_Range_MarshalToSizedBufferVT H" m _ "RequestOp_Range_SizeVT H", OF RequestOp_Range_marshals]
    RequestOp_Range_SizeVT [of H "Some m"]
  by (simp add: RequestOp_Range_MarshalVT_def wire_opt_def)

lemma RequestOp_Range_fields [reads_intros]:
  "RequestOp_Range_field 1 = Some (field_bytes ''Key'' (\<lambda>v. qr_Key_update (\<lambda>_. v)))"
  "RequestOp_Range_field 2 = Some (field_bytes ''RangeEnd'' (\<lambda>v. qr_RangeEnd_update (\<lambda>_. v)))"
  "RequestOp_Range_field 3 = Some (field_int ''Limit'' (\<lambda>v. qr_Limit_update (\<lambda>_. v)))"
  "RequestOp_Range_field 4 = Some (field_bool ''KeysOnly'' (\<lambda>v. qr_KeysOnly_update (\<lambda>_. v)))"
  "RequestOp_Range_field 5 = Some (field_bool ''CountOnly'' (\<lambda>v. qr_CountOnly_update (\<lambda>_. v)))"
  by (simp_all add: RequestOp_Range_field_def)

lemma RequestOp_Range_unmarshal:
  assumes "RequestOp_Range_ok H m" and "length (wire_RequestOp_Range m) < 2 ^ 63"
  shows "RequestOp_Range_UnmarshalVT H m0 (wire_RequestOp_Range m) = Some (Ret None, merge_RequestOp_Range m m0)"
proof -
  have unknown: "unknown_bytes H RequestOp_Range_field (qr_unknownFields m)" using assms(1) by (simp add: RequestOp_Range_ok_def)
  show ?thesis unfolding RequestOp_Range_UnmarshalVT_def
    by (rule unmarshal_merge [OF _ _ _ _ wire_RequestOp_Range_def unknown assms(2)],
        ((rule list.rel_intros reads_intros assms(2) | (simp; fail))+)[3],
        simp only: fold_simps, rule RequestOp_Range.equality)
      (simp_all add: merge_RequestOp_Range_def if_distrib [of qr_Key] if_distrib [of qr_RangeEnd] if_distrib [of qr_Limit]
        if_distrib [of qr_KeysOnly] if_distrib [of qr_CountOnly]
        if_distrib [of qr_unknownFields] if_distrib [of RequestOp_Range.more])
qed

definition RequestOp_Range_sendable :: "protohelpers \<Rightarrow> RequestOp_Range \<Rightarrow> bool" where
  "RequestOp_Range_sendable H m \<longleftrightarrow> RequestOp_Range_ok H m \<and> normal_RequestOp_Range m \<and> length (wire_RequestOp_Range m) < 2 ^ 63"

lemma RequestOp_Range_received:
  "RequestOp_Range_sendable H m \<Longrightarrow> RequestOp_Range_UnmarshalVT H new_RequestOp_Range (wire_RequestOp_Range m) = Some (Ret None, m)"
  by (simp add: RequestOp_Range_sendable_def RequestOp_Range_unmarshal new_RequestOp_Range_merge)

lemma RequestOp_Range_returns:
  assumes "helpers_ok H" and "length d < 2 ^ 63"
  shows "\<exists>e m1. RequestOp_Range_UnmarshalVT H m d = Some (Ret e, m1)"
  unfolding RequestOp_Range_UnmarshalVT_def
proof (rule decode_returns [OF assms])
  fix n f
  assume "RequestOp_Range_field n = Some f"
  then show "field_returns d f" using assms(2)
    by (auto simp: RequestOp_Range_field_def split: if_splits intro!: returns_intros)
qed simp

section \<open>RequestOp_Put\<close>

definition wire_RequestOp_Put :: "RequestOp_Put \<Rightarrow> bytes" where
  "wire_RequestOp_Put m = concat [
     wire_bytes 0x0A (qp_Key m), wire_bytes 0x12 (qp_Value m), wire_bool 0x18 (qp_PrevKv m)] @ qp_unknownFields m"

definition merge_RequestOp_Put ::
  "RequestOp_Put \<Rightarrow> RequestOp_Put \<Rightarrow> RequestOp_Put" where
  "merge_RequestOp_Put m m0 = m0\<lparr>
     qp_Key := if slice_bytes (qp_Key m) = [] then qp_Key m0 else wire_slice (qp_Key m),
     qp_Value := if slice_bytes (qp_Value m) = [] then qp_Value m0 else wire_slice (qp_Value m),
     qp_PrevKv := qp_PrevKv m \<or> qp_PrevKv m0,
     qp_unknownFields := qp_unknownFields m0 @ qp_unknownFields m\<rparr>"

definition RequestOp_Put_ok :: "protohelpers \<Rightarrow> RequestOp_Put \<Rightarrow> bool" where
  "RequestOp_Put_ok H m \<longleftrightarrow> unknown_bytes H RequestOp_Put_field (qp_unknownFields m)"

definition normal_RequestOp_Put :: "RequestOp_Put \<Rightarrow> bool" where
  "normal_RequestOp_Put m \<longleftrightarrow> wire_slice (qp_Key m) = qp_Key m \<and>
     wire_slice (qp_Value m) = qp_Value m"

lemma new_RequestOp_Put_merge:
  assumes "normal_RequestOp_Put m"
  shows "merge_RequestOp_Put m new_RequestOp_Put = m"
  using assms
  by (cases m) (auto simp: merge_RequestOp_Put_def new_RequestOp_Put_def normal_RequestOp_Put_def normal_slice split: option.split)

lemma RequestOp_Put_marshals:
  assumes "helpers_ok H"
  shows "marshals (RequestOp_Put_MarshalToSizedBufferVT H m) (wire_opt wire_RequestOp_Put m)"
proof (cases m)
  case None
  then show ?thesis by (simp add: RequestOp_Put_MarshalToSizedBufferVT_def [abs_def] wire_opt_def marshals_nil)
next
  case (Some x)
  then show ?thesis
    by (simp add: RequestOp_Put_MarshalToSizedBufferVT_def [abs_def] wire_opt_def wire_RequestOp_Put_def)
      (rule marshals_fields, (rule list.rel_intros prepends_intros assms)+, simp)
qed

lemma RequestOp_Put_SizeVT:
  assumes "helpers_ok H"
  shows "RequestOp_Put_SizeVT H m = length (wire_opt wire_RequestOp_Put m)"
  by (cases m) (simp_all add: RequestOp_Put_SizeVT_def wire_opt_def wire_RequestOp_Put_def size_fields [OF assms, symmetric])

lemma RequestOp_Put_marshalled:
  "helpers_ok H \<Longrightarrow> RequestOp_Put_MarshalVT H (Some m) = Ret (Some (wire_RequestOp_Put m))"
  using marshal_vt_writes [of "RequestOp_Put_MarshalToSizedBufferVT H" m _ "RequestOp_Put_SizeVT H", OF RequestOp_Put_marshals]
    RequestOp_Put_SizeVT [of H "Some m"]
  by (simp add: RequestOp_Put_MarshalVT_def wire_opt_def)

lemma RequestOp_Put_fields [reads_intros]:
  "RequestOp_Put_field 1 = Some (field_bytes ''Key'' (\<lambda>v. qp_Key_update (\<lambda>_. v)))"
  "RequestOp_Put_field 2 = Some (field_bytes ''Value'' (\<lambda>v. qp_Value_update (\<lambda>_. v)))"
  "RequestOp_Put_field 3 = Some (field_bool ''PrevKv'' (\<lambda>v. qp_PrevKv_update (\<lambda>_. v)))"
  by (simp_all add: RequestOp_Put_field_def)

lemma RequestOp_Put_unmarshal:
  assumes "RequestOp_Put_ok H m" and "length (wire_RequestOp_Put m) < 2 ^ 63"
  shows "RequestOp_Put_UnmarshalVT H m0 (wire_RequestOp_Put m) = Some (Ret None, merge_RequestOp_Put m m0)"
proof -
  have unknown: "unknown_bytes H RequestOp_Put_field (qp_unknownFields m)" using assms(1) by (simp add: RequestOp_Put_ok_def)
  show ?thesis unfolding RequestOp_Put_UnmarshalVT_def
    by (rule unmarshal_merge [OF _ _ _ _ wire_RequestOp_Put_def unknown assms(2)],
        ((rule list.rel_intros reads_intros assms(2) | (simp; fail))+)[3],
        simp only: fold_simps, rule RequestOp_Put.equality)
      (simp_all add: merge_RequestOp_Put_def if_distrib [of qp_Key] if_distrib [of qp_Value] if_distrib [of qp_PrevKv]
        if_distrib [of qp_unknownFields] if_distrib [of RequestOp_Put.more])
qed

definition RequestOp_Put_sendable :: "protohelpers \<Rightarrow> RequestOp_Put \<Rightarrow> bool" where
  "RequestOp_Put_sendable H m \<longleftrightarrow> RequestOp_Put_ok H m \<and> normal_RequestOp_Put m \<and> length (wire_RequestOp_Put m) < 2 ^ 63"

lemma RequestOp_Put_received:
  "RequestOp_Put_sendable H m \<Longrightarrow> RequestOp_Put_UnmarshalVT H new_RequestOp_Put (wire_RequestOp_Put m) = Some (Ret None, m)"
  by (simp add: RequestOp_Put_sendable_def RequestOp_Put_unmarshal new_RequestOp_Put_merge)

lemma RequestOp_Put_returns:
  assumes "helpers_ok H" and "length d < 2 ^ 63"
  shows "\<exists>e m1. RequestOp_Put_UnmarshalVT H m d = Some (Ret e, m1)"
  unfolding RequestOp_Put_UnmarshalVT_def
proof (rule decode_returns [OF assms])
  fix n f
  assume "RequestOp_Put_field n = Some f"
  then show "field_returns d f" using assms(2)
    by (auto simp: RequestOp_Put_field_def split: if_splits intro!: returns_intros)
qed simp

section \<open>RequestOp_DeleteRange\<close>

definition wire_RequestOp_DeleteRange :: "RequestOp_DeleteRange \<Rightarrow> bytes" where
  "wire_RequestOp_DeleteRange m = concat [
     wire_bytes 0x0A (qd_Key m), wire_bytes 0x12 (qd_RangeEnd m), wire_bool 0x20 (qd_PrevKv m),
     wire_bool 0x28 (qd_Count m)] @ qd_unknownFields m"

definition merge_RequestOp_DeleteRange ::
  "RequestOp_DeleteRange \<Rightarrow> RequestOp_DeleteRange \<Rightarrow> RequestOp_DeleteRange" where
  "merge_RequestOp_DeleteRange m m0 = m0\<lparr>
     qd_Key := if slice_bytes (qd_Key m) = [] then qd_Key m0 else wire_slice (qd_Key m),
     qd_RangeEnd := if slice_bytes (qd_RangeEnd m) = [] then qd_RangeEnd m0 else wire_slice (qd_RangeEnd m),
     qd_PrevKv := qd_PrevKv m \<or> qd_PrevKv m0, qd_Count := qd_Count m \<or> qd_Count m0,
     qd_unknownFields := qd_unknownFields m0 @ qd_unknownFields m\<rparr>"

definition RequestOp_DeleteRange_ok :: "protohelpers \<Rightarrow> RequestOp_DeleteRange \<Rightarrow> bool" where
  "RequestOp_DeleteRange_ok H m \<longleftrightarrow> unknown_bytes H RequestOp_DeleteRange_field (qd_unknownFields m)"

definition normal_RequestOp_DeleteRange :: "RequestOp_DeleteRange \<Rightarrow> bool" where
  "normal_RequestOp_DeleteRange m \<longleftrightarrow> wire_slice (qd_Key m) = qd_Key m \<and>
     wire_slice (qd_RangeEnd m) = qd_RangeEnd m"

lemma new_RequestOp_DeleteRange_merge:
  assumes "normal_RequestOp_DeleteRange m"
  shows "merge_RequestOp_DeleteRange m new_RequestOp_DeleteRange = m"
  using assms
  by (cases m) (auto simp: merge_RequestOp_DeleteRange_def new_RequestOp_DeleteRange_def normal_RequestOp_DeleteRange_def normal_slice split: option.split)

lemma RequestOp_DeleteRange_marshals:
  assumes "helpers_ok H"
  shows "marshals (RequestOp_DeleteRange_MarshalToSizedBufferVT H m) (wire_opt wire_RequestOp_DeleteRange m)"
proof (cases m)
  case None
  then show ?thesis by (simp add: RequestOp_DeleteRange_MarshalToSizedBufferVT_def [abs_def] wire_opt_def marshals_nil)
next
  case (Some x)
  then show ?thesis
    by (simp add: RequestOp_DeleteRange_MarshalToSizedBufferVT_def [abs_def] wire_opt_def wire_RequestOp_DeleteRange_def)
      (rule marshals_fields, (rule list.rel_intros prepends_intros assms)+, simp)
qed

lemma RequestOp_DeleteRange_SizeVT:
  assumes "helpers_ok H"
  shows "RequestOp_DeleteRange_SizeVT H m = length (wire_opt wire_RequestOp_DeleteRange m)"
  by (cases m) (simp_all add: RequestOp_DeleteRange_SizeVT_def wire_opt_def wire_RequestOp_DeleteRange_def size_fields [OF assms, symmetric])

lemma RequestOp_DeleteRange_marshalled:
  "helpers_ok H \<Longrightarrow> RequestOp_DeleteRange_MarshalVT H (Some m) = Ret (Some (wire_RequestOp_DeleteRange m))"
  using marshal_vt_writes [of "RequestOp_DeleteRange_MarshalToSizedBufferVT H" m _ "RequestOp_DeleteRange_SizeVT H", OF RequestOp_DeleteRange_marshals]
    RequestOp_DeleteRange_SizeVT [of H "Some m"]
  by (simp add: RequestOp_DeleteRange_MarshalVT_def wire_opt_def)

lemma RequestOp_DeleteRange_fields [reads_intros]:
  "RequestOp_DeleteRange_field 1 = Some (field_bytes ''Key'' (\<lambda>v. qd_Key_update (\<lambda>_. v)))"
  "RequestOp_DeleteRange_field 2 = Some (field_bytes ''RangeEnd'' (\<lambda>v. qd_RangeEnd_update (\<lambda>_. v)))"
  "RequestOp_DeleteRange_field 4 = Some (field_bool ''PrevKv'' (\<lambda>v. qd_PrevKv_update (\<lambda>_. v)))"
  "RequestOp_DeleteRange_field 5 = Some (field_bool ''Count'' (\<lambda>v. qd_Count_update (\<lambda>_. v)))"
  by (simp_all add: RequestOp_DeleteRange_field_def)

lemma RequestOp_DeleteRange_unmarshal:
  assumes "RequestOp_DeleteRange_ok H m" and "length (wire_RequestOp_DeleteRange m) < 2 ^ 63"
  shows "RequestOp_DeleteRange_UnmarshalVT H m0 (wire_RequestOp_DeleteRange m) = Some (Ret None, merge_RequestOp_DeleteRange m m0)"
proof -
  have unknown: "unknown_bytes H RequestOp_DeleteRange_field (qd_unknownFields m)" using assms(1) by (simp add: RequestOp_DeleteRange_ok_def)
  show ?thesis unfolding RequestOp_DeleteRange_UnmarshalVT_def
    by (rule unmarshal_merge [OF _ _ _ _ wire_RequestOp_DeleteRange_def unknown assms(2)],
        ((rule list.rel_intros reads_intros assms(2) | (simp; fail))+)[3],
        simp only: fold_simps, rule RequestOp_DeleteRange.equality)
      (simp_all add: merge_RequestOp_DeleteRange_def if_distrib [of qd_Key] if_distrib [of qd_RangeEnd] if_distrib [of qd_PrevKv]
        if_distrib [of qd_Count] if_distrib [of qd_unknownFields]
        if_distrib [of RequestOp_DeleteRange.more])
qed

definition RequestOp_DeleteRange_sendable :: "protohelpers \<Rightarrow> RequestOp_DeleteRange \<Rightarrow> bool" where
  "RequestOp_DeleteRange_sendable H m \<longleftrightarrow> RequestOp_DeleteRange_ok H m \<and> normal_RequestOp_DeleteRange m \<and> length (wire_RequestOp_DeleteRange m) < 2 ^ 63"

lemma RequestOp_DeleteRange_received:
  "RequestOp_DeleteRange_sendable H m \<Longrightarrow> RequestOp_DeleteRange_UnmarshalVT H new_RequestOp_DeleteRange (wire_RequestOp_DeleteRange m) = Some (Ret None, m)"
  by (simp add: RequestOp_DeleteRange_sendable_def RequestOp_DeleteRange_unmarshal new_RequestOp_DeleteRange_merge)

lemma RequestOp_DeleteRange_returns:
  assumes "helpers_ok H" and "length d < 2 ^ 63"
  shows "\<exists>e m1. RequestOp_DeleteRange_UnmarshalVT H m d = Some (Ret e, m1)"
  unfolding RequestOp_DeleteRange_UnmarshalVT_def
proof (rule decode_returns [OF assms])
  fix n f
  assume "RequestOp_DeleteRange_field n = Some f"
  then show "field_returns d f" using assms(2)
    by (auto simp: RequestOp_DeleteRange_field_def split: if_splits intro!: returns_intros)
qed simp

section \<open>ResponseOp_Range\<close>

definition wire_ResponseOp_Range :: "ResponseOp_Range \<Rightarrow> bytes" where
  "wire_ResponseOp_Range m = concat [
     wire_msgs 0x0A (wire_opt wire_KeyValue) (sr_Kvs m), wire_bool 0x10 (sr_More m),
     wire_int 0x18 (sr_Count m)] @ sr_unknownFields m"

definition merge_ResponseOp_Range ::
  "ResponseOp_Range \<Rightarrow> ResponseOp_Range \<Rightarrow> ResponseOp_Range" where
  "merge_ResponseOp_Range m m0 = m0\<lparr>
     sr_Kvs := sr_Kvs m0 @ map (\<lambda>k. Some (merge_elem merge_KeyValue new_KeyValue k)) (sr_Kvs m),
     sr_More := sr_More m \<or> sr_More m0,
     sr_Count := if sr_Count m = 0 then sr_Count m0 else sr_Count m,
     sr_unknownFields := sr_unknownFields m0 @ sr_unknownFields m\<rparr>"

definition ResponseOp_Range_ok :: "protohelpers \<Rightarrow> ResponseOp_Range \<Rightarrow> bool" where
  "ResponseOp_Range_ok H m \<longleftrightarrow> unknown_bytes H (ResponseOp_Range_field H) (sr_unknownFields m) \<and>
     (\<forall>x. Some x \<in> set (sr_Kvs m) \<longrightarrow> KeyValue_ok H x)"

definition normal_ResponseOp_Range :: "ResponseOp_Range \<Rightarrow> bool" where
  "normal_ResponseOp_Range m \<longleftrightarrow> (\<forall>k \<in> set (sr_Kvs m). \<exists>x. k = Some x \<and> normal_KeyValue x)"

lemma new_ResponseOp_Range_merge:
  assumes "normal_ResponseOp_Range m"
  shows "merge_ResponseOp_Range m new_ResponseOp_Range = m"
  using assms
  by (cases m) (auto simp: merge_ResponseOp_Range_def new_ResponseOp_Range_def normal_ResponseOp_Range_def normal_slice new_KeyValue_merge merge_opt_def merge_elem_def intro!: map_idI split: option.split)

lemma ResponseOp_Range_marshals:
  assumes "helpers_ok H"
  shows "marshals (ResponseOp_Range_MarshalToSizedBufferVT H m) (wire_opt wire_ResponseOp_Range m)"
proof (cases m)
  case None
  then show ?thesis by (simp add: ResponseOp_Range_MarshalToSizedBufferVT_def [abs_def] wire_opt_def marshals_nil)
next
  case (Some x)
  then show ?thesis
    by (simp add: ResponseOp_Range_MarshalToSizedBufferVT_def [abs_def] wire_opt_def wire_ResponseOp_Range_def)
      (rule marshals_fields, (rule list.rel_intros prepends_intros assms KeyValue_marshals)+, simp)
qed

lemma ResponseOp_Range_SizeVT:
  assumes "helpers_ok H"
  shows "ResponseOp_Range_SizeVT H m = length (wire_opt wire_ResponseOp_Range m)"
  by (cases m) (simp_all add: ResponseOp_Range_SizeVT_def wire_opt_def wire_ResponseOp_Range_def size_fields [OF assms, symmetric]
      size_msgs [OF assms KeyValue_SizeVT [OF assms], symmetric])

lemma ResponseOp_Range_marshalled:
  "helpers_ok H \<Longrightarrow> ResponseOp_Range_MarshalVT H (Some m) = Ret (Some (wire_ResponseOp_Range m))"
  using marshal_vt_writes [of "ResponseOp_Range_MarshalToSizedBufferVT H" m _ "ResponseOp_Range_SizeVT H", OF ResponseOp_Range_marshals]
    ResponseOp_Range_SizeVT [of H "Some m"]
  by (simp add: ResponseOp_Range_MarshalVT_def wire_opt_def)

lemma ResponseOp_Range_fields [reads_intros]:
  "ResponseOp_Range_field H 1 = Some (field_msg ''Kvs'' (\<lambda>m. new_KeyValue) (\<lambda>x. sr_Kvs_update (\<lambda>xs. xs @ [Some x]))
    (KeyValue_UnmarshalVT H))"
  "ResponseOp_Range_field H 2 = Some (field_bool ''More'' (\<lambda>v. sr_More_update (\<lambda>_. v)))"
  "ResponseOp_Range_field H 3 = Some (field_int ''Count'' (\<lambda>v. sr_Count_update (\<lambda>_. v)))"
  by (simp_all add: ResponseOp_Range_field_def)

lemma ResponseOp_Range_unmarshal:
  assumes "ResponseOp_Range_ok H m" and "length (wire_ResponseOp_Range m) < 2 ^ 63"
  shows "ResponseOp_Range_UnmarshalVT H m0 (wire_ResponseOp_Range m) = Some (Ret None, merge_ResponseOp_Range m m0)"
proof -
  have unknown: "unknown_bytes H (ResponseOp_Range_field H) (sr_unknownFields m)" using assms(1) by (simp add: ResponseOp_Range_ok_def)
  have Kvs: "KeyValue_UnmarshalVT H new_KeyValue (wire_opt wire_KeyValue k) =
      Some (Ret None, merge_elem merge_KeyValue new_KeyValue k)" if "k \<in> set (sr_Kvs m)" for k
    using assms nested_length(2) [OF that, of "wire_opt wire_KeyValue" "0x0A"] that
    by (intro KeyValue_elem) (auto simp: ResponseOp_Range_ok_def wire_ResponseOp_Range_def intro: le_less_trans)
  show ?thesis unfolding ResponseOp_Range_UnmarshalVT_def
    by (rule unmarshal_merge [OF _ _ _ _ wire_ResponseOp_Range_def unknown assms(2)],
        ((rule list.rel_intros reads_intros assms(2) Kvs | (simp; fail))+)[3],
        simp only: fold_simps, rule ResponseOp_Range.equality)
      (simp_all add: merge_ResponseOp_Range_def if_distrib [of sr_Kvs] if_distrib [of sr_More] if_distrib [of sr_Count]
        if_distrib [of sr_unknownFields] if_distrib [of ResponseOp_Range.more])
qed

definition ResponseOp_Range_sendable :: "protohelpers \<Rightarrow> ResponseOp_Range \<Rightarrow> bool" where
  "ResponseOp_Range_sendable H m \<longleftrightarrow> ResponseOp_Range_ok H m \<and> normal_ResponseOp_Range m \<and> length (wire_ResponseOp_Range m) < 2 ^ 63"

lemma ResponseOp_Range_received:
  "ResponseOp_Range_sendable H m \<Longrightarrow> ResponseOp_Range_UnmarshalVT H new_ResponseOp_Range (wire_ResponseOp_Range m) = Some (Ret None, m)"
  by (simp add: ResponseOp_Range_sendable_def ResponseOp_Range_unmarshal new_ResponseOp_Range_merge)

lemma ResponseOp_Range_returns:
  assumes "helpers_ok H" and "length d < 2 ^ 63"
  shows "\<exists>e m1. ResponseOp_Range_UnmarshalVT H m d = Some (Ret e, m1)"
  unfolding ResponseOp_Range_UnmarshalVT_def
proof (rule decode_returns [OF assms])
  fix n f
  assume "ResponseOp_Range_field H n = Some f"
  then show "field_returns d f" using assms(2)
    by (auto simp: ResponseOp_Range_field_def split: if_splits intro!: returns_intros KeyValue_returns [OF assms(1)])
qed simp

section \<open>ResponseOp_Put\<close>

definition wire_ResponseOp_Put :: "ResponseOp_Put \<Rightarrow> bytes" where
  "wire_ResponseOp_Put m = concat [
     wire_msg 0x0A (wire_opt wire_KeyValue) (sp_PrevKv m)] @ sp_unknownFields m"

definition merge_ResponseOp_Put ::
  "ResponseOp_Put \<Rightarrow> ResponseOp_Put \<Rightarrow> ResponseOp_Put" where
  "merge_ResponseOp_Put m m0 = m0\<lparr>
     sp_PrevKv := merge_opt merge_KeyValue new_KeyValue (sp_PrevKv m) (sp_PrevKv m0),
     sp_unknownFields := sp_unknownFields m0 @ sp_unknownFields m\<rparr>"

definition ResponseOp_Put_ok :: "protohelpers \<Rightarrow> ResponseOp_Put \<Rightarrow> bool" where
  "ResponseOp_Put_ok H m \<longleftrightarrow> unknown_bytes H (ResponseOp_Put_field H) (sp_unknownFields m) \<and>
     (\<forall>x. sp_PrevKv m = Some x \<longrightarrow> KeyValue_ok H x)"

definition normal_ResponseOp_Put :: "ResponseOp_Put \<Rightarrow> bool" where
  "normal_ResponseOp_Put m \<longleftrightarrow> (\<forall>x. sp_PrevKv m = Some x \<longrightarrow> normal_KeyValue x)"

lemma new_ResponseOp_Put_merge:
  assumes "normal_ResponseOp_Put m"
  shows "merge_ResponseOp_Put m new_ResponseOp_Put = m"
  using assms
  by (cases m) (auto simp: merge_ResponseOp_Put_def new_ResponseOp_Put_def normal_ResponseOp_Put_def normal_slice new_KeyValue_merge merge_opt_def merge_elem_def split: option.split)

lemma ResponseOp_Put_marshals:
  assumes "helpers_ok H"
  shows "marshals (ResponseOp_Put_MarshalToSizedBufferVT H m) (wire_opt wire_ResponseOp_Put m)"
proof (cases m)
  case None
  then show ?thesis by (simp add: ResponseOp_Put_MarshalToSizedBufferVT_def [abs_def] wire_opt_def marshals_nil)
next
  case (Some x)
  then show ?thesis
    by (simp add: ResponseOp_Put_MarshalToSizedBufferVT_def [abs_def] wire_opt_def wire_ResponseOp_Put_def)
      (rule marshals_fields, (rule list.rel_intros prepends_intros assms KeyValue_marshals)+, simp)
qed

lemma ResponseOp_Put_SizeVT:
  assumes "helpers_ok H"
  shows "ResponseOp_Put_SizeVT H m = length (wire_opt wire_ResponseOp_Put m)"
  by (cases m) (simp_all add: ResponseOp_Put_SizeVT_def wire_opt_def wire_ResponseOp_Put_def size_fields [OF assms, symmetric]
      size_msg [OF assms KeyValue_SizeVT [OF assms], symmetric])

lemma ResponseOp_Put_marshalled:
  "helpers_ok H \<Longrightarrow> ResponseOp_Put_MarshalVT H (Some m) = Ret (Some (wire_ResponseOp_Put m))"
  using marshal_vt_writes [of "ResponseOp_Put_MarshalToSizedBufferVT H" m _ "ResponseOp_Put_SizeVT H", OF ResponseOp_Put_marshals]
    ResponseOp_Put_SizeVT [of H "Some m"]
  by (simp add: ResponseOp_Put_MarshalVT_def wire_opt_def)

lemma ResponseOp_Put_fields [reads_intros]:
  "ResponseOp_Put_field H 1 = Some (field_msg ''PrevKv'' (\<lambda>m. case sp_PrevKv m of None \<Rightarrow> new_KeyValue | Some x \<Rightarrow> x)
    (\<lambda>x. sp_PrevKv_update (\<lambda>_. Some x)) (KeyValue_UnmarshalVT H))"
  by (simp_all add: ResponseOp_Put_field_def)

lemma ResponseOp_Put_unmarshal:
  assumes "ResponseOp_Put_ok H m" and "length (wire_ResponseOp_Put m) < 2 ^ 63"
  shows "ResponseOp_Put_UnmarshalVT H m0 (wire_ResponseOp_Put m) = Some (Ret None, merge_ResponseOp_Put m m0)"
proof -
  have unknown: "unknown_bytes H (ResponseOp_Put_field H) (sp_unknownFields m)" using assms(1) by (simp add: ResponseOp_Put_ok_def)
  have PrevKv: "KeyValue_UnmarshalVT H m0 (wire_KeyValue x) = Some (Ret None, merge_KeyValue x m0)"
    if "sp_PrevKv m = Some x" for x m0
    using assms nested_length(1) [of wire_KeyValue x "0x0A"] that
    by (intro KeyValue_unmarshal) (auto simp: ResponseOp_Put_ok_def wire_ResponseOp_Put_def intro: le_less_trans)
  show ?thesis unfolding ResponseOp_Put_UnmarshalVT_def
    by (rule unmarshal_merge [OF _ _ _ _ wire_ResponseOp_Put_def unknown assms(2)],
        ((rule list.rel_intros reads_intros assms(2) PrevKv | (simp; fail))+)[3],
        simp only: fold_simps, rule ResponseOp_Put.equality)
      (simp_all add: merge_ResponseOp_Put_def merge_opt_None if_distrib [of sp_PrevKv] if_distrib [of sp_unknownFields]
        if_distrib [of ResponseOp_Put.more])
qed

definition ResponseOp_Put_sendable :: "protohelpers \<Rightarrow> ResponseOp_Put \<Rightarrow> bool" where
  "ResponseOp_Put_sendable H m \<longleftrightarrow> ResponseOp_Put_ok H m \<and> normal_ResponseOp_Put m \<and> length (wire_ResponseOp_Put m) < 2 ^ 63"

lemma ResponseOp_Put_received:
  "ResponseOp_Put_sendable H m \<Longrightarrow> ResponseOp_Put_UnmarshalVT H new_ResponseOp_Put (wire_ResponseOp_Put m) = Some (Ret None, m)"
  by (simp add: ResponseOp_Put_sendable_def ResponseOp_Put_unmarshal new_ResponseOp_Put_merge)

lemma ResponseOp_Put_returns:
  assumes "helpers_ok H" and "length d < 2 ^ 63"
  shows "\<exists>e m1. ResponseOp_Put_UnmarshalVT H m d = Some (Ret e, m1)"
  unfolding ResponseOp_Put_UnmarshalVT_def
proof (rule decode_returns [OF assms])
  fix n f
  assume "ResponseOp_Put_field H n = Some f"
  then show "field_returns d f" using assms(2)
    by (auto simp: ResponseOp_Put_field_def split: if_splits intro!: returns_intros KeyValue_returns [OF assms(1)])
qed simp

section \<open>ResponseOp_DeleteRange\<close>

definition wire_ResponseOp_DeleteRange :: "ResponseOp_DeleteRange \<Rightarrow> bytes" where
  "wire_ResponseOp_DeleteRange m = concat [
     wire_int 0x08 (sd_Deleted m), wire_msgs 0x12 (wire_opt wire_KeyValue) (sd_PrevKvs m)] @ sd_unknownFields m"

definition merge_ResponseOp_DeleteRange ::
  "ResponseOp_DeleteRange \<Rightarrow> ResponseOp_DeleteRange \<Rightarrow> ResponseOp_DeleteRange" where
  "merge_ResponseOp_DeleteRange m m0 = m0\<lparr>
     sd_Deleted := if sd_Deleted m = 0 then sd_Deleted m0 else sd_Deleted m,
     sd_PrevKvs := sd_PrevKvs m0 @ map (\<lambda>k. Some (merge_elem merge_KeyValue new_KeyValue k)) (sd_PrevKvs m),
     sd_unknownFields := sd_unknownFields m0 @ sd_unknownFields m\<rparr>"

definition ResponseOp_DeleteRange_ok :: "protohelpers \<Rightarrow> ResponseOp_DeleteRange \<Rightarrow> bool" where
  "ResponseOp_DeleteRange_ok H m \<longleftrightarrow> unknown_bytes H (ResponseOp_DeleteRange_field H) (sd_unknownFields m) \<and>
     (\<forall>x. Some x \<in> set (sd_PrevKvs m) \<longrightarrow> KeyValue_ok H x)"

definition normal_ResponseOp_DeleteRange :: "ResponseOp_DeleteRange \<Rightarrow> bool" where
  "normal_ResponseOp_DeleteRange m \<longleftrightarrow> (\<forall>k \<in> set (sd_PrevKvs m). \<exists>x. k = Some x \<and> normal_KeyValue x)"

lemma new_ResponseOp_DeleteRange_merge:
  assumes "normal_ResponseOp_DeleteRange m"
  shows "merge_ResponseOp_DeleteRange m new_ResponseOp_DeleteRange = m"
  using assms
  by (cases m) (auto simp: merge_ResponseOp_DeleteRange_def new_ResponseOp_DeleteRange_def normal_ResponseOp_DeleteRange_def normal_slice new_KeyValue_merge merge_opt_def merge_elem_def intro!: map_idI split: option.split)

lemma ResponseOp_DeleteRange_marshals:
  assumes "helpers_ok H"
  shows "marshals (ResponseOp_DeleteRange_MarshalToSizedBufferVT H m) (wire_opt wire_ResponseOp_DeleteRange m)"
proof (cases m)
  case None
  then show ?thesis by (simp add: ResponseOp_DeleteRange_MarshalToSizedBufferVT_def [abs_def] wire_opt_def marshals_nil)
next
  case (Some x)
  then show ?thesis
    by (simp add: ResponseOp_DeleteRange_MarshalToSizedBufferVT_def [abs_def] wire_opt_def wire_ResponseOp_DeleteRange_def)
      (rule marshals_fields, (rule list.rel_intros prepends_intros assms KeyValue_marshals)+, simp)
qed

lemma ResponseOp_DeleteRange_SizeVT:
  assumes "helpers_ok H"
  shows "ResponseOp_DeleteRange_SizeVT H m = length (wire_opt wire_ResponseOp_DeleteRange m)"
  by (cases m) (simp_all add: ResponseOp_DeleteRange_SizeVT_def wire_opt_def wire_ResponseOp_DeleteRange_def size_fields [OF assms, symmetric]
      size_msgs [OF assms KeyValue_SizeVT [OF assms], symmetric])

lemma ResponseOp_DeleteRange_marshalled:
  "helpers_ok H \<Longrightarrow> ResponseOp_DeleteRange_MarshalVT H (Some m) = Ret (Some (wire_ResponseOp_DeleteRange m))"
  using marshal_vt_writes [of "ResponseOp_DeleteRange_MarshalToSizedBufferVT H" m _ "ResponseOp_DeleteRange_SizeVT H", OF ResponseOp_DeleteRange_marshals]
    ResponseOp_DeleteRange_SizeVT [of H "Some m"]
  by (simp add: ResponseOp_DeleteRange_MarshalVT_def wire_opt_def)

lemma ResponseOp_DeleteRange_fields [reads_intros]:
  "ResponseOp_DeleteRange_field H 1 = Some (field_int ''Deleted'' (\<lambda>v. sd_Deleted_update (\<lambda>_. v)))"
  "ResponseOp_DeleteRange_field H 2 = Some (field_msg ''PrevKvs'' (\<lambda>m. new_KeyValue) (\<lambda>x. sd_PrevKvs_update (\<lambda>xs. xs @ [Some x]))
    (KeyValue_UnmarshalVT H))"
  by (simp_all add: ResponseOp_DeleteRange_field_def)

lemma ResponseOp_DeleteRange_unmarshal:
  assumes "ResponseOp_DeleteRange_ok H m" and "length (wire_ResponseOp_DeleteRange m) < 2 ^ 63"
  shows "ResponseOp_DeleteRange_UnmarshalVT H m0 (wire_ResponseOp_DeleteRange m) = Some (Ret None, merge_ResponseOp_DeleteRange m m0)"
proof -
  have unknown: "unknown_bytes H (ResponseOp_DeleteRange_field H) (sd_unknownFields m)" using assms(1) by (simp add: ResponseOp_DeleteRange_ok_def)
  have PrevKvs: "KeyValue_UnmarshalVT H new_KeyValue (wire_opt wire_KeyValue k) =
      Some (Ret None, merge_elem merge_KeyValue new_KeyValue k)" if "k \<in> set (sd_PrevKvs m)" for k
    using assms nested_length(2) [OF that, of "wire_opt wire_KeyValue" "0x12"] that
    by (intro KeyValue_elem) (auto simp: ResponseOp_DeleteRange_ok_def wire_ResponseOp_DeleteRange_def intro: le_less_trans)
  show ?thesis unfolding ResponseOp_DeleteRange_UnmarshalVT_def
    by (rule unmarshal_merge [OF _ _ _ _ wire_ResponseOp_DeleteRange_def unknown assms(2)],
        ((rule list.rel_intros reads_intros assms(2) PrevKvs | (simp; fail))+)[3],
        simp only: fold_simps, rule ResponseOp_DeleteRange.equality)
      (simp_all add: merge_ResponseOp_DeleteRange_def if_distrib [of sd_Deleted] if_distrib [of sd_PrevKvs]
        if_distrib [of sd_unknownFields] if_distrib [of ResponseOp_DeleteRange.more])
qed

definition ResponseOp_DeleteRange_sendable :: "protohelpers \<Rightarrow> ResponseOp_DeleteRange \<Rightarrow> bool" where
  "ResponseOp_DeleteRange_sendable H m \<longleftrightarrow> ResponseOp_DeleteRange_ok H m \<and> normal_ResponseOp_DeleteRange m \<and> length (wire_ResponseOp_DeleteRange m) < 2 ^ 63"

lemma ResponseOp_DeleteRange_received:
  "ResponseOp_DeleteRange_sendable H m \<Longrightarrow> ResponseOp_DeleteRange_UnmarshalVT H new_ResponseOp_DeleteRange (wire_ResponseOp_DeleteRange m) = Some (Ret None, m)"
  by (simp add: ResponseOp_DeleteRange_sendable_def ResponseOp_DeleteRange_unmarshal new_ResponseOp_DeleteRange_merge)

lemma ResponseOp_DeleteRange_returns:
  assumes "helpers_ok H" and "length d < 2 ^ 63"
  shows "\<exists>e m1. ResponseOp_DeleteRange_UnmarshalVT H m d = Some (Ret e, m1)"
  unfolding ResponseOp_DeleteRange_UnmarshalVT_def
proof (rule decode_returns [OF assms])
  fix n f
  assume "ResponseOp_DeleteRange_field H n = Some f"
  then show "field_returns d f" using assms(2)
    by (auto simp: ResponseOp_DeleteRange_field_def split: if_splits intro!: returns_intros KeyValue_returns [OF assms(1)])
qed simp

end
