(* ===== verification/Wire_Txn.thy ===== *)
theory Wire_Txn
  imports Wire_Roundtrip Client_Cmp
begin

text \<open>
  The messages of a transaction (\<open>mvcc_vtproto.pb.go\<close> and \<open>regatta_vtproto.pb.go\<close> of
  \<open>internal/proto\<close>): the operations and their responses, which are oneofs, the comparisons, and the
  request and response themselves. The comparisons of a request live in the store of
  \<open>Client_Cmp\<close>: marshalling reads them there, and unmarshalling, whose receiver is the request
  together with the store, allocates new ones. As in \<open>Proto_Types\<close>, the other pointers of a
  transaction are never nil, since nothing in the client makes them so. A wrapper of a
  oneof (\<open>RequestOp_RequestRange\<close>, ...) is a constructor, and its methods are a case each.
\<close>

section \<open>RequestOp\<close>

definition new_RequestOp :: RequestOp where
  "new_RequestOp = \<lparr>ro_Request = None, ro_unknownFields = []\<rparr>"

definition RequestOp_Request_SizeVT :: "protohelpers \<Rightarrow> RequestOp_Request \<Rightarrow> nat" where
  "RequestOp_Request_SizeVT H r = (case r of
     RequestOp_RequestRange x \<Rightarrow> size_len H (RequestOp_Range_SizeVT H (Some x))
   | RequestOp_RequestPut x \<Rightarrow> size_len H (RequestOp_Put_SizeVT H (Some x))
   | RequestOp_RequestDeleteRange x \<Rightarrow> size_len H (RequestOp_DeleteRange_SizeVT H (Some x)))"

definition RequestOp_SizeVT :: "protohelpers \<Rightarrow> RequestOp option \<Rightarrow> nat" where
  "RequestOp_SizeVT H m = (case m of None \<Rightarrow> 0 | Some m \<Rightarrow>
     size_oneof (RequestOp_Request_SizeVT H) (ro_Request m) + length (ro_unknownFields m))"

definition RequestOp_Request_MarshalToSizedBufferVT ::
  "protohelpers \<Rightarrow> RequestOp_Request \<Rightarrow> bytes \<Rightarrow> (int \<times> bytes) go" where
  "RequestOp_Request_MarshalToSizedBufferVT H r = (case r of
     RequestOp_RequestRange x \<Rightarrow> marshal_sized [put_msg_field H 0x0A (RequestOp_Range_MarshalToSizedBufferVT H) (Some x)]
   | RequestOp_RequestPut x \<Rightarrow> marshal_sized [put_msg_field H 0x12 (RequestOp_Put_MarshalToSizedBufferVT H) (Some x)]
   | RequestOp_RequestDeleteRange x \<Rightarrow> marshal_sized [put_msg_field H 0x1A (RequestOp_DeleteRange_MarshalToSizedBufferVT H) (Some x)])"

definition RequestOp_MarshalToSizedBufferVT ::
  "protohelpers \<Rightarrow> RequestOp option \<Rightarrow> bytes \<Rightarrow> (int \<times> bytes) go" where
  "RequestOp_MarshalToSizedBufferVT H m d = (case m of None \<Rightarrow> Ret (0, d) | Some m \<Rightarrow>
     marshal_sized [copy_at (ro_unknownFields m), put_oneof (RequestOp_Request_MarshalToSizedBufferVT H) (ro_Request m)] d)"

definition RequestOp_MarshalVT :: "protohelpers \<Rightarrow> RequestOp option \<Rightarrow> slice go" where
  "RequestOp_MarshalVT H = marshal_vt (RequestOp_SizeVT H) (RequestOp_MarshalToSizedBufferVT H)"

definition RequestOp_field ::
  "protohelpers \<Rightarrow> nat \<Rightarrow> (nat \<Rightarrow> bytes \<Rightarrow> nat \<Rightarrow> RequestOp \<Rightarrow> RequestOp field_result) option" where
  "RequestOp_field H n =
    (if n = 1 then Some (field_oneof ''RequestRange''
         (\<lambda>m. case ro_Request m of Some (RequestOp_RequestRange x) \<Rightarrow> Some x | _ \<Rightarrow> None) new_RequestOp_Range
         (\<lambda>x. ro_Request_update (\<lambda>_. Some (RequestOp_RequestRange x))) (RequestOp_Range_UnmarshalVT H))
     else if n = 2 then Some (field_oneof ''RequestPut''
         (\<lambda>m. case ro_Request m of Some (RequestOp_RequestPut x) \<Rightarrow> Some x | _ \<Rightarrow> None) new_RequestOp_Put
         (\<lambda>x. ro_Request_update (\<lambda>_. Some (RequestOp_RequestPut x))) (RequestOp_Put_UnmarshalVT H))
     else if n = 3 then Some (field_oneof ''RequestDeleteRange''
         (\<lambda>m. case ro_Request m of Some (RequestOp_RequestDeleteRange x) \<Rightarrow> Some x | _ \<Rightarrow> None) new_RequestOp_DeleteRange
         (\<lambda>x. ro_Request_update (\<lambda>_. Some (RequestOp_RequestDeleteRange x))) (RequestOp_DeleteRange_UnmarshalVT H))
     else None)"

definition RequestOp_UnmarshalVT ::
  "protohelpers \<Rightarrow> RequestOp \<Rightarrow> bytes \<Rightarrow> (wire_error option go \<times> RequestOp) option" where
  "RequestOp_UnmarshalVT H m d = decode_loop H ''RequestOp'' (RequestOp_field H)
     (\<lambda>bs. ro_unknownFields_update (\<lambda>us. us @ bs)) d 0 m"

section \<open>ResponseOp\<close>

definition new_ResponseOp :: PbResponseOp where
  "new_ResponseOp = \<lparr>so_Response = None, so_unknownFields = []\<rparr>"

definition ResponseOp_Response_SizeVT :: "protohelpers \<Rightarrow> ResponseOp_Response \<Rightarrow> nat" where
  "ResponseOp_Response_SizeVT H r = (case r of
     ResponseOp_ResponseRange x \<Rightarrow> size_len H (ResponseOp_Range_SizeVT H (Some x))
   | ResponseOp_ResponsePut x \<Rightarrow> size_len H (ResponseOp_Put_SizeVT H (Some x))
   | ResponseOp_ResponseDeleteRange x \<Rightarrow> size_len H (ResponseOp_DeleteRange_SizeVT H (Some x)))"

definition ResponseOp_SizeVT :: "protohelpers \<Rightarrow> PbResponseOp option \<Rightarrow> nat" where
  "ResponseOp_SizeVT H m = (case m of None \<Rightarrow> 0 | Some m \<Rightarrow>
     size_oneof (ResponseOp_Response_SizeVT H) (so_Response m) + length (so_unknownFields m))"

definition ResponseOp_Response_MarshalToSizedBufferVT ::
  "protohelpers \<Rightarrow> ResponseOp_Response \<Rightarrow> bytes \<Rightarrow> (int \<times> bytes) go" where
  "ResponseOp_Response_MarshalToSizedBufferVT H r = (case r of
     ResponseOp_ResponseRange x \<Rightarrow> marshal_sized [put_msg_field H 0x0A (ResponseOp_Range_MarshalToSizedBufferVT H) (Some x)]
   | ResponseOp_ResponsePut x \<Rightarrow> marshal_sized [put_msg_field H 0x12 (ResponseOp_Put_MarshalToSizedBufferVT H) (Some x)]
   | ResponseOp_ResponseDeleteRange x \<Rightarrow> marshal_sized [put_msg_field H 0x1A (ResponseOp_DeleteRange_MarshalToSizedBufferVT H) (Some x)])"

definition ResponseOp_MarshalToSizedBufferVT ::
  "protohelpers \<Rightarrow> PbResponseOp option \<Rightarrow> bytes \<Rightarrow> (int \<times> bytes) go" where
  "ResponseOp_MarshalToSizedBufferVT H m d = (case m of None \<Rightarrow> Ret (0, d) | Some m \<Rightarrow>
     marshal_sized [copy_at (so_unknownFields m), put_oneof (ResponseOp_Response_MarshalToSizedBufferVT H) (so_Response m)] d)"

definition ResponseOp_MarshalVT :: "protohelpers \<Rightarrow> PbResponseOp option \<Rightarrow> slice go" where
  "ResponseOp_MarshalVT H = marshal_vt (ResponseOp_SizeVT H) (ResponseOp_MarshalToSizedBufferVT H)"

definition ResponseOp_field ::
  "protohelpers \<Rightarrow> nat \<Rightarrow> (nat \<Rightarrow> bytes \<Rightarrow> nat \<Rightarrow> PbResponseOp \<Rightarrow> PbResponseOp field_result) option" where
  "ResponseOp_field H n =
    (if n = 1 then Some (field_oneof ''ResponseRange''
         (\<lambda>m. case so_Response m of Some (ResponseOp_ResponseRange x) \<Rightarrow> Some x | _ \<Rightarrow> None) new_ResponseOp_Range
         (\<lambda>x. so_Response_update (\<lambda>_. Some (ResponseOp_ResponseRange x))) (ResponseOp_Range_UnmarshalVT H))
     else if n = 2 then Some (field_oneof ''ResponsePut''
         (\<lambda>m. case so_Response m of Some (ResponseOp_ResponsePut x) \<Rightarrow> Some x | _ \<Rightarrow> None) new_ResponseOp_Put
         (\<lambda>x. so_Response_update (\<lambda>_. Some (ResponseOp_ResponsePut x))) (ResponseOp_Put_UnmarshalVT H))
     else if n = 3 then Some (field_oneof ''ResponseDeleteRange''
         (\<lambda>m. case so_Response m of Some (ResponseOp_ResponseDeleteRange x) \<Rightarrow> Some x | _ \<Rightarrow> None) new_ResponseOp_DeleteRange
         (\<lambda>x. so_Response_update (\<lambda>_. Some (ResponseOp_ResponseDeleteRange x))) (ResponseOp_DeleteRange_UnmarshalVT H))
     else None)"

definition ResponseOp_UnmarshalVT ::
  "protohelpers \<Rightarrow> PbResponseOp \<Rightarrow> bytes \<Rightarrow> (wire_error option go \<times> PbResponseOp) option" where
  "ResponseOp_UnmarshalVT H m d = decode_loop H ''ResponseOp'' (ResponseOp_field H)
     (\<lambda>bs. so_unknownFields_update (\<lambda>us. us @ bs)) d 0 m"

section \<open>Compare\<close>

definition Compare_Value_SizeVT :: "protohelpers \<Rightarrow> Compare_TargetUnion \<Rightarrow> nat" where
  "Compare_Value_SizeVT H r = size_len H (slice_len (cmp_value r))"

definition Compare_SizeVT :: "protohelpers \<Rightarrow> PbCompare option \<Rightarrow> nat" where
  "Compare_SizeVT H m = (case m of None \<Rightarrow> 0 | Some m \<Rightarrow>
     size_enum_field H (pc_Result m) + size_enum_field H (pc_Target m) + size_bytes_field H (pc_Key m) +
     size_oneof (Compare_Value_SizeVT H) (pc_TargetUnion m) + size_bytes_field2 H (pc_RangeEnd m) +
     length (pc_unknownFields m))"

definition Compare_Value_MarshalToSizedBufferVT ::
  "protohelpers \<Rightarrow> Compare_TargetUnion \<Rightarrow> bytes \<Rightarrow> (int \<times> bytes) go" where
  "Compare_Value_MarshalToSizedBufferVT H r = marshal_sized [put_bytes H 0x22 (cmp_value r)]"

definition Compare_MarshalToSizedBufferVT ::
  "protohelpers \<Rightarrow> PbCompare option \<Rightarrow> bytes \<Rightarrow> (int \<times> bytes) go" where
  "Compare_MarshalToSizedBufferVT H m d = (case m of None \<Rightarrow> Ret (0, d) | Some m \<Rightarrow>
     marshal_sized [
       copy_at (pc_unknownFields m),
       put_oneof (Compare_Value_MarshalToSizedBufferVT H) (pc_TargetUnion m),
       put_bytes_field2 H 0x82 0x04 (pc_RangeEnd m), put_bytes_field H 0x1A (pc_Key m),
       put_enum_field H 0x10 (pc_Target m), put_enum_field H 0x08 (pc_Result m)] d)"

definition Compare_MarshalVT :: "protohelpers \<Rightarrow> PbCompare option \<Rightarrow> slice go" where
  "Compare_MarshalVT H = marshal_vt (Compare_SizeVT H) (Compare_MarshalToSizedBufferVT H)"

definition Compare_field ::
  "nat \<Rightarrow> (nat \<Rightarrow> bytes \<Rightarrow> nat \<Rightarrow> PbCompare \<Rightarrow> PbCompare field_result) option" where
  "Compare_field n =
    (if n = 1 then Some (field_enum ''Result'' (\<lambda>v. pc_Result_update (\<lambda>_. v)))
     else if n = 2 then Some (field_enum ''Target'' (\<lambda>v. pc_Target_update (\<lambda>_. v)))
     else if n = 3 then Some (field_bytes ''Key'' (\<lambda>v. pc_Key_update (\<lambda>_. v)))
     else if n = 4 then Some (field_bytes ''Value'' (\<lambda>v. pc_TargetUnion_update (\<lambda>_. Some (Compare_Value v))))
     else if n = 64 then Some (field_bytes ''RangeEnd'' (\<lambda>v. pc_RangeEnd_update (\<lambda>_. v)))
     else None)"

definition Compare_UnmarshalVT ::
  "protohelpers \<Rightarrow> PbCompare \<Rightarrow> bytes \<Rightarrow> (wire_error option go \<times> PbCompare) option" where
  "Compare_UnmarshalVT H m d = decode_loop H ''Compare'' Compare_field
     (\<lambda>bs. pc_unknownFields_update (\<lambda>us. us @ bs)) d 0 m"

section \<open>TxnRequest\<close>

text \<open>The comparison a pointer points to.\<close>

definition cmp_at :: "cmp_heap \<Rightarrow> cmp_ptr \<Rightarrow> PbCompare option" where
  "cmp_at h p = map_option (cells h) p"

definition new_TxnRequest :: TxnRequest where
  "new_TxnRequest = \<lparr>tr_Table = None, tr_Compare = [], tr_Success = [], tr_Failure = [],
     tr_unknownFields = []\<rparr>"

definition TxnRequest_SizeVT :: "protohelpers \<Rightarrow> cmp_heap \<Rightarrow> TxnRequest option \<Rightarrow> nat" where
  "TxnRequest_SizeVT H h m = (case m of None \<Rightarrow> 0 | Some m \<Rightarrow>
     size_bytes_field H (tr_Table m) +
     size_msgs_field H (\<lambda>p. Compare_SizeVT H (cmp_at h p)) (tr_Compare m) +
     size_msgs_field H (\<lambda>x. RequestOp_SizeVT H (Some x)) (tr_Success m) +
     size_msgs_field H (\<lambda>x. RequestOp_SizeVT H (Some x)) (tr_Failure m) + length (tr_unknownFields m))"

definition TxnRequest_MarshalToSizedBufferVT ::
  "protohelpers \<Rightarrow> cmp_heap \<Rightarrow> TxnRequest option \<Rightarrow> bytes \<Rightarrow> (int \<times> bytes) go" where
  "TxnRequest_MarshalToSizedBufferVT H h m d = (case m of None \<Rightarrow> Ret (0, d) | Some m \<Rightarrow>
     marshal_sized [
       copy_at (tr_unknownFields m),
       put_msgs_field H 0x22 (\<lambda>x. RequestOp_MarshalToSizedBufferVT H (Some x)) (tr_Failure m),
       put_msgs_field H 0x1A (\<lambda>x. RequestOp_MarshalToSizedBufferVT H (Some x)) (tr_Success m),
       put_msgs_field H 0x12 (\<lambda>p. Compare_MarshalToSizedBufferVT H (cmp_at h p)) (tr_Compare m),
       put_bytes_field H 0x0A (tr_Table m)] d)"

definition TxnRequest_MarshalVT :: "protohelpers \<Rightarrow> cmp_heap \<Rightarrow> TxnRequest option \<Rightarrow> slice go" where
  "TxnRequest_MarshalVT H h = marshal_vt (TxnRequest_SizeVT H h) (TxnRequest_MarshalToSizedBufferVT H h)"

text \<open>\<open>append(m.Compare, &Compare{})\<close>, with what is then read into the new cell.\<close>

definition append_Compare :: "PbCompare \<Rightarrow> TxnRequest \<times> cmp_heap \<Rightarrow> TxnRequest \<times> cmp_heap" where
  "append_Compare c st = (case st of (m, h) \<Rightarrow>
     case cmp_alloc c h of (p, h1) \<Rightarrow> (m\<lparr>tr_Compare := tr_Compare m @ [p]\<rparr>, h1))"

definition TxnRequest_field ::
  "protohelpers \<Rightarrow> nat \<Rightarrow> (nat \<Rightarrow> bytes \<Rightarrow> nat \<Rightarrow> TxnRequest \<times> cmp_heap \<Rightarrow>
     (TxnRequest \<times> cmp_heap) field_result) option" where
  "TxnRequest_field H n =
    (if n = 1 then Some (field_bytes ''Table'' (\<lambda>v. apfst (tr_Table_update (\<lambda>_. v))))
     else if n = 2 then Some (field_msg ''Compare'' (\<lambda>st. zero_Compare) append_Compare (Compare_UnmarshalVT H))
     else if n = 3 then Some (field_msg ''Success'' (\<lambda>st. new_RequestOp)
         (\<lambda>x. apfst (tr_Success_update (\<lambda>xs. xs @ [x]))) (RequestOp_UnmarshalVT H))
     else if n = 4 then Some (field_msg ''Failure'' (\<lambda>st. new_RequestOp)
         (\<lambda>x. apfst (tr_Failure_update (\<lambda>xs. xs @ [x]))) (RequestOp_UnmarshalVT H))
     else None)"

definition TxnRequest_UnmarshalVT ::
  "protohelpers \<Rightarrow> TxnRequest \<times> cmp_heap \<Rightarrow> bytes \<Rightarrow> (wire_error option go \<times> TxnRequest \<times> cmp_heap) option" where
  "TxnRequest_UnmarshalVT H st d = decode_loop H ''TxnRequest'' (TxnRequest_field H)
     (\<lambda>bs. apfst (tr_unknownFields_update (\<lambda>us. us @ bs))) d 0 st"

section \<open>TxnResponse\<close>

definition new_TxnResponse :: PbTxnResponse where
  "new_TxnResponse = \<lparr>ts_Header = None, ts_Succeeded = False, ts_Responses = [], ts_unknownFields = []\<rparr>"

definition TxnResponse_SizeVT :: "protohelpers \<Rightarrow> PbTxnResponse option \<Rightarrow> nat" where
  "TxnResponse_SizeVT H m = (case m of None \<Rightarrow> 0 | Some m \<Rightarrow>
     size_msg_field H (ResponseHeader_SizeVT H) (ts_Header m) + size_bool_field (ts_Succeeded m) +
     size_msgs_field H (\<lambda>x. ResponseOp_SizeVT H (Some x)) (ts_Responses m) + length (ts_unknownFields m))"

definition TxnResponse_MarshalToSizedBufferVT ::
  "protohelpers \<Rightarrow> PbTxnResponse option \<Rightarrow> bytes \<Rightarrow> (int \<times> bytes) go" where
  "TxnResponse_MarshalToSizedBufferVT H m d = (case m of None \<Rightarrow> Ret (0, d) | Some m \<Rightarrow>
     marshal_sized [
       copy_at (ts_unknownFields m),
       put_msgs_field H 0x1A (\<lambda>x. ResponseOp_MarshalToSizedBufferVT H (Some x)) (ts_Responses m),
       put_bool_field 0x10 (ts_Succeeded m),
       put_msg_field H 0x0A (ResponseHeader_MarshalToSizedBufferVT H) (ts_Header m)] d)"

definition TxnResponse_MarshalVT :: "protohelpers \<Rightarrow> PbTxnResponse option \<Rightarrow> slice go" where
  "TxnResponse_MarshalVT H = marshal_vt (TxnResponse_SizeVT H) (TxnResponse_MarshalToSizedBufferVT H)"

definition TxnResponse_field ::
  "protohelpers \<Rightarrow> nat \<Rightarrow> (nat \<Rightarrow> bytes \<Rightarrow> nat \<Rightarrow> PbTxnResponse \<Rightarrow> PbTxnResponse field_result) option" where
  "TxnResponse_field H n =
    (if n = 1 then Some (field_msg ''Header'' (\<lambda>m. case ts_Header m of None \<Rightarrow> new_ResponseHeader | Some x \<Rightarrow> x)
         (\<lambda>x. ts_Header_update (\<lambda>_. Some x)) (ResponseHeader_UnmarshalVT H))
     else if n = 2 then Some (field_bool ''Succeeded'' (\<lambda>v. ts_Succeeded_update (\<lambda>_. v)))
     else if n = 3 then Some (field_msg ''Responses'' (\<lambda>m. new_ResponseOp)
         (\<lambda>x. ts_Responses_update (\<lambda>xs. xs @ [x])) (ResponseOp_UnmarshalVT H))
     else None)"

definition TxnResponse_UnmarshalVT ::
  "protohelpers \<Rightarrow> PbTxnResponse \<Rightarrow> bytes \<Rightarrow> (wire_error option go \<times> PbTxnResponse) option" where
  "TxnResponse_UnmarshalVT H m d = decode_loop H ''TxnResponse'' (TxnResponse_field H)
     (\<lambda>bs. ts_unknownFields_update (\<lambda>us. us @ bs)) d 0 m"


section \<open>RequestOp: the encoding\<close>

definition wire_RequestOp_Request :: "RequestOp_Request \<Rightarrow> bytes" where
  "wire_RequestOp_Request r = (case r of
     RequestOp_RequestRange x \<Rightarrow> wire_len 0x0A (wire_RequestOp_Range x)
   | RequestOp_RequestPut x \<Rightarrow> wire_len 0x12 (wire_RequestOp_Put x)
   | RequestOp_RequestDeleteRange x \<Rightarrow> wire_len 0x1A (wire_RequestOp_DeleteRange x))"

definition wire_RequestOp :: "RequestOp \<Rightarrow> bytes" where
  "wire_RequestOp m = concat [case ro_Request m of None \<Rightarrow> [] | Some r \<Rightarrow> wire_RequestOp_Request r] @ ro_unknownFields m"

definition merge_RequestOp_Request :: "RequestOp_Request option \<Rightarrow> RequestOp_Request option \<Rightarrow> RequestOp_Request option" where
  "merge_RequestOp_Request r r0 = (case r of None \<Rightarrow> r0
   | Some r \<Rightarrow> Some (case r of
     RequestOp_RequestRange x \<Rightarrow> RequestOp_RequestRange (merge_RequestOp_Range x (case r0 of Some (RequestOp_RequestRange y) \<Rightarrow> y | _ \<Rightarrow> new_RequestOp_Range))
   | RequestOp_RequestPut x \<Rightarrow> RequestOp_RequestPut (merge_RequestOp_Put x (case r0 of Some (RequestOp_RequestPut y) \<Rightarrow> y | _ \<Rightarrow> new_RequestOp_Put))
   | RequestOp_RequestDeleteRange x \<Rightarrow> RequestOp_RequestDeleteRange (merge_RequestOp_DeleteRange x (case r0 of Some (RequestOp_RequestDeleteRange y) \<Rightarrow> y | _ \<Rightarrow> new_RequestOp_DeleteRange))))"

definition merge_RequestOp :: "RequestOp \<Rightarrow> RequestOp \<Rightarrow> RequestOp" where
  "merge_RequestOp m m0 = m0\<lparr>ro_Request := merge_RequestOp_Request (ro_Request m) (ro_Request m0),
     ro_unknownFields := ro_unknownFields m0 @ ro_unknownFields m\<rparr>"

definition RequestOp_ok :: "protohelpers \<Rightarrow> RequestOp \<Rightarrow> bool" where
  "RequestOp_ok H m \<longleftrightarrow> unknown_bytes H (RequestOp_field H) (ro_unknownFields m) \<and>
     (case ro_Request m of None \<Rightarrow> True | Some r \<Rightarrow> (case r of
     RequestOp_RequestRange x \<Rightarrow> RequestOp_Range_ok H x
   | RequestOp_RequestPut x \<Rightarrow> RequestOp_Put_ok H x
   | RequestOp_RequestDeleteRange x \<Rightarrow> RequestOp_DeleteRange_ok H x))"

definition normal_RequestOp :: "RequestOp \<Rightarrow> bool" where
  "normal_RequestOp m \<longleftrightarrow> (case ro_Request m of None \<Rightarrow> True | Some r \<Rightarrow> (case r of
     RequestOp_RequestRange x \<Rightarrow> normal_RequestOp_Range x
   | RequestOp_RequestPut x \<Rightarrow> normal_RequestOp_Put x
   | RequestOp_RequestDeleteRange x \<Rightarrow> normal_RequestOp_DeleteRange x))"

lemma new_RequestOp_merge: "normal_RequestOp m \<Longrightarrow> merge_RequestOp m new_RequestOp = m"
  by (cases m) (auto simp: merge_RequestOp_def merge_RequestOp_Request_def new_RequestOp_def normal_RequestOp_def
      new_RequestOp_Range_merge new_RequestOp_Put_merge new_RequestOp_DeleteRange_merge split: option.split RequestOp_Request.split)

lemma RequestOp_Request_marshals:
  assumes "helpers_ok H"
  shows "marshals (RequestOp_Request_MarshalToSizedBufferVT H r) (wire_RequestOp_Request r)"
  by (cases r; simp add: RequestOp_Request_MarshalToSizedBufferVT_def wire_RequestOp_Request_def;
      rule marshals_fields, (rule list.rel_intros prepends_intros assms
        RequestOp_Range_marshals RequestOp_Put_marshals RequestOp_DeleteRange_marshals)+; simp add: wire_msg_def wire_opt_def)

lemma RequestOp_marshals:
  assumes "helpers_ok H"
  shows "marshals (RequestOp_MarshalToSizedBufferVT H m) (wire_opt wire_RequestOp m)"
proof (cases m)
  case None
  then show ?thesis by (simp add: RequestOp_MarshalToSizedBufferVT_def [abs_def] wire_opt_def marshals_nil)
next
  case (Some x)
  then show ?thesis
    by (simp add: RequestOp_MarshalToSizedBufferVT_def [abs_def] wire_opt_def wire_RequestOp_def)
      (rule marshals_fields, (rule list.rel_intros prepends_intros RequestOp_Request_marshals [OF assms])+, simp)
qed

lemma RequestOp_SizeVT:
  assumes "helpers_ok H"
  shows "RequestOp_SizeVT H m = length (wire_opt wire_RequestOp m)"
proof -
  have "RequestOp_Request_SizeVT H r = length (wire_RequestOp_Request r)" for r
    using assms by (cases r) (simp_all add: RequestOp_Request_SizeVT_def wire_RequestOp_Request_def wire_len_def size_len_def
      wire_opt_def helpers_ok_def RequestOp_Range_SizeVT [OF assms] RequestOp_Put_SizeVT [OF assms] RequestOp_DeleteRange_SizeVT [OF assms])
  then show ?thesis
    by (cases m) (auto simp: RequestOp_SizeVT_def wire_opt_def wire_RequestOp_def size_oneof_def split: option.split)
qed

lemma RequestOp_marshalled: "helpers_ok H \<Longrightarrow> RequestOp_MarshalVT H (Some m) = Ret (Some (wire_RequestOp m))"
  using marshal_vt_writes [of "RequestOp_MarshalToSizedBufferVT H" m _ "RequestOp_SizeVT H", OF RequestOp_marshals]
    RequestOp_SizeVT [of H "Some m"]
  by (simp add: RequestOp_MarshalVT_def wire_opt_def)

lemma RequestOp_fields:
  "RequestOp_field H 1 = Some (field_oneof ''RequestRange''
     (\<lambda>m. case ro_Request m of Some (RequestOp_RequestRange x) \<Rightarrow> Some x | _ \<Rightarrow> None) new_RequestOp_Range
     (\<lambda>x. ro_Request_update (\<lambda>_. Some (RequestOp_RequestRange x))) (RequestOp_Range_UnmarshalVT H))"
  "RequestOp_field H 2 = Some (field_oneof ''RequestPut''
     (\<lambda>m. case ro_Request m of Some (RequestOp_RequestPut x) \<Rightarrow> Some x | _ \<Rightarrow> None) new_RequestOp_Put
     (\<lambda>x. ro_Request_update (\<lambda>_. Some (RequestOp_RequestPut x))) (RequestOp_Put_UnmarshalVT H))"
  "RequestOp_field H 3 = Some (field_oneof ''RequestDeleteRange''
     (\<lambda>m. case ro_Request m of Some (RequestOp_RequestDeleteRange x) \<Rightarrow> Some x | _ \<Rightarrow> None) new_RequestOp_DeleteRange
     (\<lambda>x. ro_Request_update (\<lambda>_. Some (RequestOp_RequestDeleteRange x))) (RequestOp_DeleteRange_UnmarshalVT H))"
  by (simp_all add: RequestOp_field_def)

lemma RequestOp_Request_reads:
  fixes H d
  defines "loop \<equiv> \<lambda>add. decode_loop H ''RequestOp'' (RequestOp_field H) add d"
  assumes "RequestOp_ok H m" and "length (wire_RequestOp m) < 2 ^ 63" and "length d < 2 ^ 63"
  shows "reads (loop add) d (case ro_Request m of None \<Rightarrow> [] | Some r \<Rightarrow> wire_RequestOp_Request r)
    (\<lambda>m0. m0\<lparr>ro_Request := merge_RequestOp_Request (ro_Request m) (ro_Request m0)\<rparr>)"
proof (cases "ro_Request m")
  case None
  then show ?thesis using reads_Nil by (simp add: merge_RequestOp_Request_def)
next
  case (Some r)
  show ?thesis
  proof (cases r)
    case (RequestOp_RequestRange x)
    with Some assms have x: "RequestOp_Range_UnmarshalVT H m1 (wire_RequestOp_Range x) = Some (Ret None, merge_RequestOp_Range x m1)" for m1
      by (intro RequestOp_Range_unmarshal) (auto simp: RequestOp_ok_def wire_RequestOp_def wire_RequestOp_Request_def wire_len_def)
    have "reads (loop add) d (wire_len 0x0A (wire_RequestOp_Range x)) (\<lambda>m0. m0\<lparr>ro_Request :=
        Some (RequestOp_RequestRange (merge_RequestOp_Range x (case (case ro_Request m0 of Some (RequestOp_RequestRange y) \<Rightarrow> Some y | _ \<Rightarrow> None) of
          None \<Rightarrow> new_RequestOp_Range | Some y \<Rightarrow> y)))\<rparr>)"
      unfolding loop_def
      by (rule reads_oneof [where field = "RequestOp_field H" and bs = "wire_RequestOp_Range x" and x = "merge_RequestOp_Range x", OF _ RequestOp_fields(1) assms(4) x]) (rule tags_of)
    moreover have "(case (case z of Some (RequestOp_RequestRange y) \<Rightarrow> Some y | _ \<Rightarrow> None) of None \<Rightarrow> new_RequestOp_Range | Some y \<Rightarrow> y) =
        (case z of Some (RequestOp_RequestRange y) \<Rightarrow> y | _ \<Rightarrow> new_RequestOp_Range)" for z
      by (auto split: option.split RequestOp_Request.split)
    ultimately show ?thesis using Some RequestOp_RequestRange by (simp add: merge_RequestOp_Request_def wire_RequestOp_Request_def)
  next
    case (RequestOp_RequestPut x)
    with Some assms have x: "RequestOp_Put_UnmarshalVT H m1 (wire_RequestOp_Put x) = Some (Ret None, merge_RequestOp_Put x m1)" for m1
      by (intro RequestOp_Put_unmarshal) (auto simp: RequestOp_ok_def wire_RequestOp_def wire_RequestOp_Request_def wire_len_def)
    have "reads (loop add) d (wire_len 0x12 (wire_RequestOp_Put x)) (\<lambda>m0. m0\<lparr>ro_Request :=
        Some (RequestOp_RequestPut (merge_RequestOp_Put x (case (case ro_Request m0 of Some (RequestOp_RequestPut y) \<Rightarrow> Some y | _ \<Rightarrow> None) of
          None \<Rightarrow> new_RequestOp_Put | Some y \<Rightarrow> y)))\<rparr>)"
      unfolding loop_def
      by (rule reads_oneof [where field = "RequestOp_field H" and bs = "wire_RequestOp_Put x" and x = "merge_RequestOp_Put x", OF _ RequestOp_fields(2) assms(4) x]) (rule tags_of)
    moreover have "(case (case z of Some (RequestOp_RequestPut y) \<Rightarrow> Some y | _ \<Rightarrow> None) of None \<Rightarrow> new_RequestOp_Put | Some y \<Rightarrow> y) =
        (case z of Some (RequestOp_RequestPut y) \<Rightarrow> y | _ \<Rightarrow> new_RequestOp_Put)" for z
      by (auto split: option.split RequestOp_Request.split)
    ultimately show ?thesis using Some RequestOp_RequestPut by (simp add: merge_RequestOp_Request_def wire_RequestOp_Request_def)
  next
    case (RequestOp_RequestDeleteRange x)
    with Some assms have x: "RequestOp_DeleteRange_UnmarshalVT H m1 (wire_RequestOp_DeleteRange x) = Some (Ret None, merge_RequestOp_DeleteRange x m1)" for m1
      by (intro RequestOp_DeleteRange_unmarshal) (auto simp: RequestOp_ok_def wire_RequestOp_def wire_RequestOp_Request_def wire_len_def)
    have "reads (loop add) d (wire_len 0x1A (wire_RequestOp_DeleteRange x)) (\<lambda>m0. m0\<lparr>ro_Request :=
        Some (RequestOp_RequestDeleteRange (merge_RequestOp_DeleteRange x (case (case ro_Request m0 of Some (RequestOp_RequestDeleteRange y) \<Rightarrow> Some y | _ \<Rightarrow> None) of
          None \<Rightarrow> new_RequestOp_DeleteRange | Some y \<Rightarrow> y)))\<rparr>)"
      unfolding loop_def
      by (rule reads_oneof [where field = "RequestOp_field H" and bs = "wire_RequestOp_DeleteRange x" and x = "merge_RequestOp_DeleteRange x", OF _ RequestOp_fields(3) assms(4) x]) (rule tags_of)
    moreover have "(case (case z of Some (RequestOp_RequestDeleteRange y) \<Rightarrow> Some y | _ \<Rightarrow> None) of None \<Rightarrow> new_RequestOp_DeleteRange | Some y \<Rightarrow> y) =
        (case z of Some (RequestOp_RequestDeleteRange y) \<Rightarrow> y | _ \<Rightarrow> new_RequestOp_DeleteRange)" for z
      by (auto split: option.split RequestOp_Request.split)
    ultimately show ?thesis using Some RequestOp_RequestDeleteRange by (simp add: merge_RequestOp_Request_def wire_RequestOp_Request_def)
  qed
qed

lemma RequestOp_unmarshal:
  assumes "RequestOp_ok H m" and "length (wire_RequestOp m) < 2 ^ 63"
  shows "RequestOp_UnmarshalVT H m0 (wire_RequestOp m) = Some (Ret None, merge_RequestOp m m0)"
proof -
  have unknown: "unknown_bytes H (RequestOp_field H) (ro_unknownFields m)" using assms(1) by (simp add: RequestOp_ok_def)
  show ?thesis unfolding RequestOp_UnmarshalVT_def
    by (rule unmarshal_merge [OF _ _ _ _ wire_RequestOp_def unknown assms(2)],
        ((rule list.rel_intros RequestOp_Request_reads [OF assms assms(2)] | (simp; fail))+)[3])
      (simp add: merge_RequestOp_def)
qed

lemma RequestOp_returns:
  assumes "helpers_ok H" and "length d < 2 ^ 63"
  shows "\<exists>e m1. RequestOp_UnmarshalVT H m d = Some (Ret e, m1)"
  unfolding RequestOp_UnmarshalVT_def
proof (rule decode_returns [OF assms])
  fix n f
  assume "RequestOp_field H n = Some f"
  then show "field_returns d f" using assms(2)
    by (auto simp: RequestOp_field_def split: if_splits intro!: returns_intros
        RequestOp_Range_returns [OF assms(1)] RequestOp_Put_returns [OF assms(1)] RequestOp_DeleteRange_returns [OF assms(1)])
qed simp

section \<open>ResponseOp: the encoding\<close>

definition wire_ResponseOp_Response :: "ResponseOp_Response \<Rightarrow> bytes" where
  "wire_ResponseOp_Response r = (case r of
     ResponseOp_ResponseRange x \<Rightarrow> wire_len 0x0A (wire_ResponseOp_Range x)
   | ResponseOp_ResponsePut x \<Rightarrow> wire_len 0x12 (wire_ResponseOp_Put x)
   | ResponseOp_ResponseDeleteRange x \<Rightarrow> wire_len 0x1A (wire_ResponseOp_DeleteRange x))"

definition wire_ResponseOp :: "PbResponseOp \<Rightarrow> bytes" where
  "wire_ResponseOp m = concat [case so_Response m of None \<Rightarrow> [] | Some r \<Rightarrow> wire_ResponseOp_Response r] @ so_unknownFields m"

definition merge_ResponseOp_Response :: "ResponseOp_Response option \<Rightarrow> ResponseOp_Response option \<Rightarrow> ResponseOp_Response option" where
  "merge_ResponseOp_Response r r0 = (case r of None \<Rightarrow> r0
   | Some r \<Rightarrow> Some (case r of
     ResponseOp_ResponseRange x \<Rightarrow> ResponseOp_ResponseRange (merge_ResponseOp_Range x (case r0 of Some (ResponseOp_ResponseRange y) \<Rightarrow> y | _ \<Rightarrow> new_ResponseOp_Range))
   | ResponseOp_ResponsePut x \<Rightarrow> ResponseOp_ResponsePut (merge_ResponseOp_Put x (case r0 of Some (ResponseOp_ResponsePut y) \<Rightarrow> y | _ \<Rightarrow> new_ResponseOp_Put))
   | ResponseOp_ResponseDeleteRange x \<Rightarrow> ResponseOp_ResponseDeleteRange (merge_ResponseOp_DeleteRange x (case r0 of Some (ResponseOp_ResponseDeleteRange y) \<Rightarrow> y | _ \<Rightarrow> new_ResponseOp_DeleteRange))))"

definition merge_ResponseOp :: "PbResponseOp \<Rightarrow> PbResponseOp \<Rightarrow> PbResponseOp" where
  "merge_ResponseOp m m0 = m0\<lparr>so_Response := merge_ResponseOp_Response (so_Response m) (so_Response m0),
     so_unknownFields := so_unknownFields m0 @ so_unknownFields m\<rparr>"

definition ResponseOp_ok :: "protohelpers \<Rightarrow> PbResponseOp \<Rightarrow> bool" where
  "ResponseOp_ok H m \<longleftrightarrow> unknown_bytes H (ResponseOp_field H) (so_unknownFields m) \<and>
     (case so_Response m of None \<Rightarrow> True | Some r \<Rightarrow> (case r of
     ResponseOp_ResponseRange x \<Rightarrow> ResponseOp_Range_ok H x
   | ResponseOp_ResponsePut x \<Rightarrow> ResponseOp_Put_ok H x
   | ResponseOp_ResponseDeleteRange x \<Rightarrow> ResponseOp_DeleteRange_ok H x))"

definition normal_ResponseOp :: "PbResponseOp \<Rightarrow> bool" where
  "normal_ResponseOp m \<longleftrightarrow> (case so_Response m of None \<Rightarrow> True | Some r \<Rightarrow> (case r of
     ResponseOp_ResponseRange x \<Rightarrow> normal_ResponseOp_Range x
   | ResponseOp_ResponsePut x \<Rightarrow> normal_ResponseOp_Put x
   | ResponseOp_ResponseDeleteRange x \<Rightarrow> normal_ResponseOp_DeleteRange x))"

lemma new_ResponseOp_merge: "normal_ResponseOp m \<Longrightarrow> merge_ResponseOp m new_ResponseOp = m"
  by (cases m) (auto simp: merge_ResponseOp_def merge_ResponseOp_Response_def new_ResponseOp_def normal_ResponseOp_def
      new_ResponseOp_Range_merge new_ResponseOp_Put_merge new_ResponseOp_DeleteRange_merge split: option.split ResponseOp_Response.split)

lemma ResponseOp_Response_marshals:
  assumes "helpers_ok H"
  shows "marshals (ResponseOp_Response_MarshalToSizedBufferVT H r) (wire_ResponseOp_Response r)"
  by (cases r; simp add: ResponseOp_Response_MarshalToSizedBufferVT_def wire_ResponseOp_Response_def;
      rule marshals_fields, (rule list.rel_intros prepends_intros assms
        ResponseOp_Range_marshals ResponseOp_Put_marshals ResponseOp_DeleteRange_marshals)+; simp add: wire_msg_def wire_opt_def)

lemma ResponseOp_marshals:
  assumes "helpers_ok H"
  shows "marshals (ResponseOp_MarshalToSizedBufferVT H m) (wire_opt wire_ResponseOp m)"
proof (cases m)
  case None
  then show ?thesis by (simp add: ResponseOp_MarshalToSizedBufferVT_def [abs_def] wire_opt_def marshals_nil)
next
  case (Some x)
  then show ?thesis
    by (simp add: ResponseOp_MarshalToSizedBufferVT_def [abs_def] wire_opt_def wire_ResponseOp_def)
      (rule marshals_fields, (rule list.rel_intros prepends_intros ResponseOp_Response_marshals [OF assms])+, simp)
qed

lemma ResponseOp_SizeVT:
  assumes "helpers_ok H"
  shows "ResponseOp_SizeVT H m = length (wire_opt wire_ResponseOp m)"
proof -
  have "ResponseOp_Response_SizeVT H r = length (wire_ResponseOp_Response r)" for r
    using assms by (cases r) (simp_all add: ResponseOp_Response_SizeVT_def wire_ResponseOp_Response_def wire_len_def size_len_def
      wire_opt_def helpers_ok_def ResponseOp_Range_SizeVT [OF assms] ResponseOp_Put_SizeVT [OF assms] ResponseOp_DeleteRange_SizeVT [OF assms])
  then show ?thesis
    by (cases m) (auto simp: ResponseOp_SizeVT_def wire_opt_def wire_ResponseOp_def size_oneof_def split: option.split)
qed

lemma ResponseOp_marshalled: "helpers_ok H \<Longrightarrow> ResponseOp_MarshalVT H (Some m) = Ret (Some (wire_ResponseOp m))"
  using marshal_vt_writes [of "ResponseOp_MarshalToSizedBufferVT H" m _ "ResponseOp_SizeVT H", OF ResponseOp_marshals]
    ResponseOp_SizeVT [of H "Some m"]
  by (simp add: ResponseOp_MarshalVT_def wire_opt_def)

lemma ResponseOp_fields:
  "ResponseOp_field H 1 = Some (field_oneof ''ResponseRange''
     (\<lambda>m. case so_Response m of Some (ResponseOp_ResponseRange x) \<Rightarrow> Some x | _ \<Rightarrow> None) new_ResponseOp_Range
     (\<lambda>x. so_Response_update (\<lambda>_. Some (ResponseOp_ResponseRange x))) (ResponseOp_Range_UnmarshalVT H))"
  "ResponseOp_field H 2 = Some (field_oneof ''ResponsePut''
     (\<lambda>m. case so_Response m of Some (ResponseOp_ResponsePut x) \<Rightarrow> Some x | _ \<Rightarrow> None) new_ResponseOp_Put
     (\<lambda>x. so_Response_update (\<lambda>_. Some (ResponseOp_ResponsePut x))) (ResponseOp_Put_UnmarshalVT H))"
  "ResponseOp_field H 3 = Some (field_oneof ''ResponseDeleteRange''
     (\<lambda>m. case so_Response m of Some (ResponseOp_ResponseDeleteRange x) \<Rightarrow> Some x | _ \<Rightarrow> None) new_ResponseOp_DeleteRange
     (\<lambda>x. so_Response_update (\<lambda>_. Some (ResponseOp_ResponseDeleteRange x))) (ResponseOp_DeleteRange_UnmarshalVT H))"
  by (simp_all add: ResponseOp_field_def)

lemma ResponseOp_Response_reads:
  fixes H d
  defines "loop \<equiv> \<lambda>add. decode_loop H ''ResponseOp'' (ResponseOp_field H) add d"
  assumes "ResponseOp_ok H m" and "length (wire_ResponseOp m) < 2 ^ 63" and "length d < 2 ^ 63"
  shows "reads (loop add) d (case so_Response m of None \<Rightarrow> [] | Some r \<Rightarrow> wire_ResponseOp_Response r)
    (\<lambda>m0. m0\<lparr>so_Response := merge_ResponseOp_Response (so_Response m) (so_Response m0)\<rparr>)"
proof (cases "so_Response m")
  case None
  then show ?thesis using reads_Nil by (simp add: merge_ResponseOp_Response_def)
next
  case (Some r)
  show ?thesis
  proof (cases r)
    case (ResponseOp_ResponseRange x)
    with Some assms have x: "ResponseOp_Range_UnmarshalVT H m1 (wire_ResponseOp_Range x) = Some (Ret None, merge_ResponseOp_Range x m1)" for m1
      by (intro ResponseOp_Range_unmarshal) (auto simp: ResponseOp_ok_def wire_ResponseOp_def wire_ResponseOp_Response_def wire_len_def)
    have "reads (loop add) d (wire_len 0x0A (wire_ResponseOp_Range x)) (\<lambda>m0. m0\<lparr>so_Response :=
        Some (ResponseOp_ResponseRange (merge_ResponseOp_Range x (case (case so_Response m0 of Some (ResponseOp_ResponseRange y) \<Rightarrow> Some y | _ \<Rightarrow> None) of
          None \<Rightarrow> new_ResponseOp_Range | Some y \<Rightarrow> y)))\<rparr>)"
      unfolding loop_def
      by (rule reads_oneof [where field = "ResponseOp_field H" and bs = "wire_ResponseOp_Range x" and x = "merge_ResponseOp_Range x", OF _ ResponseOp_fields(1) assms(4) x]) (rule tags_of)
    moreover have "(case (case z of Some (ResponseOp_ResponseRange y) \<Rightarrow> Some y | _ \<Rightarrow> None) of None \<Rightarrow> new_ResponseOp_Range | Some y \<Rightarrow> y) =
        (case z of Some (ResponseOp_ResponseRange y) \<Rightarrow> y | _ \<Rightarrow> new_ResponseOp_Range)" for z
      by (auto split: option.split ResponseOp_Response.split)
    ultimately show ?thesis using Some ResponseOp_ResponseRange by (simp add: merge_ResponseOp_Response_def wire_ResponseOp_Response_def)
  next
    case (ResponseOp_ResponsePut x)
    with Some assms have x: "ResponseOp_Put_UnmarshalVT H m1 (wire_ResponseOp_Put x) = Some (Ret None, merge_ResponseOp_Put x m1)" for m1
      by (intro ResponseOp_Put_unmarshal) (auto simp: ResponseOp_ok_def wire_ResponseOp_def wire_ResponseOp_Response_def wire_len_def)
    have "reads (loop add) d (wire_len 0x12 (wire_ResponseOp_Put x)) (\<lambda>m0. m0\<lparr>so_Response :=
        Some (ResponseOp_ResponsePut (merge_ResponseOp_Put x (case (case so_Response m0 of Some (ResponseOp_ResponsePut y) \<Rightarrow> Some y | _ \<Rightarrow> None) of
          None \<Rightarrow> new_ResponseOp_Put | Some y \<Rightarrow> y)))\<rparr>)"
      unfolding loop_def
      by (rule reads_oneof [where field = "ResponseOp_field H" and bs = "wire_ResponseOp_Put x" and x = "merge_ResponseOp_Put x", OF _ ResponseOp_fields(2) assms(4) x]) (rule tags_of)
    moreover have "(case (case z of Some (ResponseOp_ResponsePut y) \<Rightarrow> Some y | _ \<Rightarrow> None) of None \<Rightarrow> new_ResponseOp_Put | Some y \<Rightarrow> y) =
        (case z of Some (ResponseOp_ResponsePut y) \<Rightarrow> y | _ \<Rightarrow> new_ResponseOp_Put)" for z
      by (auto split: option.split ResponseOp_Response.split)
    ultimately show ?thesis using Some ResponseOp_ResponsePut by (simp add: merge_ResponseOp_Response_def wire_ResponseOp_Response_def)
  next
    case (ResponseOp_ResponseDeleteRange x)
    with Some assms have x: "ResponseOp_DeleteRange_UnmarshalVT H m1 (wire_ResponseOp_DeleteRange x) = Some (Ret None, merge_ResponseOp_DeleteRange x m1)" for m1
      by (intro ResponseOp_DeleteRange_unmarshal) (auto simp: ResponseOp_ok_def wire_ResponseOp_def wire_ResponseOp_Response_def wire_len_def)
    have "reads (loop add) d (wire_len 0x1A (wire_ResponseOp_DeleteRange x)) (\<lambda>m0. m0\<lparr>so_Response :=
        Some (ResponseOp_ResponseDeleteRange (merge_ResponseOp_DeleteRange x (case (case so_Response m0 of Some (ResponseOp_ResponseDeleteRange y) \<Rightarrow> Some y | _ \<Rightarrow> None) of
          None \<Rightarrow> new_ResponseOp_DeleteRange | Some y \<Rightarrow> y)))\<rparr>)"
      unfolding loop_def
      by (rule reads_oneof [where field = "ResponseOp_field H" and bs = "wire_ResponseOp_DeleteRange x" and x = "merge_ResponseOp_DeleteRange x", OF _ ResponseOp_fields(3) assms(4) x]) (rule tags_of)
    moreover have "(case (case z of Some (ResponseOp_ResponseDeleteRange y) \<Rightarrow> Some y | _ \<Rightarrow> None) of None \<Rightarrow> new_ResponseOp_DeleteRange | Some y \<Rightarrow> y) =
        (case z of Some (ResponseOp_ResponseDeleteRange y) \<Rightarrow> y | _ \<Rightarrow> new_ResponseOp_DeleteRange)" for z
      by (auto split: option.split ResponseOp_Response.split)
    ultimately show ?thesis using Some ResponseOp_ResponseDeleteRange by (simp add: merge_ResponseOp_Response_def wire_ResponseOp_Response_def)
  qed
qed

lemma ResponseOp_unmarshal:
  assumes "ResponseOp_ok H m" and "length (wire_ResponseOp m) < 2 ^ 63"
  shows "ResponseOp_UnmarshalVT H m0 (wire_ResponseOp m) = Some (Ret None, merge_ResponseOp m m0)"
proof -
  have unknown: "unknown_bytes H (ResponseOp_field H) (so_unknownFields m)" using assms(1) by (simp add: ResponseOp_ok_def)
  show ?thesis unfolding ResponseOp_UnmarshalVT_def
    by (rule unmarshal_merge [OF _ _ _ _ wire_ResponseOp_def unknown assms(2)],
        ((rule list.rel_intros ResponseOp_Response_reads [OF assms assms(2)] | (simp; fail))+)[3])
      (simp add: merge_ResponseOp_def)
qed

lemma ResponseOp_returns:
  assumes "helpers_ok H" and "length d < 2 ^ 63"
  shows "\<exists>e m1. ResponseOp_UnmarshalVT H m d = Some (Ret e, m1)"
  unfolding ResponseOp_UnmarshalVT_def
proof (rule decode_returns [OF assms])
  fix n f
  assume "ResponseOp_field H n = Some f"
  then show "field_returns d f" using assms(2)
    by (auto simp: ResponseOp_field_def split: if_splits intro!: returns_intros
        ResponseOp_Range_returns [OF assms(1)] ResponseOp_Put_returns [OF assms(1)] ResponseOp_DeleteRange_returns [OF assms(1)])
qed simp

section \<open>Compare: the encoding\<close>

definition wire_Compare :: "PbCompare \<Rightarrow> bytes" where
  "wire_Compare m = concat [
     wire_enum 0x08 (pc_Result m), wire_enum 0x10 (pc_Target m), wire_bytes 0x1A (pc_Key m),
     wire_bytes2 0x82 0x04 (pc_RangeEnd m),
     case pc_TargetUnion m of None \<Rightarrow> [] | Some r \<Rightarrow> wire_len 0x22 (slice_bytes (cmp_value r))] @
     pc_unknownFields m"

definition merge_Compare_Value ::
  "Compare_TargetUnion option \<Rightarrow> Compare_TargetUnion option \<Rightarrow> Compare_TargetUnion option" where
  "merge_Compare_Value r r0 = (case r of None \<Rightarrow> r0
     | Some r \<Rightarrow> Some (Compare_Value (Some (slice_bytes (cmp_value r)))))"

definition merge_Compare :: "PbCompare \<Rightarrow> PbCompare \<Rightarrow> PbCompare" where
  "merge_Compare m m0 = m0\<lparr>
     pc_Result := if pc_Result m = 0 then pc_Result m0 else pc_Result m,
     pc_Target := if pc_Target m = 0 then pc_Target m0 else pc_Target m,
     pc_Key := if slice_bytes (pc_Key m) = [] then pc_Key m0 else wire_slice (pc_Key m),
     pc_TargetUnion := merge_Compare_Value (pc_TargetUnion m) (pc_TargetUnion m0),
     pc_RangeEnd := if slice_bytes (pc_RangeEnd m) = [] then pc_RangeEnd m0 else wire_slice (pc_RangeEnd m),
     pc_unknownFields := pc_unknownFields m0 @ pc_unknownFields m\<rparr>"

definition Compare_ok :: "protohelpers \<Rightarrow> PbCompare \<Rightarrow> bool" where
  "Compare_ok H m \<longleftrightarrow> unknown_bytes H Compare_field (pc_unknownFields m)"

text \<open>A value, unlike a key, is written when it is empty, and is never nil when it arrives.\<close>

definition normal_Compare :: "PbCompare \<Rightarrow> bool" where
  "normal_Compare m \<longleftrightarrow> wire_slice (pc_Key m) = pc_Key m \<and> wire_slice (pc_RangeEnd m) = pc_RangeEnd m \<and>
     (case pc_TargetUnion m of None \<Rightarrow> True | Some r \<Rightarrow> cmp_value r \<noteq> None)"

lemma zero_Compare_merge:
  assumes "normal_Compare m"
  shows "merge_Compare m zero_Compare = m"
proof -
  have "merge_Compare_Value (pc_TargetUnion m) None = pc_TargetUnion m"
    using assms by (auto simp: merge_Compare_Value_def normal_Compare_def split: option.splits
        intro: Compare_TargetUnion.expand)
  with assms show ?thesis
    by (cases m) (auto simp: merge_Compare_def zero_Compare_def normal_Compare_def normal_slice)
qed

lemma Compare_Value_marshals:
  assumes "helpers_ok H"
  shows "marshals (Compare_Value_MarshalToSizedBufferVT H r) (wire_len 0x22 (slice_bytes (cmp_value r)))"
  unfolding Compare_Value_MarshalToSizedBufferVT_def
  by (rule marshals_fields, (rule list.rel_intros prepends_intros assms)+, simp)

lemma Compare_marshals:
  assumes "helpers_ok H"
  shows "marshals (Compare_MarshalToSizedBufferVT H m) (wire_opt wire_Compare m)"
proof (cases m)
  case None
  then show ?thesis by (simp add: Compare_MarshalToSizedBufferVT_def [abs_def] wire_opt_def marshals_nil)
next
  case (Some x)
  then show ?thesis
    by (simp add: Compare_MarshalToSizedBufferVT_def [abs_def] wire_opt_def wire_Compare_def)
      (rule marshals_fields,
        (rule list.rel_intros prepends_intros assms Compare_Value_marshals [OF assms])+, simp)
qed

lemma Compare_SizeVT:
  assumes "helpers_ok H"
  shows "Compare_SizeVT H m = length (wire_opt wire_Compare m)"
proof -
  have "Compare_Value_SizeVT H r = length (wire_len 0x22 (slice_bytes (cmp_value r)))" for r
    using assms by (simp add: Compare_Value_SizeVT_def size_len_def wire_len_def slice_len_def helpers_ok_def)
  then show ?thesis
    by (cases m) (auto simp: Compare_SizeVT_def wire_opt_def wire_Compare_def size_oneof_def
        size_fields [OF assms, symmetric]
        split: option.split)
qed

lemma Compare_fields [reads_intros]:
  "Compare_field 1 = Some (field_enum ''Result'' (\<lambda>v. pc_Result_update (\<lambda>_. v)))"
  "Compare_field 2 = Some (field_enum ''Target'' (\<lambda>v. pc_Target_update (\<lambda>_. v)))"
  "Compare_field 3 = Some (field_bytes ''Key'' (\<lambda>v. pc_Key_update (\<lambda>_. v)))"
  "Compare_field 4 = Some (field_bytes ''Value'' (\<lambda>v. pc_TargetUnion_update (\<lambda>_. Some (Compare_Value v))))"
  "Compare_field 64 = Some (field_bytes ''RangeEnd'' (\<lambda>v. pc_RangeEnd_update (\<lambda>_. v)))"
  by (simp_all add: Compare_field_def)

lemma Compare_Value_reads:
  assumes "length d < 2 ^ 63"
  shows "reads (decode_loop H name Compare_field add d) d
      (case r of None \<Rightarrow> [] | Some r \<Rightarrow> wire_len 0x22 (slice_bytes (cmp_value r)))
      (\<lambda>m. m\<lparr>pc_TargetUnion := merge_Compare_Value r (pc_TargetUnion m)\<rparr>)"
proof (cases r)
  case None
  then show ?thesis using reads_Nil by (simp add: merge_Compare_Value_def)
next
  case (Some x)
  then show ?thesis
    using reads_bytes_len [where field = Compare_field, OF _ Compare_fields(4) assms]
    by (simp add: tags_of merge_Compare_Value_def)
qed

lemma Compare_unmarshal:
  assumes "Compare_ok H m" and "length (wire_Compare m) < 2 ^ 63"
  shows "Compare_UnmarshalVT H m0 (wire_Compare m) = Some (Ret None, merge_Compare m m0)"
proof -
  have unknown: "unknown_bytes H Compare_field (pc_unknownFields m)" using assms(1) by (simp add: Compare_ok_def)
  show ?thesis unfolding Compare_UnmarshalVT_def
    by (rule unmarshal_merge [OF _ _ _ _ wire_Compare_def unknown assms(2)],
        ((rule list.rel_intros reads_intros assms(2) Compare_Value_reads | (simp; fail))+)[3],
        simp only: fold_simps, rule PbCompare.equality)
      (simp_all add: merge_Compare_def if_distrib [of pc_Result] if_distrib [of pc_Target]
        if_distrib [of pc_Key] if_distrib [of pc_TargetUnion] if_distrib [of pc_RangeEnd]
        if_distrib [of pc_unknownFields] if_distrib [of PbCompare.more])
qed

lemma Compare_returns:
  assumes "helpers_ok H" and "length d < 2 ^ 63"
  shows "\<exists>e m1. Compare_UnmarshalVT H m d = Some (Ret e, m1)"
  unfolding Compare_UnmarshalVT_def
proof (rule decode_returns [OF assms])
  fix n f
  assume "Compare_field n = Some f"
  then show "field_returns d f" using assms(2)
    by (auto simp: Compare_field_def split: if_splits intro!: returns_intros)
qed simp

section \<open>TxnRequest: the encoding\<close>

definition wire_TxnRequest :: "cmp_heap \<Rightarrow> TxnRequest \<Rightarrow> bytes" where
  "wire_TxnRequest h m = concat [
     wire_bytes 0x0A (tr_Table m),
     wire_msgs 0x12 (\<lambda>p. wire_opt wire_Compare (cmp_at h p)) (tr_Compare m),
     wire_msgs 0x1A wire_RequestOp (tr_Success m), wire_msgs 0x22 wire_RequestOp (tr_Failure m)] @
     tr_unknownFields m"

lemma list_marshals:
  "(\<And>m. marshals (f m) (wire_opt wire m)) \<Longrightarrow> marshals (f (Some x)) (wire x)"
  using wire_opt_def [of wire "Some x"] by (metis option.simps(5))

lemma TxnRequest_marshals:
  assumes "helpers_ok H"
  shows "marshals (TxnRequest_MarshalToSizedBufferVT H h m) (wire_opt (wire_TxnRequest h) m)"
proof (cases m)
  case None
  then show ?thesis by (simp add: TxnRequest_MarshalToSizedBufferVT_def [abs_def] wire_opt_def marshals_nil)
next
  case (Some x)
  note op = list_marshals [of "RequestOp_MarshalToSizedBufferVT H" wire_RequestOp, OF RequestOp_marshals [OF assms]]
  from Some show ?thesis
    by (simp add: TxnRequest_MarshalToSizedBufferVT_def [abs_def] wire_opt_def [of "wire_TxnRequest h"] wire_TxnRequest_def)
      (rule marshals_fields, (rule list.rel_intros prepends_intros assms op Compare_marshals)+, simp)
qed

lemma TxnRequest_SizeVT:
  assumes "helpers_ok H"
  shows "TxnRequest_SizeVT H h m = length (wire_opt (wire_TxnRequest h) m)"
  by (cases m) (simp_all add: TxnRequest_SizeVT_def wire_opt_def [of "wire_TxnRequest h"] wire_TxnRequest_def
      size_fields [OF assms, symmetric] wire_opt_def [of wire_RequestOp]
      size_msgs [OF assms, of _ "\<lambda>x. RequestOp_SizeVT H (Some x)" wire_RequestOp, symmetric] RequestOp_SizeVT [OF assms]
      size_msgs [OF assms, of _ "\<lambda>p. Compare_SizeVT H (cmp_at h p)", symmetric] Compare_SizeVT [OF assms])

lemma TxnRequest_marshalled:
  "helpers_ok H \<Longrightarrow> TxnRequest_MarshalVT H h (Some m) = Ret (Some (wire_TxnRequest h m))"
  using marshal_vt_writes [of "TxnRequest_MarshalToSizedBufferVT H h" m _ "TxnRequest_SizeVT H h", OF TxnRequest_marshals]
    TxnRequest_SizeVT [of H h "Some m"]
  by (simp add: TxnRequest_MarshalVT_def wire_opt_def)

text \<open>Unmarshalling a comparison into a new cell.\<close>

lemma Compare_elem:
  assumes "\<And>x. k = Some x \<Longrightarrow> Compare_ok H x" and "length (wire_opt wire_Compare k) < 2 ^ 63"
  shows "Compare_UnmarshalVT H zero_Compare (wire_opt wire_Compare k) =
    Some (Ret None, merge_elem merge_Compare zero_Compare k)"
proof (cases k)
  case None
  then show ?thesis by (simp add: wire_opt_def merge_elem_def Compare_UnmarshalVT_def decode_nothing)
next
  case (Some x)
  with assms show ?thesis by (simp add: wire_opt_def merge_elem_def Compare_unmarshal)
qed

fun alloc_Compares :: "PbCompare list \<Rightarrow> cmp_heap \<Rightarrow> cmp_heap" where
  "alloc_Compares [] h = h"
| "alloc_Compares (c # cs) h = alloc_Compares cs (snd (cmp_alloc c h))"

lemma append_Compares:
  "fold (\<lambda>k. append_Compare (x k)) ks (m, h) =
    (m\<lparr>tr_Compare := tr_Compare m @ map Some [next_cell h ..< next_cell h + length ks]\<rparr>,
     alloc_Compares (map x ks) h)"
  by (induction ks arbitrary: m h)
    (simp_all add: append_Compare_def cmp_alloc_def upt_conv_Cons del: upt_Suc)

lemma alloc_Compares_old: "a < next_cell h \<Longrightarrow> cells (alloc_Compares cs h) a = cells h a"
  by (induction cs arbitrary: h) (simp_all add: cmp_alloc_def)

lemma alloc_Compares_new: "i < length cs \<Longrightarrow> cells (alloc_Compares cs h) (next_cell h + i) = cs ! i"
proof (induction cs arbitrary: h i)
  case (Cons c cs)
  show ?case
  proof (cases i)
    case 0
    then show ?thesis using alloc_Compares_old [of "next_cell h" "snd (cmp_alloc c h)" cs]
      by (simp add: cmp_alloc_def)
  next
    case (Suc j)
    with Cons.IH [of j "snd (cmp_alloc c h)"] Cons.prems show ?thesis by (simp add: cmp_alloc_def)
  qed
qed simp

definition TxnRequest_ok :: "protohelpers \<Rightarrow> cmp_heap \<Rightarrow> TxnRequest \<Rightarrow> bool" where
  "TxnRequest_ok H h m \<longleftrightarrow> unknown_bytes H (TxnRequest_field H) (tr_unknownFields m) \<and>
     (\<forall>p \<in> set (tr_Compare m). \<forall>c. cmp_at h p = Some c \<longrightarrow> Compare_ok H c) \<and>
     (\<forall>x \<in> set (tr_Success m) \<union> set (tr_Failure m). RequestOp_ok H x)"

lemma TxnRequest_fields:
  "TxnRequest_field H 1 = Some (field_bytes ''Table'' (\<lambda>v. apfst (tr_Table_update (\<lambda>_. v))))"
  "TxnRequest_field H 2 = Some (field_msg ''Compare'' (\<lambda>st. zero_Compare) append_Compare (Compare_UnmarshalVT H))"
  "TxnRequest_field H 3 = Some (field_msg ''Success'' (\<lambda>st. new_RequestOp)
     (\<lambda>x. apfst (tr_Success_update (\<lambda>xs. xs @ [x]))) (RequestOp_UnmarshalVT H))"
  "TxnRequest_field H 4 = Some (field_msg ''Failure'' (\<lambda>st. new_RequestOp)
     (\<lambda>x. apfst (tr_Failure_update (\<lambda>xs. xs @ [x]))) (RequestOp_UnmarshalVT H))"
  by (simp_all add: TxnRequest_field_def)

text \<open>The request as it arrives, with pointers to new cells.\<close>

definition received_TxnRequest :: "cmp_heap \<Rightarrow> TxnRequest \<Rightarrow> cmp_heap \<Rightarrow> TxnRequest \<times> cmp_heap" where
  "received_TxnRequest h m h0 =
     (\<lparr>tr_Table = wire_slice (tr_Table m),
       tr_Compare = map Some [next_cell h0 ..< next_cell h0 + length (tr_Compare m)],
       tr_Success = map (\<lambda>x. merge_RequestOp x new_RequestOp) (tr_Success m),
       tr_Failure = map (\<lambda>x. merge_RequestOp x new_RequestOp) (tr_Failure m),
       tr_unknownFields = tr_unknownFields m\<rparr>,
      alloc_Compares (map (\<lambda>p. merge_elem merge_Compare zero_Compare (cmp_at h p)) (tr_Compare m)) h0)"

lemma TxnRequest_unmarshal:
  assumes "TxnRequest_ok H h m" and "length (wire_TxnRequest h m) < 2 ^ 63"
  shows "TxnRequest_UnmarshalVT H (new_TxnRequest, h0) (wire_TxnRequest h m) =
    Some (Ret None, received_TxnRequest h m h0)"
proof -
  let ?d = "wire_TxnRequest h m" and ?w = "\<lambda>p. wire_opt wire_Compare (cmp_at h p)"
  let ?loop = "decode_loop H ''TxnRequest'' (TxnRequest_field H)
    (\<lambda>bs. apfst (tr_unknownFields_update (\<lambda>us. us @ bs))) ?d"
  have unknown: "unknown_bytes H (TxnRequest_field H) (tr_unknownFields m)"
    using assms(1) by (simp add: TxnRequest_ok_def)
  have op: "RequestOp_UnmarshalVT H new_RequestOp (wire_RequestOp x) = Some (Ret None, merge_RequestOp x new_RequestOp)"
    if "x \<in> set xs" "length (wire_msgs t wire_RequestOp xs) < 2 ^ 63" "\<forall>x \<in> set xs. RequestOp_ok H x" for x xs t
    using nested_length(2) [OF that(1), of wire_RequestOp t] that by (intro RequestOp_unmarshal) auto
  have table: "reads ?loop ?d (wire_bytes 0x0A (tr_Table m)) (\<lambda>st.
      if slice_bytes (tr_Table m) = [] then st else apfst (tr_Table_update (\<lambda>_. wire_slice (tr_Table m))) st)"
    by (rule reads_bytes [where field = "TxnRequest_field H", OF _ TxnRequest_fields(1) assms(2)]) (rule tags_of)
  have "Compare_UnmarshalVT H zero_Compare (?w p) = Some (Ret None, merge_elem merge_Compare zero_Compare (cmp_at h p))"
    if "p \<in> set (tr_Compare m)" for p
    using nested_length(2) [OF that, of ?w "0x12"] that assms
    by (intro Compare_elem) (auto simp: TxnRequest_ok_def wire_TxnRequest_def)
  then have compare: "reads ?loop ?d (wire_msgs 0x12 ?w (tr_Compare m))
      (fold (\<lambda>p. append_Compare (merge_elem merge_Compare zero_Compare (cmp_at h p))) (tr_Compare m))"
    by (intro reads_msgs [where field = "TxnRequest_field H" and wire = ?w, OF _ TxnRequest_fields(2) assms(2)] tags_of)
  have success: "reads ?loop ?d (wire_msgs 0x1A wire_RequestOp (tr_Success m))
      (apfst (tr_Success_update (\<lambda>xs. xs @ map (\<lambda>x. merge_RequestOp x new_RequestOp) (tr_Success m))))"
    using assms by (intro reads_list [where field = "TxnRequest_field H" and upd = "\<lambda>f. apfst (tr_Success_update f)" and g = "\<lambda>x. x",
        OF _ TxnRequest_fields(3) assms(2)] tags_of op [where t = "0x1A"])
      (auto simp: TxnRequest_ok_def wire_TxnRequest_def apfst_compose comp_def)
  have failure: "reads ?loop ?d (wire_msgs 0x22 wire_RequestOp (tr_Failure m))
      (apfst (tr_Failure_update (\<lambda>xs. xs @ map (\<lambda>x. merge_RequestOp x new_RequestOp) (tr_Failure m))))"
    using assms by (intro reads_list [where field = "TxnRequest_field H" and upd = "\<lambda>f. apfst (tr_Failure_update f)" and g = "\<lambda>x. x",
        OF _ TxnRequest_fields(4) assms(2)] tags_of op [where t = "0x22"])
      (auto simp: TxnRequest_ok_def wire_TxnRequest_def apfst_compose comp_def)
  have empty: "wire_slice s = None" if "slice_bytes s = []" for s
    using that by (cases s) (auto simp: wire_slice_def slice_len_def)
  have same: "apfst (tr_unknownFields_update (\<lambda>us. us)) st = st" for st :: "TxnRequest \<times> cmp_heap"
    by (cases st) simp
  show ?thesis unfolding TxnRequest_UnmarshalVT_def
    by (rule unmarshal_merge [OF _ _ _ _ wire_TxnRequest_def unknown assms(2)],
        (rule list.rel_intros table compare success failure)+)
      (simp_all add: apfst_compose comp_def received_TxnRequest_def new_TxnRequest_def append_Compares empty same)
qed

lemma TxnRequest_returns:
  assumes "helpers_ok H" and "length d < 2 ^ 63"
  shows "\<exists>e st1. TxnRequest_UnmarshalVT H st d = Some (Ret e, st1)"
  unfolding TxnRequest_UnmarshalVT_def
proof (rule decode_returns [OF assms])
  fix n f
  assume "TxnRequest_field H n = Some f"
  then show "field_returns d f" using assms(2)
    by (auto simp: TxnRequest_field_def split: if_splits intro!: returns_intros
        Compare_returns [OF assms(1)] RequestOp_returns [OF assms(1)])
qed simp

definition TxnRequest_sendable :: "protohelpers \<Rightarrow> cmp_heap \<Rightarrow> TxnRequest \<Rightarrow> bool" where
  "TxnRequest_sendable H h m \<longleftrightarrow> TxnRequest_ok H h m \<and> length (wire_TxnRequest h m) < 2 ^ 63 \<and>
     wire_slice (tr_Table m) = tr_Table m \<and>
     (\<forall>p \<in> set (tr_Compare m). \<exists>c. cmp_at h p = Some c \<and> normal_Compare c) \<and>
     (\<forall>x \<in> set (tr_Success m) \<union> set (tr_Failure m). normal_RequestOp x)"

text \<open>The request that arrives is the one sent, its comparisons in cells of the receiver.\<close>

lemma TxnRequest_received:
  assumes "TxnRequest_sendable H h m"
  shows "\<exists>ptrs h1. TxnRequest_UnmarshalVT H (new_TxnRequest, h0) (wire_TxnRequest h m) =
      Some (Ret None, (m\<lparr>tr_Compare := ptrs\<rparr>, h1)) \<and> map (cmp_at h1) ptrs = map (cmp_at h) (tr_Compare m)"
proof -
  let ?cs = "map (\<lambda>p. merge_elem merge_Compare zero_Compare (cmp_at h p)) (tr_Compare m)"
  let ?ptrs = "map Some [next_cell h0 ..< next_cell h0 + length (tr_Compare m)]"
  let ?h1 = "alloc_Compares ?cs h0"
  have cs: "?cs ! i = the (cmp_at h (tr_Compare m ! i))" "cmp_at h (tr_Compare m ! i) \<noteq> None"
    if "i < length (tr_Compare m)" for i
  proof -
    from that assms obtain c where "cmp_at h (tr_Compare m ! i) = Some c" "normal_Compare c"
      by (meson TxnRequest_sendable_def nth_mem)
    with that show "?cs ! i = the (cmp_at h (tr_Compare m ! i))" "cmp_at h (tr_Compare m ! i) \<noteq> None"
      by (simp_all add: merge_elem_def zero_Compare_merge)
  qed
  have "map (cmp_at ?h1) ?ptrs = map (cmp_at h) (tr_Compare m)"
  proof (rule nth_equalityI)
    fix i
    assume "i < length (map (cmp_at ?h1) ?ptrs)"
    with cs [of i] alloc_Compares_new [of i ?cs h0]
    show "map (cmp_at ?h1) ?ptrs ! i = map (cmp_at h) (tr_Compare m) ! i" by (simp add: cmp_at_def)
  qed simp
  moreover have "received_TxnRequest h m h0 = (m\<lparr>tr_Compare := ?ptrs\<rparr>, ?h1)"
    using assms by (cases m) (auto simp: received_TxnRequest_def TxnRequest_sendable_def new_RequestOp_merge intro!: map_idI)
  moreover have "TxnRequest_UnmarshalVT H (new_TxnRequest, h0) (wire_TxnRequest h m) =
      Some (Ret None, received_TxnRequest h m h0)"
    using assms by (simp add: TxnRequest_sendable_def TxnRequest_unmarshal)
  ultimately show ?thesis by auto
qed

section \<open>TxnResponse: the encoding\<close>

definition wire_TxnResponse :: "PbTxnResponse \<Rightarrow> bytes" where
  "wire_TxnResponse m = concat [
     wire_msg 0x0A (wire_opt wire_ResponseHeader) (ts_Header m), wire_bool 0x10 (ts_Succeeded m),
     wire_msgs 0x1A wire_ResponseOp (ts_Responses m)] @ ts_unknownFields m"

definition merge_TxnResponse :: "PbTxnResponse \<Rightarrow> PbTxnResponse \<Rightarrow> PbTxnResponse" where
  "merge_TxnResponse m m0 = m0\<lparr>
     ts_Header := merge_opt merge_ResponseHeader new_ResponseHeader (ts_Header m) (ts_Header m0),
     ts_Succeeded := ts_Succeeded m \<or> ts_Succeeded m0,
     ts_Responses := ts_Responses m0 @ map (\<lambda>x. merge_ResponseOp x new_ResponseOp) (ts_Responses m),
     ts_unknownFields := ts_unknownFields m0 @ ts_unknownFields m\<rparr>"

definition TxnResponse_ok :: "protohelpers \<Rightarrow> PbTxnResponse \<Rightarrow> bool" where
  "TxnResponse_ok H m \<longleftrightarrow> unknown_bytes H (TxnResponse_field H) (ts_unknownFields m) \<and>
     (\<forall>x. ts_Header m = Some x \<longrightarrow> ResponseHeader_ok H x) \<and>
     (\<forall>x \<in> set (ts_Responses m). ResponseOp_ok H x)"

definition TxnResponse_sendable :: "protohelpers \<Rightarrow> PbTxnResponse \<Rightarrow> bool" where
  "TxnResponse_sendable H m \<longleftrightarrow> TxnResponse_ok H m \<and> length (wire_TxnResponse m) < 2 ^ 63 \<and>
     (\<forall>x \<in> set (ts_Responses m). normal_ResponseOp x)"

lemma TxnResponse_marshals:
  assumes "helpers_ok H"
  shows "marshals (TxnResponse_MarshalToSizedBufferVT H m) (wire_opt wire_TxnResponse m)"
proof (cases m)
  case None
  then show ?thesis by (simp add: TxnResponse_MarshalToSizedBufferVT_def [abs_def] wire_opt_def marshals_nil)
next
  case (Some x)
  note op = list_marshals [of "ResponseOp_MarshalToSizedBufferVT H" wire_ResponseOp, OF ResponseOp_marshals [OF assms]]
  from Some show ?thesis
    by (simp add: TxnResponse_MarshalToSizedBufferVT_def [abs_def] wire_opt_def [of wire_TxnResponse] wire_TxnResponse_def)
      (rule marshals_fields, (rule list.rel_intros prepends_intros assms op ResponseHeader_marshals)+, simp)
qed

lemma TxnResponse_SizeVT:
  assumes "helpers_ok H"
  shows "TxnResponse_SizeVT H m = length (wire_opt wire_TxnResponse m)"
  by (cases m) (simp_all add: TxnResponse_SizeVT_def wire_opt_def [of wire_TxnResponse] wire_TxnResponse_def
      size_fields [OF assms, symmetric] wire_opt_def [of wire_ResponseOp]
      size_msg [OF assms ResponseHeader_SizeVT [OF assms], symmetric]
      size_msgs [OF assms, of _ "\<lambda>x. ResponseOp_SizeVT H (Some x)" wire_ResponseOp, symmetric] ResponseOp_SizeVT [OF assms])

lemma TxnResponse_marshalled:
  "helpers_ok H \<Longrightarrow> TxnResponse_MarshalVT H (Some m) = Ret (Some (wire_TxnResponse m))"
  using marshal_vt_writes [of "TxnResponse_MarshalToSizedBufferVT H" m _ "TxnResponse_SizeVT H", OF TxnResponse_marshals]
    TxnResponse_SizeVT [of H "Some m"]
  by (simp add: TxnResponse_MarshalVT_def wire_opt_def)

lemma TxnResponse_fields:
  "TxnResponse_field H 1 = Some (field_msg ''Header''
     (\<lambda>m. case ts_Header m of None \<Rightarrow> new_ResponseHeader | Some x \<Rightarrow> x)
     (\<lambda>x. ts_Header_update (\<lambda>_. Some x)) (ResponseHeader_UnmarshalVT H))"
  "TxnResponse_field H 2 = Some (field_bool ''Succeeded'' (\<lambda>v. ts_Succeeded_update (\<lambda>_. v)))"
  "TxnResponse_field H 3 = Some (field_msg ''Responses'' (\<lambda>m. new_ResponseOp)
     (\<lambda>x. ts_Responses_update (\<lambda>xs. xs @ [x])) (ResponseOp_UnmarshalVT H))"
  by (simp_all add: TxnResponse_field_def)

lemma TxnResponse_unmarshal:
  assumes "TxnResponse_ok H m" and "length (wire_TxnResponse m) < 2 ^ 63"
  shows "TxnResponse_UnmarshalVT H m0 (wire_TxnResponse m) = Some (Ret None, merge_TxnResponse m m0)"
proof -
  let ?d = "wire_TxnResponse m"
  let ?loop = "decode_loop H ''TxnResponse'' (TxnResponse_field H)
    (\<lambda>bs. ts_unknownFields_update (\<lambda>us. us @ bs)) ?d"
  have unknown: "unknown_bytes H (TxnResponse_field H) (ts_unknownFields m)"
    using assms(1) by (simp add: TxnResponse_ok_def)
  have "ResponseHeader_UnmarshalVT H m1 (wire_ResponseHeader x) = Some (Ret None, merge_ResponseHeader x m1)"
    if "ts_Header m = Some x" for x m1
    using assms nested_length(1) [of wire_ResponseHeader x "0x0A"] that
    by (intro ResponseHeader_unmarshal) (auto simp: TxnResponse_ok_def wire_TxnResponse_def)
  then have header: "reads ?loop ?d (wire_msg 0x0A (wire_opt wire_ResponseHeader) (ts_Header m))
      (\<lambda>m0. if ts_Header m = None then m0
        else ts_Header_update (\<lambda>_. merge_opt merge_ResponseHeader new_ResponseHeader (ts_Header m) (ts_Header m0)) m0)"
    by (intro reads_msg [where field = "TxnResponse_field H" and get = ts_Header, OF _ TxnResponse_fields(1) assms(2)] tags_of)
  have succeeded: "reads ?loop ?d (wire_bool 0x10 (ts_Succeeded m))
      (\<lambda>m0. if ts_Succeeded m then ts_Succeeded_update (\<lambda>_. True) m0 else m0)"
    by (intro reads_bool [where field = "TxnResponse_field H", OF _ TxnResponse_fields(2)] tags_of)
  have "ResponseOp_UnmarshalVT H new_ResponseOp (wire_ResponseOp x) = Some (Ret None, merge_ResponseOp x new_ResponseOp)"
    if "x \<in> set (ts_Responses m)" for x
    using nested_length(2) [OF that, of wire_ResponseOp "0x1A"] that assms
    by (intro ResponseOp_unmarshal) (auto simp: TxnResponse_ok_def wire_TxnResponse_def)
  then have responses: "reads ?loop ?d (wire_msgs 0x1A wire_ResponseOp (ts_Responses m))
      (ts_Responses_update (\<lambda>xs. xs @ map (\<lambda>x. merge_ResponseOp x new_ResponseOp) (ts_Responses m)))"
    by (intro reads_list [where field = "TxnResponse_field H" and upd = ts_Responses_update and g = "\<lambda>x. x",
        OF _ TxnResponse_fields(3) assms(2)] tags_of) simp_all
  show ?thesis unfolding TxnResponse_UnmarshalVT_def
    by (rule unmarshal_merge [OF _ _ _ _ wire_TxnResponse_def unknown assms(2)],
        (rule list.rel_intros header succeeded responses)+)
      (simp_all add: merge_TxnResponse_def merge_opt_None)
qed

lemma TxnResponse_received:
  assumes "TxnResponse_sendable H m"
  shows "TxnResponse_UnmarshalVT H new_TxnResponse (wire_TxnResponse m) = Some (Ret None, m)"
proof -
  have "merge_TxnResponse m new_TxnResponse = m"
    using assms by (cases m) (auto simp: merge_TxnResponse_def TxnResponse_sendable_def new_TxnResponse_def
        new_ResponseOp_merge new_ResponseHeader_merge merge_opt_def intro!: map_idI split: option.split)
  with assms show ?thesis by (simp add: TxnResponse_sendable_def TxnResponse_unmarshal)
qed

lemma TxnResponse_returns:
  assumes "helpers_ok H" and "length d < 2 ^ 63"
  shows "\<exists>e m1. TxnResponse_UnmarshalVT H m d = Some (Ret e, m1)"
  unfolding TxnResponse_UnmarshalVT_def
proof (rule decode_returns [OF assms])
  fix n f
  assume "TxnResponse_field H n = Some f"
  then show "field_returns d f" using assms(2)
    by (auto simp: TxnResponse_field_def split: if_splits intro!: returns_intros
        ResponseHeader_returns [OF assms(1)] ResponseOp_returns [OF assms(1)])
qed simp

end
