(* ===== verification/Wire_Properties.thy ===== *)
theory Wire_Properties
  imports Wire_Txn
begin

text \<open>
  What the wire codec promises its callers, over all messages of reads, puts, deletions and
  transactions:
  a message that is marshalled and unmarshalled into a new one comes back, and no bytes make
  unmarshalling panic or run for ever. A model of \<open>protohelpers\<close> that follows its
  documentation shows that \<open>helpers_ok\<close> can hold.
\<close>

section \<open>Helpers as the documentation describes them\<close>

definition doc_Skip :: "bytes \<Rightarrow> (wire_error + int64) go" where
  "doc_Skip d = (case varint_loop d 0 0 (0 :: uint64) of
     (Some e, wire, j) \<Rightarrow> Ret (Inl e)
   | (None, wire, j) \<Rightarrow>
       if wire AND 0x7 = 0 then
         (case varint_loop d 0 j (0 :: uint64) of
            (Some e, v, k) \<Rightarrow> Ret (Inl e) | (None, v, k) \<Rightarrow> Ret (Inr (of_nat k)))
       else if wire AND 0x7 = 2 then
         (case read_len d j of Inl e \<Rightarrow> Ret (Inl e) | Inr (k, postIndex) \<Rightarrow> Ret (Inr (of_nat postIndex)))
       else Ret (Inl (SkipFailed ''unsupported wire type'')))"

definition doc_helpers :: protohelpers where
  "doc_helpers = \<lparr>ph_EncodeVarint = \<lambda>d offset v. copy_at (varint v) (d, offset),
     ph_SizeOfVarint = \<lambda>v. length (varint v), ph_Skip = doc_Skip\<rparr>"

lemma of_nat_pos: "0 < k \<Longrightarrow> k < 2 ^ 63 \<Longrightarrow> 0 <s (of_nat k :: int64)"
  by (simp add: word_sless_alt sint_of_nat)

lemma doc_Skip_returns:
  assumes "d \<noteq> []" and "length d < 2 ^ 63"
  shows "\<exists>r. doc_Skip d = Ret r \<and> (\<forall>n. r = Inr n \<longrightarrow> 0 <s n)"
proof -
  obtain e wire j where tag: "varint_loop d 0 0 (0 :: uint64) = (e, wire, j)" by (metis prod_cases3)
  note j = varint_loop_index [OF tag]
  obtain e1 v k where val: "varint_loop d 0 j (0 :: uint64) = (e1, v, k)" by (metis prod_cases3)
  show ?thesis
  proof (cases e)
    case (Some x)
    with tag show ?thesis by (simp add: doc_Skip_def)
  next
    case None
    then have j: "0 < j" "j \<le> length d" using j by simp_all
    with varint_loop_index [OF val] assms(2) have "e1 = None \<Longrightarrow> 0 <s (of_nat k :: int64)"
      by (intro of_nat_pos) auto
    moreover have "0 <s (of_nat p :: int64)" if "read_len d j = Inr (q, p)" for q p
      using read_len_index [OF that j(2) assms(2)] j assms(2) by (intro of_nat_pos) auto
    ultimately show ?thesis using tag None val
      by (auto simp: doc_Skip_def split: option.split sum.split prod.split)
  qed
qed

lemma doc_helpers_ok: "helpers_ok doc_helpers"
proof -
  have "copy_at (varint v) (pre @ old @ rest, int (length pre + length old)) =
      Ret (pre @ varint v @ rest, int (length pre))" if "length old = length (varint v)" for v pre old rest
    by (rule prependsD [OF prepends_copy that])
  then show ?thesis using doc_Skip_returns by (simp add: helpers_ok_def doc_helpers_def)
qed

section \<open>Marshalling produces the encoding\<close>

text \<open>C17: \<open>MarshalVT\<close>, which computes a size, makes a buffer and fills it from its end backwards,
  returns the encoding written down from front to back in the order of the field numbers, with
  the fields that have their zero value left out; for the requests and responses of reads, puts,
  deletions and transactions.
\<close>
theorem MarshalVT_is_encoding:
  assumes "helpers_ok H"
  shows "RangeRequest_MarshalVT H (Some a) = Ret (Some (wire_RangeRequest a)) \<and>
    RangeResponse_MarshalVT H (Some b) = Ret (Some (wire_RangeResponse b)) \<and>
    PutRequest_MarshalVT H (Some c) = Ret (Some (wire_PutRequest c)) \<and>
    PutResponse_MarshalVT H (Some d) = Ret (Some (wire_PutResponse d)) \<and>
    DeleteRangeRequest_MarshalVT H (Some e) = Ret (Some (wire_DeleteRangeRequest e)) \<and>
    DeleteRangeResponse_MarshalVT H (Some f) = Ret (Some (wire_DeleteRangeResponse f)) \<and>
    TxnRequest_MarshalVT H h (Some t) = Ret (Some (wire_TxnRequest h t)) \<and>
    TxnResponse_MarshalVT H (Some u) = Ret (Some (wire_TxnResponse u))"
  using RangeRequest_marshalled [OF assms, of a]
    RangeResponse_marshalled [OF assms, of b]
    PutRequest_marshalled [OF assms, of c]
    PutResponse_marshalled [OF assms, of d]
    DeleteRangeRequest_marshalled [OF assms, of e]
    DeleteRangeResponse_marshalled [OF assms, of f]
    TxnRequest_marshalled [OF assms, of h t] TxnResponse_marshalled [OF assms, of u] by blast

theorem MarshalVT_is_encoding_witness:
  "PutRequest_MarshalVT doc_helpers (Some \<lparr>pr_Table = Some [0x74], pr_Key = Some [0x6B, 0x31],
       pr_Value = None, pr_PrevKv = True, pr_unknownFields = []\<rparr>) =
     Ret (Some [0x0A, 0x01, 0x74, 0x12, 0x02, 0x6B, 0x31, 0x20, 0x01])"
proof -
  let ?m = "\<lparr>pr_Table = Some [0x74], pr_Key = Some [0x6B, 0x31], pr_Value = None, pr_PrevKv = True,
    pr_unknownFields = []\<rparr> :: PutRequest"
  have "wire_PutRequest ?m = [0x0A, 0x01, 0x74, 0x12, 0x02, 0x6B, 0x31, 0x20, 0x01]"
    by (simp add: wire_PutRequest_def wire_bytes_def wire_len_def wire_bool_def varint_small)
  with MarshalVT_is_encoding [OF doc_helpers_ok, where c = ?m] show ?thesis by simp
qed

section \<open>Round trips\<close>

text \<open>C16: A request or a response that is marshalled and then unmarshalled into a new message is
  itself again, when it has no slice that is empty but not nil (the encoding does not tell it
  from nil), no nil element in a list, unknown fields that unmarshalling does not know either, and
  an encoding shorter than 2^63 bytes.
\<close>
theorem wire_roundtrip:
  assumes "helpers_ok H"
    and "RangeRequest_sendable H a"
    and "RangeResponse_sendable H b"
    and "PutRequest_sendable H c"
    and "PutResponse_sendable H d"
    and "DeleteRangeRequest_sendable H e"
    and "DeleteRangeResponse_sendable H f"
  shows "(\<exists>bs. RangeRequest_MarshalVT H (Some a) = Ret (Some bs) \<and>
      RangeRequest_UnmarshalVT H new_RangeRequest bs = Some (Ret None, a)) \<and>
    (\<exists>bs. RangeResponse_MarshalVT H (Some b) = Ret (Some bs) \<and>
      RangeResponse_UnmarshalVT H new_RangeResponse bs = Some (Ret None, b)) \<and>
    (\<exists>bs. PutRequest_MarshalVT H (Some c) = Ret (Some bs) \<and>
      PutRequest_UnmarshalVT H new_PutRequest bs = Some (Ret None, c)) \<and>
    (\<exists>bs. PutResponse_MarshalVT H (Some d) = Ret (Some bs) \<and>
      PutResponse_UnmarshalVT H new_PutResponse bs = Some (Ret None, d)) \<and>
    (\<exists>bs. DeleteRangeRequest_MarshalVT H (Some e) = Ret (Some bs) \<and>
      DeleteRangeRequest_UnmarshalVT H new_DeleteRangeRequest bs = Some (Ret None, e)) \<and>
    (\<exists>bs. DeleteRangeResponse_MarshalVT H (Some f) = Ret (Some bs) \<and>
      DeleteRangeResponse_UnmarshalVT H new_DeleteRangeResponse bs = Some (Ret None, f))"
  using assms(2-)
  by (simp add: RangeRequest_marshalled [OF assms(1)] RangeRequest_received
      RangeResponse_marshalled [OF assms(1)] RangeResponse_received
      PutRequest_marshalled [OF assms(1)] PutRequest_received
      PutResponse_marshalled [OF assms(1)] PutResponse_received
      DeleteRangeRequest_marshalled [OF assms(1)] DeleteRangeRequest_received
      DeleteRangeResponse_marshalled [OF assms(1)] DeleteRangeResponse_received)

definition sample_header :: ResponseHeader where
  "sample_header = new_ResponseHeader\<lparr>rh_ShardId := 1, rh_Revision := 300\<rparr>"

definition sample_kv :: KeyValue where
  "sample_kv = new_KeyValue\<lparr>kv_Key := Some [0x6B], kv_Value := Some [0x76], kv_ModRevision := -1\<rparr>"

lemma sendable_new:
  "RangeRequest_sendable H new_RangeRequest"
  "RangeResponse_sendable H new_RangeResponse"
  "PutRequest_sendable H new_PutRequest"
  "PutResponse_sendable H new_PutResponse"
  "DeleteRangeRequest_sendable H new_DeleteRangeRequest"
  "DeleteRangeResponse_sendable H new_DeleteRangeResponse"
  by (simp_all add: unknown_bytes.none wire_bytes_def wire_int_def wire_bool_def wire_msg_def wire_msgs_def
      RangeRequest_sendable_def RangeRequest_ok_def normal_RangeRequest_def wire_RangeRequest_def new_RangeRequest_def
      RangeResponse_sendable_def RangeResponse_ok_def normal_RangeResponse_def wire_RangeResponse_def new_RangeResponse_def
      PutRequest_sendable_def PutRequest_ok_def normal_PutRequest_def wire_PutRequest_def new_PutRequest_def
      PutResponse_sendable_def PutResponse_ok_def normal_PutResponse_def wire_PutResponse_def new_PutResponse_def
      DeleteRangeRequest_sendable_def DeleteRangeRequest_ok_def normal_DeleteRangeRequest_def wire_DeleteRangeRequest_def new_DeleteRangeRequest_def
      DeleteRangeResponse_sendable_def DeleteRangeResponse_ok_def normal_DeleteRangeResponse_def wire_DeleteRangeResponse_def new_DeleteRangeResponse_def)

theorem wire_roundtrip_witness:
  "\<exists>bs. RangeResponse_MarshalVT doc_helpers
      (Some (new_RangeResponse\<lparr>rs_Header := Some sample_header, rs_Kvs := [Some sample_kv, Some sample_kv],
         rs_Count := 2\<rparr>)) = Ret (Some bs) \<and>
    RangeResponse_UnmarshalVT doc_helpers new_RangeResponse bs = Some (Ret None,
      new_RangeResponse\<lparr>rs_Header := Some sample_header, rs_Kvs := [Some sample_kv, Some sample_kv],
         rs_Count := 2\<rparr>)"
proof -
  let ?H = doc_helpers
  let ?b = "new_RangeResponse\<lparr>rs_Header := Some sample_header, rs_Kvs := [Some sample_kv, Some sample_kv],
    rs_Count := 2\<rparr>"
  have samples: "normal_KeyValue sample_kv" "KeyValue_ok ?H sample_kv" "ResponseHeader_ok ?H sample_header"
    by (simp_all add: sample_kv_def sample_header_def new_KeyValue_def new_ResponseHeader_def
        normal_KeyValue_def KeyValue_ok_def ResponseHeader_ok_def unknown_bytes.none)
  have "length (wire_KeyValue sample_kv) < 50" "length (wire_ResponseHeader sample_header) < 50"
    by (simp_all add: wire_KeyValue_def sample_kv_def new_KeyValue_def wire_bytes_def wire_len_def
        wire_int_def wire_ResponseHeader_def sample_header_def new_ResponseHeader_def varint.simps drop_bit_eq_div)
  then have "RangeResponse_sendable ?H ?b"
    by (simp add: RangeResponse_sendable_def normal_RangeResponse_def RangeResponse_ok_def samples
        new_RangeResponse_def unknown_bytes.none wire_RangeResponse_def wire_msg_def wire_msgs_def
        wire_len_def wire_opt_def wire_bool_def wire_int_def varint_small word_less_nat_alt unat_of_nat)
  moreover have "RangeRequest_sendable ?H new_RangeRequest" "PutRequest_sendable ?H new_PutRequest"
    "PutResponse_sendable ?H new_PutResponse" "DeleteRangeRequest_sendable ?H new_DeleteRangeRequest"
    "DeleteRangeResponse_sendable ?H new_DeleteRangeResponse"
    by (simp_all add: sendable_new)
  ultimately show ?thesis using wire_roundtrip [OF doc_helpers_ok] by blast
qed


definition sample_heap :: cmp_heap where
  "sample_heap = \<lparr>cells = \<lambda>a. cmp_spec ([0x6B], ''>'', [0x76]), next_cell = 1\<rparr>"

definition sample_txn :: TxnRequest where
  "sample_txn = new_TxnRequest\<lparr>tr_Table := Some [0x74], tr_Compare := [Some 0],
     tr_Success := [new_RequestOp\<lparr>ro_Request := Some (RequestOp_RequestPut
       (new_RequestOp_Put\<lparr>qp_Key := Some [0x6B], qp_PrevKv := True\<rparr>))\<rparr>],
     tr_Failure := [new_RequestOp\<lparr>ro_Request := Some (RequestOp_RequestRange
       (new_RequestOp_Range\<lparr>qr_Key := Some [0x6B], qr_Limit := 300\<rparr>))\<rparr>]\<rparr>"

lemma sample_txn_sendable: "TxnRequest_sendable doc_helpers sample_heap sample_txn"
proof -
  have "TxnRequest_ok doc_helpers sample_heap sample_txn"
    by (simp add: TxnRequest_ok_def sample_txn_def new_TxnRequest_def unknown_bytes.none cmp_at_def sample_heap_def
        Compare_ok_def cmp_spec_def zero_Compare_def RequestOp_ok_def new_RequestOp_def RequestOp_Put_ok_def
        RequestOp_Range_ok_def new_RequestOp_Put_def new_RequestOp_Range_def)
  moreover have "length (wire_TxnRequest sample_heap sample_txn) < 2 ^ 63"
    by (simp add: wire_TxnRequest_def sample_txn_def sample_heap_def new_TxnRequest_def wire_msgs_def wire_len_def
        wire_opt_def cmp_at_def wire_Compare_def cmp_spec_def cmp_op_def zero_Compare_def wire_bytes_def wire_bytes2_def
        wire_enum_def wire_RequestOp_def wire_RequestOp_Request_def new_RequestOp_def wire_RequestOp_Put_def
        wire_RequestOp_Range_def new_RequestOp_Put_def new_RequestOp_Range_def wire_int_def wire_bool_def varint.simps
        drop_bit_eq_div)
  ultimately show ?thesis
    by (simp add: TxnRequest_sendable_def sample_txn_def new_TxnRequest_def cmp_at_def sample_heap_def normal_Compare_def
        cmp_spec_def zero_Compare_def normal_RequestOp_def new_RequestOp_def normal_RequestOp_Put_def
        normal_RequestOp_Range_def new_RequestOp_Put_def new_RequestOp_Range_def)
qed


section \<open>What the client asks for is what arrives\<close>

text \<open>C14: The request an operation is turned into asks the server for what the operation says: after
  marshalling and unmarshalling, its table, its keys and every other part of it are those
  of the operation, whatever slices of the operation were nil or empty.
\<close>
theorem range_request_arrives:
  assumes "helpers_ok H" and "toRangeRequest x table = Ret r" and "length (wire_RangeRequest r) < 2 ^ 63"
  shows "\<exists>bs r1. RangeRequest_MarshalVT H (Some r) = Ret (Some bs) \<and>
    RangeRequest_UnmarshalVT H new_RangeRequest bs = Some (Ret None, r1) \<and>
    slice_bytes (rr_Table r1) = table \<and> slice_bytes (rr_Key r1) = slice_bytes (op_key (op_f x)) \<and>
    slice_bytes (rr_RangeEnd r1) = slice_bytes (op_end (op_f x)) \<and> rr_Limit r1 = op_limit (op_f x) \<and>
    rr_Linearizable r1 = (\<not> op_serializable (op_f x)) \<and> rr_KeysOnly r1 = op_keysOnly (op_f x) \<and>
    rr_CountOnly r1 = op_countOnly (op_f x) \<and> rr_MinModRevision r1 = op_minModRev (op_f x) \<and>
    rr_MaxModRevision r1 = op_maxModRev (op_f x) \<and> rr_MinCreateRevision r1 = op_minCreateRev (op_f x) \<and>
    rr_MaxCreateRevision r1 = op_maxCreateRev (op_f x)"
proof -
  from assms(2) have r: "rr_unknownFields r = []" "rr_Table r = Some table" "rr_Key r = op_key (op_f x)"
    "rr_RangeEnd r = op_end (op_f x)" "rr_Limit r = op_limit (op_f x)" "rr_Linearizable r = (\<not> op_serializable (op_f x))"
    "rr_KeysOnly r = op_keysOnly (op_f x)" "rr_CountOnly r = op_countOnly (op_f x)"
    "rr_MinModRevision r = op_minModRev (op_f x)" "rr_MaxModRevision r = op_maxModRev (op_f x)"
    "rr_MinCreateRevision r = op_minCreateRev (op_f x)" "rr_MaxCreateRevision r = op_maxCreateRev (op_f x)"
    by (auto simp: toRangeRequest_def Let_def split: if_splits)
  have "RangeRequest_ok H r" by (simp add: RangeRequest_ok_def r unknown_bytes.none)
  with RangeRequest_marshalled [OF assms(1), of r] RangeRequest_unmarshal [of H r new_RangeRequest] assms(3)
  show ?thesis by (simp add: merge_RangeRequest_def new_RangeRequest_def r)
qed

theorem range_request_arrives_witness:
  "\<exists>x r bs r1. OpGet [1, 0xff] [WithPrefix] = Ret x \<and> toRangeRequest x [7] = Ret r \<and>
     RangeRequest_MarshalVT doc_helpers (Some r) = Ret (Some bs) \<and>
     RangeRequest_UnmarshalVT doc_helpers new_RangeRequest bs = Some (Ret None, r1) \<and>
     slice_bytes (rr_Key r1) = [1, 0xff] \<and> slice_bytes (rr_RangeEnd r1) = [2]"
proof -
  let ?r = "new_RangeRequest\<lparr>rr_Table := Some [7], rr_Key := Some [1, 0xff], rr_RangeEnd := Some [2],
    rr_Linearizable := True\<rparr>"
  obtain x where x: "OpGet [1, 0xff] [WithPrefix] = Ret x" "toRangeRequest x [7] = Ret ?r"
    "op_key (op_f x) = Some [1, 0xff]" "op_end (op_f x) = Some [2]"
    using OpGet_eq [of "[1, 0xff]" "[OPrefix]"]
    by (simp add: WithPrefix_def zero_fields_def toRangeRequest_def Let_def getPrefix_def new_RangeRequest_def)
  have "length (wire_RangeRequest ?r) < 2 ^ 63"
    by (simp add: wire_RangeRequest_def new_RangeRequest_def wire_bytes_def wire_len_def wire_int_def wire_bool_def
        varint_small)
  from range_request_arrives [OF doc_helpers_ok x(2) this] x show ?thesis by auto
qed


section \<open>Unmarshalling returns\<close>

text \<open>C18: Unmarshalling comes to an end, without a panic, on any bytes and whatever message it is
  called on: it returns nil or an error. (A slice has fewer than 2^63 bytes.)
\<close>
theorem UnmarshalVT_returns:
  assumes "helpers_ok H" and "length bs < 2 ^ 63"
  shows "(\<exists>err a1. RangeRequest_UnmarshalVT H a bs = Some (Ret err, a1)) \<and>
    (\<exists>err b1. RangeResponse_UnmarshalVT H b bs = Some (Ret err, b1)) \<and>
    (\<exists>err c1. PutRequest_UnmarshalVT H c bs = Some (Ret err, c1)) \<and>
    (\<exists>err d1. PutResponse_UnmarshalVT H d bs = Some (Ret err, d1)) \<and>
    (\<exists>err e1. DeleteRangeRequest_UnmarshalVT H e bs = Some (Ret err, e1)) \<and>
    (\<exists>err f1. DeleteRangeResponse_UnmarshalVT H f bs = Some (Ret err, f1)) \<and>
    (\<exists>err t1. TxnRequest_UnmarshalVT H t bs = Some (Ret err, t1)) \<and>
    (\<exists>err u1. TxnResponse_UnmarshalVT H u bs = Some (Ret err, u1))"
  using RangeRequest_returns [OF assms, of a]
    RangeResponse_returns [OF assms, of b]
    PutRequest_returns [OF assms, of c]
    PutResponse_returns [OF assms, of d]
    DeleteRangeRequest_returns [OF assms, of e]
    DeleteRangeResponse_returns [OF assms, of f]
    TxnRequest_returns [OF assms, of t] TxnResponse_returns [OF assms, of u] by blast

theorem UnmarshalVT_returns_witness:
  "\<exists>err m. RangeResponse_UnmarshalVT doc_helpers new_RangeResponse [0x0A, 0x05, 0x08] = Some (Ret err, m)"
  using UnmarshalVT_returns [OF doc_helpers_ok, of "[0x0A, 0x05, 0x08]"] by simp

end
