(* ===== verification/Spec2Isabelle.thy ===== *)
theory Spec2Isabelle
  imports Client_Cmp Client_Txn Client_Fake Client_Config Plugins Retry_Spec Snappy Op_Types Write_Path Stream_Path
    Wire_Properties
begin

text \<open>
  A model of \<open>regatta-go\<close>, the Go client of the regatta key-value store, and the theorems about it.

  The program. A \<open>Client\<close> (\<open>client.go\<close>) is built from a configuration (\<open>config.go\<close>,
  \<open>options.go\<close>, \<open>tls.go\<close>, \<open>credentials/\<close>) and holds a gRPC connection that is balanced over
  the endpoints by the package's resolver (\<open>internal/resolver\<close>, \<open>internal/endpoint\<close>). Its KV
  part (\<open>kv.go\<close>) turns the operations of \<open>op.go\<close> into requests of the generated stubs;
  transactions are built by \<open>txn.go\<close>; every call goes through hooks (\<open>hooks.go\<close>, \<open>plugin/\<close>)
  and through the retry interceptors (\<open>interceptor.go\<close>). \<open>cluster.go\<close> and \<open>tables.go\<close> are the
  membership and administration calls, \<open>fake.go\<close> is the fake server for tests, and
  \<open>internal/snappy\<close> the compressor.

  The theories, and what they model:
  \<^item> \<open>Go_Prelude\<close>: panics (\<open>go\<close>), slices with nil, bytes and words of Go's widths, and the lemma
    collections shared by the others. \<open>Proto_Types\<close>: the message structs of the generated files.
  \<^item> \<open>Client_Op\<close>, \<open>Client_Cmp\<close>: \<open>op.go\<close>. An \<open>Op\<close> is a record of its scalar fields and its nested
    operations; an option is a function on operations. Comparisons are pointers into an explicit
    store, so that sharing one of them is visible.
  \<^item> \<open>Go_Errors\<close>: errors, the status package and contexts, \<open>toErr\<close>, and \<open>context.go\<close>.
  \<^item> \<open>Client_KV\<close>: \<open>kv.go\<close> and the call options; the locales \<open>kv_iface\<close> (what a user of \<open>Do\<close> relies
    on) and \<open>kv_hook\<close> (what a hook must respect), interpreted on \<open>kv_Do\<close>, and on the hooks of
    the plugins in \<open>Plugins\<close>.
  \<^item> \<open>Client_Txn\<close>: \<open>txn.go\<close>, a state machine with its invariant, and \<open>Commit\<close>.
  \<^item> \<open>Client_Retry\<close>: \<open>interceptor.go\<close>. \<open>Retry_Spec\<close>: the specification of a retried call as a
    relation, and the refinement that the interceptor implements it.
  \<^item> \<open>Client_Hooks\<close>, \<open>Plugins\<close>, \<open>Loggers\<close>: \<open>hooks.go\<close>, \<open>plugin/\<close>, \<open>log.go\<close>.
  \<^item> \<open>Go_Net\<close>, \<open>Endpoint\<close>, \<open>Resolver\<close>: the functions of the standard library that the endpoints
    need, and \<open>internal/endpoint\<close>, \<open>internal/resolver\<close>.
  \<^item> \<open>Client_TLS\<close>: \<open>tls.go\<close> and \<open>newTLSConfig\<close>. \<open>Client_Cluster\<close>: \<open>cluster.go\<close>, \<open>tables.go\<close>.
  \<^item> \<open>Client_Config\<close>: \<open>client.go\<close>, \<open>config.go\<close>: options, construction, dialling,
    endpoints and their synchronisation, the version check, closing. \<open>Credentials\<close>:
    \<open>credentials/credentials.go\<close>.
  \<^item> \<open>Client_Fake\<close>: \<open>fake.go\<close>. \<open>Snappy\<close>: \<open>internal/snappy/grpc.go\<close>,
    whose pools are the locale \<open>object_pool\<close>.
  \<^item> \<open>KV_Stub\<close>: the generated client of the KV service (\<open>internal/proto/regatta_grpc.pb.go\<close>) over
    gRPC's \<open>ClientConnInterface\<close>; replies are written through pointers into a heap of messages.
  \<^item> \<open>Op_Types\<close>: a type system for operations, and that typed operations do not make the client
    panic. \<open>Call_Path\<close>: calls from the table view through \<open>Do\<close>, the stub and the interceptor of a
    constructed client to the server and back, \<open>Write_Path\<close> those that write. \<open>Stream_Path\<close>: an iteration; the
    retrying streams are objects in a heap which their methods update.
  \<^item> \<open>Wire_Format\<close>, \<open>Wire_Reading\<close>, \<open>Wire_Messages\<close>, \<open>Wire_Roundtrip\<close>, \<open>Wire_Txn\<close>: the marshalling code of
    \<open>internal/proto/mvcc_vtproto.pb.go\<close> and \<open>regatta_vtproto.pb.go\<close> for the messages of the KV
    service. The code each field is expanded to is a function of \<open>Wire_Format\<close>, a message is the
    list of its fields in the order of the code; \<open>Wire_Reading\<close> holds the facts on reading them back.
    \<open>Wire_Properties\<close>: what follows for all messages, and for the requests of the client.
  \<^item> this theory: the client of the fake server, and the properties that span components.

  Effects and errors. The outside world (network, clock, server, files) is a type variable \<open>'w\<close>
  that every function with an effect threads. An error is a value of type \<open>err\<close>, nil is \<open>None\<close>;
  a panic is the constructor \<open>Panic\<close> of \<open>go\<close>. What is not in the repository is a parameter: gRPC
  (\<open>grpc_env\<close>, \<open>KVClient\<close>, \<open>stream_api\<close>, \<open>manual_pkg\<close>), the status package, X.509 and files
  (\<open>tls_env\<close>), the random jitter. Where a theorem needs more of a parameter than its type, the
  hypothesis states its documented behaviour (\<open>status_ok\<close>, \<open>manual_ok\<close>, \<open>pem_ok\<close>,
  \<open>connections_start_idle\<close>, \<open>helpers_ok\<close> for the package \<open>protohelpers\<close> of the wire codec), and a concrete instance shows that it can hold. A remote call may
  panic (a nil reply, an interceptor of the user); theorems which need that it does not say so
  (\<open>calls_return\<close>, \<open>members_return\<close>). Of gRPC the end-to-end theorems assume that a connection calls
  the interceptors it was dialled with (\<open>dials_intercepted\<close>, \<open>dials_streams\<close>), that the server's
  answers have the type of the method (\<open>server_ok\<close>), and that waiting does not change what the
  server has done (\<open>waits_locally\<close>), or anything (\<open>undisturbed\<close>).

  Loops. Loops over lists are structural recursion. The retry loops are \<open>function\<close>s whose measure
  is the number of attempts left; no fuel is used anywhere. The iteration over a stream and the
  decoding of a certificate file may never end in the code, and the loop of \<open>UnmarshalVT\<close> advances by
  what \<open>protohelpers\<close> answers: they are \<open>partial_function\<close>s, with a
  theorem that the first delivers a stream that ends, one that it never returns on a stream that
  has failed, one that the second ends when decoding makes progress, and one that the third
  returns on any bytes. Integers have the
  width of the code where it can matter (limits, attempts, revisions, the index of the fake
  server); lengths are natural numbers with the bound \<open>2 ^ 63\<close> or \<open>2 ^ 64\<close> as a hypothesis.

  What the groups of properties show. End to end: a put of a constructed client is answered at
  most once and reports exactly that answer; a get, and an iteration, deliver the server's answer
  although the first attempts fail. Types: an operation of the right form never panics in the
  client. Requests: what each operation puts on the wire, which
  options are refused, that a prefix option selects exactly the keys with the prefix. Retries:
  the interceptor refines its specification, makes at most the configured number of attempts,
  makes a write at most once after a failure that may have reached the server, replays the
  conversation of a broken stream, and delivers as soon as one attempt works. Transactions: the
  builder accepts exactly the calls in order, and \<open>Commit\<close> sends what was built. Client: what
  the endpoints of the client and of the resolver are, when the version check passes, when the
  backoff waits, which limits are accepted. TLS: no configuration below TLS 1.2, and what a peer
  must present. Wire codec: marshalling yields the encoding of the protobuf specification in a buffer of
  exactly its size, unmarshalling gives the message back and returns on all input. Fake server, hooks, plugins, compressor: what is recorded, in which order hooks
  run, that no two streams share a pooled object. Some theorems show where the code does not do
  what it means to; their texts say so.

  Concurrency. Mutexes guard whole methods, so that interleavings of goroutines are sequences of
  calls; where answers arrive in any order (the version check) or objects are handed out in any
  order (the compressor's pools) the theorems hold for every order.

  Not modelled: of the marshalling code, \<open>MarshalToVT\<close>, \<open>UnmarshalVTUnsafe\<close>, whose slices alias its
  input, the pools, and the messages of the command log and of the Cluster and Tables services;
  the client registers no codec, so that gRPC decides whether this code is called, and no
  theorem of the calls depends on it. The reflection of the generated files, the
  replication and maintenance services, which the client never calls, the JSON \<open>String\<close>
  methods, log lines, floating point (\<open>jitterUp\<close>), and gRPC itself.
\<close>

section \<open>The client of the fake server\<close>

text \<open>
  \<open>FakeClient.Client\<close>: a client whose connections go to the fake server, by way of its dial
  options. An error of the construction is a panic.
\<close>

definition FakeClient_Client where
  "FakeClient_Client G AsMap arrange w = map_option
     (\<lambda>(g, w1). (case g of Panic m \<Rightarrow> Panic m
        | Ret (Inl e) \<Rightarrow> Panic (ErrorText (ge_status G) e)
        | Ret (Inr cl) \<Rightarrow> Ret cl, w1))
     (NewFromURL G AsMap arrange ''fake''
       [WithDialOptions [''WithTransportCredentials(insecure)'', ''WithContextDialer(bufconn)'']] w)"

text \<open>gRPC delivers what the fake server's handlers return, when they return.\<close>

definition delivers :: "('w \<times> 'w fakeKVServer) KVClient \<Rightarrow> bool" where
  "delivers client \<longleftrightarrow>
     (\<forall>c req opts u f resp f1. fake_Put f (Some req) = (Ret (Inr resp), f1) \<longrightarrow>
        c_Put client c req opts (u, f) = (Ret (Inr resp), (u, f1))) \<and>
     (\<forall>c req opts u f resp f1. fake_Txn f (Some req) = (Ret (Inr resp), f1) \<longrightarrow>
        c_Txn client c req opts (u, f) = (Ret (Inr resp), (u, f1)))"

definition answer_of ::
  "(err + 'a) go \<times> 'w fakeKVServer \<Rightarrow> 'w \<Rightarrow> (err + 'a) go \<times> 'w \<times> 'w fakeKVServer" where
  "answer_of res u = (fst res, (u, snd res))"

definition fake_transport :: "('w \<times> 'w fakeKVServer) KVClient" where
  "fake_transport = empty_client\<lparr>
     c_Put := (\<lambda>c r opts w. answer_of (fake_Put (snd w) (Some r)) (fst w)),
     c_Txn := (\<lambda>c r opts w. answer_of (fake_Txn (snd w) (Some r)) (fst w))\<rparr>"

lemma fake_transport_delivers: "delivers fake_transport"
  by (simp add: delivers_def fake_transport_def answer_of_def)

section \<open>Facts\<close>

text \<open>What a handler of the fake server does on a configured response that is not an error.\<close>

lemma fake_handle_response:
  assumes "fs_fakeResponses f \<noteq> []" and "fs_fakeResponsesIdx f = of_nat n" and "n < 2 ^ 63"
    and "fs_fakeResponses f ! (n mod length (fs_fakeResponses f)) = \<lparr>fk_Response = r, fk_Err = None\<rparr>"
    and "conv r = Ret a"
  shows "fake_handle rq d conv f =
    (Ret (Inr a), (record_request rq f)\<lparr>fs_fakeResponsesIdx := of_nat (Suc n)\<rparr>)"
proof -
  let ?f = "record_request rq f"
  have "fst (next_response ?f) = Ret \<lparr>fk_Response = r, fk_Err = None\<rparr>"
    using next_response_nth [of n ?f] assms(1-4) by (simp add: record_request_def)
  with next_response_snd [of ?f] have "next_response ?f =
      (Ret \<lparr>fk_Response = r, fk_Err = None\<rparr>, ?f\<lparr>fs_fakeResponsesIdx := of_nat (Suc n)\<rparr>)"
    using assms(2) by (cases "next_response ?f") (simp add: record_request_def)
  then show ?thesis using assms(1,5) by (simp add: fake_handle_def Let_def record_request_def)
qed

section \<open>Properties across components\<close>







text \<open>A client of the fake server can always be constructed when gRPC can open a connection: it
  has the one endpoint \<open>fake\<close>, needs no credentials and does not check the server's version.\<close>

theorem FakeClient_Client_constructs:
  assumes "\<And>target opts w. \<exists>conn w1. ge_NewClient G target opts w = (Inr conn, w1)"
  shows "\<exists>cl w1. FakeClient_Client G AsMap arrange w = Some (Ret cl, w1) \<and>
    client_Endpoints cl = [''fake''] \<and> cl_creds cl = None \<and> cl_callOpts cl = defaultCallOpts \<and>
    cl_conn cl \<noteq> None"
proof -
  let ?cfg = "zero_config\<lparr>cf_Endpoints := [''fake''],
    cf_DialOptions := [''WithTransportCredentials(insecure)'', ''WithContextDialer(bufconn)'']\<rparr>"
  have run: "FakeClient_Client G AsMap arrange w = Some (case newClient G AsMap arrange ?cfg w of
      (g, w1) \<Rightarrow> (case g of Panic m \<Rightarrow> Panic m
        | Ret (Inl e) \<Rightarrow> Panic (ErrorText (ge_status G) e) | Ret (Inr cl) \<Rightarrow> Ret cl, w1))"
    by (simp add: FakeClient_Client_def NewFromURL_def client_New_def WithDialOptions_def set_option_def)
  obtain cl w1 where new: "newClient G AsMap arrange ?cfg w = (Ret (Inr cl), w1)"
    using newClient_total [of ?cfg defaultCallOpts "[]" G AsMap arrange w, OF _ _ _ _ _ assms]
    by (auto simp: client_callOpts_def processHooks_def zero_config_def)
  from newClient_result [OF new] run new show ?thesis
    by (auto simp: client_Endpoints_def client_callOpts_def zero_config_def)
qed

theorem FakeClient_Client_constructs_witness:
  "\<exists>cl w1. FakeClient_Client (doc_grpc []) (\<lambda>s. s) (\<lambda>eps. eps) None = Some (Ret cl, w1) \<and>
     client_Endpoints cl = [''fake'']"
  using FakeClient_Client_constructs [of "doc_grpc []" "\<lambda>s. s" "\<lambda>eps. eps" None]
  by (auto simp: doc_grpc_def)

end
